(* ===== verification/AW_Prelude.thy ===== *)
theory AW_Prelude
  imports Complex_Main
begin

text \<open>
  Shared vocabulary of the ArcaneWeaver component development.

  The Python source keeps its collections in lists and works on them with three idioms
  that the component theories share: the slice \<^verbatim>\<open>xs[:n]\<close> that truncates a list to a
  capacity, the linear scan that stops at the first element satisfying a test, and the
  in-place mutation of the object that such a scan has found. They are defined here as
  \<open>py_slice_to\<close>, \<open>first_index\<close> and \<open>update_first\<close>, together with the lemmas that the
  component proofs use. The theory also declares the fact collections of the development:
  \<open>aw_defs\<close> holds the defining equations that evaluation of a closed term unfolds,
  \<open>aw_frame\<close> the facts that say which fields an operation leaves alone.
\<close>

named_theorems aw_defs "defining equations unfolded when a closed term is evaluated"
named_theorems aw_frame "fields and list shapes that an operation leaves unchanged"

section \<open>The slice that enforces a capacity\<close>

text \<open>
  Python's \<^verbatim>\<open>xs[:n]\<close>: the first \<open>n\<close> elements for \<open>n \<ge> 0\<close>, all but the last \<open>-n\<close>
  elements for a negative \<open>n\<close>.
\<close>

definition py_slice_to :: "int \<Rightarrow> 'a list \<Rightarrow> 'a list" where
  "py_slice_to n xs =
     (if 0 \<le> n then take (nat n) xs else take (nat (int (length xs) + n)) xs)"

text \<open>
  The capacity check that both collections run after construction and after every
  assignment: a list longer than \<open>n\<close> is cut to \<^verbatim>\<open>xs[:n]\<close>, any other list is kept.
\<close>

definition truncate_to :: "int \<Rightarrow> 'a list \<Rightarrow> 'a list" where
  "truncate_to n xs = (if int (length xs) > n then py_slice_to n xs else xs)"

section \<open>Linear scans\<close>

text \<open>
  The position of the first element that satisfies \<open>P\<close>, the model of
  \<^verbatim>\<open>for i, x in enumerate(xs): if P(x): return i\<close>.
\<close>

fun first_index :: "('a \<Rightarrow> bool) \<Rightarrow> 'a list \<Rightarrow> nat option" where
  "first_index P [] = None"
| "first_index P (x # xs) = (if P x then Some 0 else map_option Suc (first_index P xs))"

text \<open>
  A method call on the object that a scan returned: the list keeps its shape, the first
  element that satisfies \<open>P\<close> is replaced by the object after the call, and the call's
  result is handed on. \<open>None\<close> is the scan that found nothing.
\<close>

definition update_first :: "('a \<Rightarrow> bool) \<Rightarrow> ('a \<Rightarrow> 'r \<times> 'a) \<Rightarrow> 'a list \<Rightarrow> ('r \<times> 'a list) option" where
  "update_first P f xs =
     (case first_index P xs of
        None \<Rightarrow> None
      | Some i \<Rightarrow> (case f (xs ! i) of (r, x') \<Rightarrow> Some (r, xs[i := x'])))"

text \<open>Deleting the first element that satisfies \<open>P\<close>, with the flag that says whether one was found.\<close>

definition delete_first :: "('a \<Rightarrow> bool) \<Rightarrow> 'a list \<Rightarrow> bool \<times> 'a list" where
  "delete_first P xs =
     (case first_index P xs of
        None \<Rightarrow> (False, xs)
      | Some i \<Rightarrow> (True, take i xs @ drop (Suc i) xs))"

section \<open>Lemmas on slices\<close>

lemma py_slice_to_nonneg [simp]: "0 \<le> n \<Longrightarrow> py_slice_to n xs = take (nat n) xs"
  by (simp add: py_slice_to_def)

lemma length_py_slice_to: "0 \<le> n \<Longrightarrow> int (length (py_slice_to n xs)) \<le> n"
  by simp

lemma truncate_to_fits [simp]: "int (length xs) \<le> n \<Longrightarrow> truncate_to n xs = xs"
  by (simp add: truncate_to_def)

lemma truncate_to_take: "0 \<le> n \<Longrightarrow> truncate_to n xs = take (nat n) xs"
  by (simp add: truncate_to_def)

lemma length_truncate_to: "0 \<le> n \<Longrightarrow> int (length (truncate_to n xs)) \<le> n"
  by (simp add: truncate_to_take)

lemma truncate_to_idem: "0 \<le> n \<Longrightarrow> truncate_to n (truncate_to n xs) = truncate_to n xs"
  by (simp add: truncate_to_take)

lemma set_truncate_to: "0 \<le> n \<Longrightarrow> set (truncate_to n xs) \<subseteq> set xs"
  by (simp add: truncate_to_take set_take_subset)

lemma truncate_to_prefix: "0 \<le> n \<Longrightarrow> \<exists>ys. xs = truncate_to n xs @ ys"
  by (metis append_take_drop_id truncate_to_take)

section \<open>Lemmas on scans\<close>

lemma first_index_None_iff: "first_index P xs = None \<longleftrightarrow> (\<forall>x \<in> set xs. \<not> P x)"
  by (induction xs) auto

lemma first_index_Some_iff:
  "first_index P xs = Some i \<longleftrightarrow> i < length xs \<and> P (xs ! i) \<and> (\<forall>j < i. \<not> P (xs ! j))"
proof (induction xs arbitrary: i)
  case Nil
  then show ?case by simp
next
  case (Cons x xs)
  show ?case
  proof (cases "P x")
    case True
    then show ?thesis by (cases i) auto
  next
    case False
    show ?thesis
    proof (cases i)
      case 0
      with False show ?thesis by auto
    next
      case (Suc k)
      have "(\<forall>j<Suc k. \<not> P ((x # xs) ! j)) \<longleftrightarrow> (\<forall>j<k. \<not> P (xs ! j))"
        using False by (auto simp: less_Suc_eq_0_disj)
      with False Suc Cons.IH [of k] show ?thesis by auto
    qed
  qed
qed

lemma first_index_SomeD:
  assumes "first_index P xs = Some i"
  shows "i < length xs" and "P (xs ! i)" and "\<And>j. j < i \<Longrightarrow> \<not> P (xs ! j)"
  using assms by (simp_all add: first_index_Some_iff)

lemma first_index_exists: "x \<in> set xs \<Longrightarrow> P x \<Longrightarrow> \<exists>i. first_index P xs = Some i"
  by (cases "first_index P xs") (auto simp: first_index_None_iff)

lemma find_first_index: "find P xs = map_option (\<lambda>i. xs ! i) (first_index P xs)"
  by (induction xs) (auto simp: option.map_comp comp_def)

lemma first_index_cong:
  "(\<And>x. x \<in> set xs \<Longrightarrow> P x = Q x) \<Longrightarrow> first_index P xs = first_index Q xs"
  by (induction xs) auto

lemma first_index_map: "first_index P (map f xs) = first_index (P \<circ> f) xs"
  by (induction xs) auto

lemma first_index_append:
  "first_index P (xs @ ys) =
     (case first_index P xs of
        Some i \<Rightarrow> Some i
      | None \<Rightarrow> map_option (\<lambda>i. length xs + i) (first_index P ys))"
proof (induction xs)
  case Nil
  show ?case by (cases "first_index P ys") simp_all
next
  case (Cons x xs)
  then show ?case
    by (cases "first_index P ys") (auto split: option.splits)
qed

section \<open>Lemmas on updating and deleting the first match\<close>

lemma first_index_Some_witness: "first_index P xs = Some i \<Longrightarrow> \<exists>x \<in> set xs. P x"
  by (auto simp: first_index_Some_iff intro: nth_mem)

lemma update_first_None_iff: "update_first P f xs = None \<longleftrightarrow> (\<forall>x \<in> set xs. \<not> P x)"
  by (auto simp: update_first_def first_index_None_iff split: option.splits prod.splits
      dest: first_index_Some_witness)

lemma update_first_SomeD:
  assumes "update_first P f xs = Some (r, ys)"
  obtains i where "first_index P xs = Some i" and "f (xs ! i) = (r, ys ! i)"
    and "ys = xs[i := ys ! i]" and "i < length xs"
proof -
  from assms obtain i x' where i: "first_index P xs = Some i"
    and f: "f (xs ! i) = (r, x')" and ys: "ys = xs[i := x']"
    by (auto simp: update_first_def split: option.splits prod.splits)
  from i have "i < length xs" by (rule first_index_SomeD)
  with i f ys that [of i] show thesis by simp
qed

lemma length_update_first [aw_frame]:
  "update_first P f xs = Some (r, ys) \<Longrightarrow> length ys = length xs"
  by (auto simp: update_first_def split: option.splits prod.splits)

lemma map_update_first [aw_frame]:
  assumes "update_first P f xs = Some (r, ys)" and "\<And>x. g (snd (f x)) = g x"
  shows "map g ys = map g xs"
proof -
  from assms(1) obtain i where i: "f (xs ! i) = (r, ys ! i)" "ys = xs[i := ys ! i]" "i < length xs"
    by (rule update_first_SomeD)
  from assms(2) [of "xs ! i"] i(1) have "g (ys ! i) = g (xs ! i)" by simp
  with i(2,3) show ?thesis
    by (metis list_update_id map_update)
qed

lemma delete_first_not_found: "fst (delete_first P xs) = False \<longleftrightarrow> (\<forall>x \<in> set xs. \<not> P x)"
  by (auto simp: delete_first_def first_index_None_iff split: option.splits
      dest: first_index_Some_witness)

lemma delete_first_found: "fst (delete_first P xs) \<longleftrightarrow> (\<exists>x \<in> set xs. P x)"
  using delete_first_not_found [of P xs] by auto

lemma length_delete_first:
  "length (snd (delete_first P xs)) = (if fst (delete_first P xs) then length xs - 1 else length xs)"
  by (auto simp: delete_first_def dest: first_index_SomeD(1) split: option.splits)

lemma set_delete_first: "set (snd (delete_first P xs)) \<subseteq> set xs"
  by (auto simp: delete_first_def split: option.splits dest: in_set_takeD in_set_dropD)

lemma delete_first_keeps: "x \<in> set xs \<Longrightarrow> \<not> P x \<Longrightarrow> x \<in> set (snd (delete_first P xs))"
proof (cases "first_index P xs")
  case None
  assume "x \<in> set xs"
  with None show ?thesis by (simp add: delete_first_def)
next
  case (Some i)
  assume x: "x \<in> set xs" and nP: "\<not> P x"
  from x obtain j where j: "j < length xs" "xs ! j = x" by (auto simp: in_set_conv_nth)
  from Some have i: "i < length xs" "P (xs ! i)" by (simp_all add: first_index_Some_iff)
  with j nP have "j \<noteq> i" by auto
  have xs: "xs = take i xs @ xs ! i # drop (Suc i) xs"
    using i(1) by (rule id_take_nth_drop)
  have "x \<in> set (take i xs) \<union> set (drop (Suc i) xs)"
  proof -
    from x xs have "x \<in> set (take i xs @ xs ! i # drop (Suc i) xs)" by simp
    with i(2) nP show ?thesis by auto
  qed
  with Some show ?thesis by (simp add: delete_first_def)
qed

lemma distinct_map_delete_first:
  "distinct (map g xs) \<Longrightarrow> distinct (map g (snd (delete_first P xs)))"
proof (cases "first_index P xs")
  case None
  assume "distinct (map g xs)"
  with None show ?thesis by (simp add: delete_first_def)
next
  case (Some i)
  assume d: "distinct (map g xs)"
  from Some have i: "i < length xs" by (rule first_index_SomeD)
  then have xs: "xs = take i xs @ xs ! i # drop (Suc i) xs" by (rule id_take_nth_drop)
  from d have "distinct (map g (take i xs @ xs ! i # drop (Suc i) xs))"
    using xs by simp
  then have "distinct (map g (take i xs @ drop (Suc i) xs))" by auto
  with Some show ?thesis by (simp add: delete_first_def)
qed

lemma delete_first_removes:
  assumes "distinct (map g xs)" and "\<And>x. P x \<longleftrightarrow> g x = k"
  shows "\<forall>x \<in> set (snd (delete_first P xs)). \<not> P x"
proof (cases "first_index P xs")
  case None
  then have "\<forall>x \<in> set xs. \<not> P x" by (simp add: first_index_None_iff)
  with None show ?thesis by (simp add: delete_first_def)
next
  case (Some i)
  from Some have i: "i < length xs" "P (xs ! i)" by (simp_all add: first_index_Some_iff)
  from i(1) have xs: "xs = take i xs @ xs ! i # drop (Suc i) xs" by (rule id_take_nth_drop)
  from assms(1) have "distinct (map g (take i xs @ xs ! i # drop (Suc i) xs))"
    using xs by simp
  then have "g (xs ! i) \<notin> g ` (set (take i xs) \<union> set (drop (Suc i) xs))" by auto
  then have "\<And>x. x \<in> set (take i xs) \<union> set (drop (Suc i) xs) \<Longrightarrow> g x \<noteq> g (xs ! i)"
    by (metis imageI)
  with i(2) assms(2) have "\<forall>x \<in> set (take i xs) \<union> set (drop (Suc i) xs). \<not> P x"
    by metis
  with Some show ?thesis by (simp add: delete_first_def)
qed

section \<open>Lemmas on the update of one position\<close>

lemma sum_list_map_update:
  fixes f :: "'a \<Rightarrow> int"
  shows "i < length xs \<Longrightarrow>
    sum_list (map f (xs[i := y])) = sum_list (map f xs) - f (xs ! i) + f y"
  by (induction xs arbitrary: i) (auto split: nat.splits)

lemma sum_list_map_zero:
  fixes f :: "'a \<Rightarrow> int"
  shows "(\<And>x. x \<in> set xs \<Longrightarrow> f x = 0) \<Longrightarrow> sum_list (map f xs) = 0"
  by (induction xs) simp_all

lemma length_filter_update:
  "i < length xs \<Longrightarrow> P (xs ! i) \<Longrightarrow> \<not> P y \<Longrightarrow>
     Suc (length (filter P (xs[i := y]))) = length (filter P xs)"
  by (induction xs arbitrary: i) (auto split: nat.splits)

lemma list_all_update: "list_all P xs \<Longrightarrow> P y \<Longrightarrow> list_all P (xs[i := y])"
  by (induction xs arbitrary: i) (auto split: nat.splits)

lemma list_all_nth: "list_all P xs \<Longrightarrow> i < length xs \<Longrightarrow> P (xs ! i)"
  by (simp add: list_all_length)

lemma filter_empty_first_index: "first_index P xs = None \<Longrightarrow> filter P xs = []"
  by (simp add: first_index_None_iff filter_empty_conv)

section \<open>Lemmas on looking up after an update\<close>

lemma find_update_at_first:
  "first_index P xs = Some i \<Longrightarrow> P y \<Longrightarrow> find P (xs[i := y]) = Some y"
proof (induction xs arbitrary: i)
  case (Cons x xs)
  then show ?case by (cases i) (auto split: if_splits)
qed simp

lemma find_update_other:
  "i < length xs \<Longrightarrow> \<not> Q (xs ! i) \<Longrightarrow> \<not> Q y \<Longrightarrow> find Q (xs[i := y]) = find Q xs"
proof (induction xs arbitrary: i)
  case (Cons x xs)
  then show ?case by (cases i) auto
qed simp

lemma update_first_find:
  assumes "update_first P f xs = Some (r, ys)" and "\<And>x. P x \<Longrightarrow> P (snd (f x))"
  shows "\<exists>x. find P xs = Some x \<and> r = fst (f x) \<and> find P ys = Some (snd (f x))"
proof -
  from assms(1) obtain i where i: "first_index P xs = Some i"
    and r: "r = fst (f (xs ! i))" and ys: "ys = xs[i := snd (f (xs ! i))]"
    by (auto simp: update_first_def split: option.splits prod.splits)
  from i have "P (xs ! i)" by (simp add: first_index_Some_iff)
  then have "P (snd (f (xs ! i)))" by (rule assms(2))
  with i have "find P ys = Some (snd (f (xs ! i)))" unfolding ys by (rule find_update_at_first)
  with i r show ?thesis by (simp add: find_first_index)
qed

lemma update_first_find_other:
  assumes "update_first P f xs = Some (r, ys)" and "\<And>x. P x \<Longrightarrow> \<not> Q x \<and> \<not> Q (snd (f x))"
  shows "find Q ys = find Q xs"
proof -
  from assms(1) obtain i where i: "first_index P xs = Some i"
    and ys: "ys = xs[i := snd (f (xs ! i))]"
    by (auto simp: update_first_def split: option.splits prod.splits)
  from i have "i < length xs" "P (xs ! i)" by (simp_all add: first_index_Some_iff)
  with assms(2) [of "xs ! i"] show ?thesis unfolding ys by (intro find_update_other) simp_all
qed

lemma update_first_Some_iff:
  "(\<exists>r ys. update_first P f xs = Some (r, ys)) \<longleftrightarrow> (\<exists>x \<in> set xs. P x)"
  using update_first_None_iff [of P f xs] by (cases "update_first P f xs") auto

lemma find_append:
  "find P (xs @ ys) = (case find P xs of None \<Rightarrow> find P ys | Some x \<Rightarrow> Some x)"
  by (induction xs) simp_all

lemma find_delete_first_other:
  assumes "\<And>x. P x \<Longrightarrow> \<not> Q x"
  shows "find Q (snd (delete_first P xs)) = find Q xs"
proof (cases "first_index P xs")
  case None
  then show ?thesis by (simp add: delete_first_def)
next
  case (Some i)
  then have i: "i < length xs" "P (xs ! i)" by (simp_all add: first_index_Some_iff)
  then have "\<not> Q (xs ! i)" by (simp add: assms)
  have "find Q (take i xs @ drop (Suc i) xs) = find Q (take i xs @ xs ! i # drop (Suc i) xs)"
    using \<open>\<not> Q (xs ! i)\<close> by (simp add: find_append split: option.splits)
  with i(1) Some show ?thesis by (simp add: delete_first_def Cons_nth_drop_Suc)
qed

lemma delete_first_Cons:
  "delete_first P (x # xs) =
     (if P x then (True, xs) else (fst (delete_first P xs), x # snd (delete_first P xs)))"
  by (simp add: delete_first_def split: option.splits)

lemma delete_first_filter:
  assumes "distinct (map g xs)" and "\<And>x. P x \<longleftrightarrow> g x = k"
  shows "snd (delete_first P xs) = filter (\<lambda>x. g x \<noteq> k) xs"
  using assms(1)
proof (induction xs)
  case Nil
  then show ?case by (simp add: delete_first_def)
next
  case (Cons x xs)
  show ?case
  proof (cases "P x")
    case True
    from Cons.prems have "g x \<notin> g ` set xs" by simp
    moreover from True assms(2) have "g x = k" by simp
    ultimately have "\<forall>y \<in> set xs. g y \<noteq> k" by (auto simp: image_iff)
    then have "filter (\<lambda>x. g x \<noteq> k) xs = xs" by (simp add: filter_id_conv)
    with True assms(2) show ?thesis by (simp add: delete_first_Cons)
  next
    case False
    with Cons assms(2) show ?thesis by (simp add: delete_first_Cons)
  qed
qed

lemma list_all_update_first:
  assumes "update_first P f xs = Some (r, ys)" and "list_all Q xs"
    and "\<And>x. Q x \<Longrightarrow> Q (snd (f x))"
  shows "list_all Q ys"
proof -
  from assms(1) obtain i where i: "first_index P xs = Some i"
    and ys: "ys = xs[i := snd (f (xs ! i))]"
    by (auto simp: update_first_def split: option.splits prod.splits)
  from i have "i < length xs" by (simp add: first_index_Some_iff)
  with assms(2) have "Q (xs ! i)" by (rule list_all_nth)
  then have "Q (snd (f (xs ! i)))" by (rule assms(3))
  with assms(2) show ?thesis unfolding ys by (rule list_all_update)
qed

lemma list_all_delete_first: "list_all Q xs \<Longrightarrow> list_all Q (snd (delete_first P xs))"
  using set_delete_first [of P xs] by (auto simp: list_all_iff)

end
