(* ===== verification/AW_Component.thy ===== *)
theory AW_Component
  imports AW_Prelude
begin

text \<open>
  The base of every component, \<^verbatim>\<open>ComponentModel\<close> in
  \<^verbatim>\<open>src/arcaneweaver/core/entity_system/components.py\<close>, as far as the four data
  components depend on it: the two enumerations with the values of their members, the
  record that every component record extends (the declared field \<^verbatim>\<open>component_type\<close>),
  and the errors that construction, assignment and the collection operations raise.
\<close>

section \<open>Enumerations\<close>

datatype FieldType = NUMBER | TEXT | CHECKBOX | LIST | OBJECT | SELECT | TEXTAREA

datatype ComponentType = STAT | INVENTORY | CUSTOM

text \<open>The \<^verbatim>\<open>value\<close> of a member, the string it is declared with.\<close>

fun FieldType_value :: "FieldType \<Rightarrow> string" where
  "FieldType_value NUMBER = ''number''"
| "FieldType_value TEXT = ''text''"
| "FieldType_value CHECKBOX = ''checkbox''"
| "FieldType_value LIST = ''list''"
| "FieldType_value OBJECT = ''object''"
| "FieldType_value SELECT = ''select''"
| "FieldType_value TEXTAREA = ''textarea''"

fun ComponentType_value :: "ComponentType \<Rightarrow> string" where
  "ComponentType_value STAT = ''stat''"
| "ComponentType_value INVENTORY = ''inventory''"
| "ComponentType_value CUSTOM = ''custom''"

section \<open>The base record\<close>

record ComponentModel =
  component_type :: ComponentType

section \<open>Errors\<close>

text \<open>
  Every exception of the source is a value. \<open>ConstraintViolation f\<close> is the
  \<^verbatim>\<open>ValidationError\<close> that a declared bound on field \<open>f\<close> raises (\<^verbatim>\<open>ge=0\<close>,
  \<^verbatim>\<open>ge=1\<close>); \<open>QuantityWithoutItem\<close> is the \<^verbatim>\<open>ValueError\<close> of the cell's model
  validator; \<open>StatExists n\<close> and \<open>MaxStatsReached m\<close> are the two \<^verbatim>\<open>ValueError\<close>s of
  \<^verbatim>\<open>StatsComponent.add_stat\<close>; \<open>MissingField f\<close> and \<open>WrongType f\<close> are the
  \<^verbatim>\<open>ValidationError\<close> of a component built from a record that lacks the required field \<open>f\<close>
  or gives it a value of another type.
\<close>

datatype error =
    ConstraintViolation string
  | QuantityWithoutItem
  | StatExists string
  | MaxStatsReached int
  | MissingField string
  | WrongType string

type_synonym 'a result = "error + 'a"

text \<open>A declared lower bound \<^verbatim>\<open>Field(..., ge=b)\<close> on an integer field named \<open>f\<close>.\<close>

definition check_ge :: "string \<Rightarrow> int \<Rightarrow> int \<Rightarrow> int result" where
  "check_ge f b v = (if b \<le> v then Inr v else Inl (ConstraintViolation f))"

text \<open>
  An exception leaves the enclosing call at once: the rest of a sequence of statements runs
  only on the value of a statement that returned.
\<close>

definition bind_result :: "'a result \<Rightarrow> ('a \<Rightarrow> 'b result) \<Rightarrow> 'b result" where
  "bind_result r f = (case r of Inl e \<Rightarrow> Inl e | Inr v \<Rightarrow> f v)"

lemma inj_FieldType_value: "inj FieldType_value"
  by (rule injI) (case_tac x; case_tac y; simp)

lemma inj_ComponentType_value: "inj ComponentType_value"
  by (rule injI) (case_tac x; case_tac y; simp)

lemma bind_result_simps [simp]:
  "bind_result (Inl e) f = Inl e" "bind_result (Inr v) f = f v"
  by (simp_all add: bind_result_def)

lemma bind_result_Inr_iff:
  "bind_result r f = Inr y \<longleftrightarrow> (\<exists>v. r = Inr v \<and> f v = Inr y)"
  by (cases r) simp_all

lemma bind_result_Inl_iff:
  "bind_result r f = Inl e \<longleftrightarrow> r = Inl e \<or> (\<exists>v. r = Inr v \<and> f v = Inl e)"
  by (cases r) simp_all

lemma check_ge_simps [simp]:
  "b \<le> v \<Longrightarrow> check_ge f b v = Inr v"
  "v < b \<Longrightarrow> check_ge f b v = Inl (ConstraintViolation f)"
  by (simp_all add: check_ge_def)

lemma check_ge_Inr_iff [simp]: "check_ge f b v = Inr w \<longleftrightarrow> b \<le> v \<and> w = v"
  by (auto simp: check_ge_def)

lemma check_ge_Inl_iff [simp]: "check_ge f b v = Inl e \<longleftrightarrow> v < b \<and> e = ConstraintViolation f"
  by (auto simp: check_ge_def)

end
