(* ===== verification/AW_Stat.thy ===== *)
theory AW_Stat
  imports AW_Component
begin

text \<open>
  \<^verbatim>\<open>StatComponent\<close>: one numeric statistic with a base value, a current value and two
  optional bounds.

  The value type is a type variable. The source declares the four numeric fields as
  \<^verbatim>\<open>float\<close> and uses only comparison and addition on them, so the operations are defined
  for every type of class \<open>ord\<close> with \<open>plus\<close> (and \<open>zero\<close> for the declared defaults);
  the theorems that need the laws of a linear order say so in their type, and the
  witnesses instantiate the variable with \<open>real\<close>.

  A field validator receives the fields validated before it as \<^verbatim>\<open>validation_info.data\<close>.
  The model passes the two entries that the validators read, \<^verbatim>\<open>data.get("min_value")\<close>
  and \<^verbatim>\<open>data.get("max_value")\<close>, as arguments. On assignment
  (\<^verbatim>\<open>validate_assignment=True\<close>) they are the bounds of the object. During construction
  the fields are validated in declaration order, \<^verbatim>\<open>base_value\<close> and \<^verbatim>\<open>current_value\<close> before
  \<^verbatim>\<open>min_value\<close> and \<^verbatim>\<open>max_value\<close>, so both entries are still absent and the validators
  return their argument.
\<close>

section \<open>State\<close>

record 'a StatComponent = ComponentModel +
  name :: string
  base_value :: 'a
  current_value :: 'a
  min_value :: "'a option"
  max_value :: "'a option"
  description :: string

section \<open>Validators\<close>

text \<open>The guards \<^verbatim>\<open>min_val is not None and v < min_val\<close> and \<^verbatim>\<open>max_val is not None and v > max_val\<close>.\<close>

definition below_min :: "'a::ord \<Rightarrow> 'a option \<Rightarrow> bool" where
  "below_min v min_val = (case min_val of None \<Rightarrow> False | Some lo \<Rightarrow> v < lo)"

definition above_max :: "'a::ord \<Rightarrow> 'a option \<Rightarrow> bool" where
  "above_max v max_val = (case max_val of None \<Rightarrow> False | Some hi \<Rightarrow> v > hi)"

definition validate_current_value :: "'a::ord \<Rightarrow> 'a option \<Rightarrow> 'a option \<Rightarrow> 'a" where
  "validate_current_value cv min_val max_val =
     (if below_min cv min_val then the min_val
      else if above_max cv max_val then the max_val
      else cv)"

definition validate_base_value :: "'a::ord \<Rightarrow> 'a option \<Rightarrow> 'a option \<Rightarrow> 'a" where
  "validate_base_value bv min_val max_val =
     (if below_min bv min_val then the min_val
      else if above_max bv max_val then the max_val
      else bv)"

section \<open>Construction and assignment\<close>

text \<open>
  \<^verbatim>\<open>StatComponent(name=n, base_value=.., current_value=.., min_value=.., max_value=..,
  description=..)\<close>. An absent keyword is \<open>None\<close>. \<^verbatim>\<open>__init__\<close> copies a given base value
  into an absent current value; an absent numeric field takes its declared default \<open>0\<close>
  without validation; a given one passes its validator with no bound in scope.
\<close>

definition StatComponent_init ::
  "string \<Rightarrow> 'a option \<Rightarrow> 'a option \<Rightarrow> 'a option \<Rightarrow> 'a option \<Rightarrow> string
     \<Rightarrow> ('a::{ord,zero}) StatComponent" where
  "StatComponent_init n base cur min_val max_val desc =
     (let cur' = (if cur = None \<and> base \<noteq> None then base else cur);
          bv = (case base of None \<Rightarrow> 0 | Some b \<Rightarrow> validate_base_value b None None);
          cv = (case cur' of None \<Rightarrow> 0 | Some c \<Rightarrow> validate_current_value c None None)
      in \<lparr>component_type = STAT, name = n, base_value = bv, current_value = cv,
          min_value = min_val, max_value = max_val, description = desc\<rparr>)"

text \<open>\<^verbatim>\<open>self.current_value = v\<close> and \<^verbatim>\<open>self.base_value = v\<close>: the validator runs with the object's bounds.\<close>

definition assign_current_value :: "'a::ord \<Rightarrow> 'a StatComponent \<Rightarrow> 'a StatComponent" where
  "assign_current_value v s =
     s\<lparr>current_value := validate_current_value v (min_value s) (max_value s)\<rparr>"

definition assign_base_value :: "'a::ord \<Rightarrow> 'a StatComponent \<Rightarrow> 'a StatComponent" where
  "assign_base_value v s =
     s\<lparr>base_value := validate_base_value v (min_value s) (max_value s)\<rparr>"

text \<open>The bounds have no validator: an assignment stores the value and revalidates nothing.\<close>

definition assign_min_value :: "'a option \<Rightarrow> 'a StatComponent \<Rightarrow> 'a StatComponent" where
  "assign_min_value b s = s\<lparr>min_value := b\<rparr>"

definition assign_max_value :: "'a option \<Rightarrow> 'a StatComponent \<Rightarrow> 'a StatComponent" where
  "assign_max_value b s = s\<lparr>max_value := b\<rparr>"

section \<open>Operations\<close>

text \<open>Each operation returns its result and the object after the call.\<close>

definition modify_value :: "'a::{ord,plus} \<Rightarrow> 'a StatComponent \<Rightarrow> 'a \<times> 'a StatComponent" where
  "modify_value modifier s =
     (let new_value = current_value s + modifier;
          new_value = (if below_min new_value (min_value s) then the (min_value s) else new_value);
          new_value = (if above_max new_value (max_value s) then the (max_value s) else new_value);
          s' = assign_current_value new_value s
      in (current_value s', s'))"

definition reset_to_base :: "('a::ord) StatComponent \<Rightarrow> 'a StatComponent" where
  "reset_to_base s = assign_current_value (base_value s) s"

definition set_base_value :: "'a::ord \<Rightarrow> 'a StatComponent \<Rightarrow> 'a \<times> 'a StatComponent" where
  "set_base_value new_value s =
     (let new_value = (if below_min new_value (min_value s) then the (min_value s) else new_value);
          new_value = (if above_max new_value (max_value s) then the (max_value s) else new_value);
          s' = assign_base_value new_value s;
          s'' = assign_current_value new_value s'
      in (base_value s'', s''))"

section \<open>Operation sequences\<close>

text \<open>
  The calls a client can make on a stat, as a datatype, and the run of a list of calls.
  \<open>AssignCurrent\<close> and \<open>AssignBase\<close> are the direct assignments that
  \<^verbatim>\<open>StatsComponent.set_stat_current_value\<close> and the tests perform.
\<close>

datatype 'a stat_op =
    Modify 'a
  | Reset
  | SetBase 'a
  | AssignCurrent 'a
  | AssignBase 'a

fun stat_step :: "('a::{ord,plus}) StatComponent \<Rightarrow> 'a stat_op \<Rightarrow> 'a StatComponent" where
  "stat_step s (Modify m) = snd (modify_value m s)"
| "stat_step s Reset = reset_to_base s"
| "stat_step s (SetBase v) = snd (set_base_value v s)"
| "stat_step s (AssignCurrent v) = assign_current_value v s"
| "stat_step s (AssignBase v) = assign_base_value v s"

fun stat_run :: "('a::{ord,plus}) StatComponent \<Rightarrow> 'a stat_op list \<Rightarrow> 'a StatComponent" where
  "stat_run s [] = s"
| "stat_run s (x # xs) = stat_run (stat_step s x) xs"

section \<open>Specification\<close>

text \<open>
  What the component promises (spec sections 3 and 4.1): a value within the bounds, and
  operations that clamp. \<open>clamp_to\<close> is the reference clamp, \<open>in_bounds\<close> the bound
  check, \<open>stat_inv\<close> the invariant, \<open>bounds_ok\<close> the condition that the two bounds, when
  both are set, are in order; nothing in the source enforces it.
\<close>

definition clamp_to :: "'a::linorder option \<Rightarrow> 'a option \<Rightarrow> 'a \<Rightarrow> 'a" where
  "clamp_to min_val max_val v =
     (let v = (case min_val of None \<Rightarrow> v | Some lo \<Rightarrow> max lo v)
      in (case max_val of None \<Rightarrow> v | Some hi \<Rightarrow> min hi v))"

definition in_bounds :: "'a::ord \<Rightarrow> 'a option \<Rightarrow> 'a option \<Rightarrow> bool" where
  "in_bounds v min_val max_val \<longleftrightarrow> \<not> below_min v min_val \<and> \<not> above_max v max_val"

definition bounds_ok :: "'a::ord option \<Rightarrow> 'a option \<Rightarrow> bool" where
  "bounds_ok min_val max_val =
     (case min_val of None \<Rightarrow> True
      | Some lo \<Rightarrow> (case max_val of None \<Rightarrow> True | Some hi \<Rightarrow> lo \<le> hi))"

definition stat_inv :: "('a::ord) StatComponent \<Rightarrow> bool" where
  "stat_inv s \<longleftrightarrow>
     in_bounds (base_value s) (min_value s) (max_value s) \<and>
     in_bounds (current_value s) (min_value s) (max_value s)"

lemmas stat_guard_defs = below_min_def above_max_def in_bounds_def bounds_ok_def

lemmas stat_op_defs [aw_defs] =
  validate_current_value_def validate_base_value_def StatComponent_init_def
  assign_current_value_def assign_base_value_def assign_min_value_def assign_max_value_def
  modify_value_def reset_to_base_def set_base_value_def
  stat_guard_defs clamp_to_def stat_inv_def

section \<open>The guards\<close>

lemma below_min_simps [simp]:
  "below_min v None = False" "below_min v (Some lo) \<longleftrightarrow> v < lo"
  by (simp_all add: below_min_def)

lemma above_max_simps [simp]:
  "above_max v None = False" "above_max v (Some hi) \<longleftrightarrow> hi < v"
  by (simp_all add: above_max_def)

lemma bounds_ok_simps [simp]:
  "bounds_ok None hi' = True" "bounds_ok lo' None = True"
  "bounds_ok (Some lo) (Some hi) \<longleftrightarrow> lo \<le> hi"
  by (simp_all add: bounds_ok_def split: option.splits)

lemma in_bounds_iff:
  fixes v :: "'a::linorder"
  shows "in_bounds v min_val max_val \<longleftrightarrow>
    (\<forall>lo. min_val = Some lo \<longrightarrow> lo \<le> v) \<and> (\<forall>hi. max_val = Some hi \<longrightarrow> v \<le> hi)"
  by (cases min_val; cases max_val) (auto simp: in_bounds_def)

section \<open>The validators\<close>

lemma validate_base_value_eq: "validate_base_value = validate_current_value"
  by (simp add: fun_eq_iff validate_base_value_def validate_current_value_def)

lemma validate_no_bounds [simp]: "validate_current_value v None None = v"
  by (simp add: validate_current_value_def)

lemma validate_in_bounds_id:
  "in_bounds v min_val max_val \<Longrightarrow> validate_current_value v min_val max_val = v"
  by (simp add: validate_current_value_def in_bounds_def)

lemma validate_eq_clamp:
  fixes v :: "'a::linorder"
  assumes "bounds_ok min_val max_val"
  shows "validate_current_value v min_val max_val = clamp_to min_val max_val v"
  using assms
  by (cases min_val; cases max_val) (auto simp: validate_current_value_def clamp_to_def)

lemma clamp_to_in_bounds:
  fixes v :: "'a::linorder"
  assumes "bounds_ok min_val max_val"
  shows "in_bounds (clamp_to min_val max_val v) min_val max_val"
  using assms
  by (cases min_val; cases max_val) (auto simp: clamp_to_def in_bounds_def min_def max_def)

lemma clamp_to_idem:
  fixes v :: "'a::linorder"
  assumes "bounds_ok min_val max_val"
  shows "clamp_to min_val max_val (clamp_to min_val max_val v) = clamp_to min_val max_val v"
  using assms
  by (cases min_val; cases max_val) (auto simp: clamp_to_def)

lemma clamp_to_id:
  fixes v :: "'a::linorder"
  shows "in_bounds v min_val max_val \<Longrightarrow> clamp_to min_val max_val v = v"
  by (cases min_val; cases max_val) (auto simp: clamp_to_def in_bounds_def)

text \<open>The two clamping statements that \<^verbatim>\<open>modify_value\<close> and \<^verbatim>\<open>set_base_value\<close> run before they assign.\<close>

lemma sequential_clamp:
  fixes v :: "'a::linorder"
  shows "(let w = (if below_min v min_val then the min_val else v)
          in (if above_max w max_val then the max_val else w)) = clamp_to min_val max_val v"
  by (cases min_val; cases max_val) (auto simp: clamp_to_def Let_def)

section \<open>Frame\<close>

lemma assign_current_value_frame [aw_frame, simp]:
  "name (assign_current_value v s) = name s"
  "base_value (assign_current_value v s) = base_value s"
  "min_value (assign_current_value v s) = min_value s"
  "max_value (assign_current_value v s) = max_value s"
  "description (assign_current_value v s) = description s"
  "component_type (assign_current_value v s) = component_type s"
  by (simp_all add: assign_current_value_def)

lemma assign_base_value_frame [aw_frame, simp]:
  "name (assign_base_value v s) = name s"
  "current_value (assign_base_value v s) = current_value s"
  "min_value (assign_base_value v s) = min_value s"
  "max_value (assign_base_value v s) = max_value s"
  "description (assign_base_value v s) = description s"
  "component_type (assign_base_value v s) = component_type s"
  by (simp_all add: assign_base_value_def)

lemma modify_value_frame [aw_frame, simp]:
  "name (snd (modify_value m s)) = name s"
  "base_value (snd (modify_value m s)) = base_value s"
  "min_value (snd (modify_value m s)) = min_value s"
  "max_value (snd (modify_value m s)) = max_value s"
  "description (snd (modify_value m s)) = description s"
  "component_type (snd (modify_value m s)) = component_type s"
  by (simp_all add: modify_value_def Let_def)

lemma reset_to_base_frame [aw_frame, simp]:
  "name (reset_to_base s) = name s"
  "base_value (reset_to_base s) = base_value s"
  "min_value (reset_to_base s) = min_value s"
  "max_value (reset_to_base s) = max_value s"
  "description (reset_to_base s) = description s"
  "component_type (reset_to_base s) = component_type s"
  by (simp_all add: reset_to_base_def)

lemma set_base_value_frame [aw_frame, simp]:
  "name (snd (set_base_value v s)) = name s"
  "min_value (snd (set_base_value v s)) = min_value s"
  "max_value (snd (set_base_value v s)) = max_value s"
  "description (snd (set_base_value v s)) = description s"
  "component_type (snd (set_base_value v s)) = component_type s"
  by (simp_all add: set_base_value_def Let_def)

lemma stat_step_frame [aw_frame, simp]:
  "name (stat_step s x) = name s"
  "min_value (stat_step s x) = min_value s"
  "max_value (stat_step s x) = max_value s"
  "description (stat_step s x) = description s"
  "component_type (stat_step s x) = component_type s"
  by (cases x; simp)+

lemma stat_run_frame [aw_frame, simp]:
  "name (stat_run s xs) = name s"
  "min_value (stat_run s xs) = min_value s"
  "max_value (stat_run s xs) = max_value s"
  "description (stat_run s xs) = description s"
  "component_type (stat_run s xs) = component_type s"
  by (induction xs arbitrary: s; simp)+

lemma stat_step_component_type [aw_frame, simp]:
  "component_type (stat_step s x) = component_type s"
  by (cases x) (simp_all add: stat_op_defs Let_def)

lemma stat_run_component_type [aw_frame, simp]:
  "component_type (stat_run s xs) = component_type s"
  by (induction xs arbitrary: s) simp_all

section \<open>Functional behaviour\<close>

lemma assign_current_value_clamps:
  fixes v :: "'a::linorder"
  assumes "bounds_ok (min_value s) (max_value s)"
  shows "current_value (assign_current_value v s) = clamp_to (min_value s) (max_value s) v"
  using assms by (simp add: assign_current_value_def validate_eq_clamp)

lemma assign_base_value_clamps:
  fixes v :: "'a::linorder"
  assumes "bounds_ok (min_value s) (max_value s)"
  shows "base_value (assign_base_value v s) = clamp_to (min_value s) (max_value s) v"
  using assms by (simp add: assign_base_value_def validate_base_value_eq validate_eq_clamp)

lemma modify_value_current:
  fixes s :: "('a::{linorder,plus}) StatComponent"
  assumes "bounds_ok (min_value s) (max_value s)"
  shows "current_value (snd (modify_value m s)) =
    clamp_to (min_value s) (max_value s) (current_value s + m)"
proof -
  let ?c = "clamp_to (min_value s) (max_value s)"
  have "current_value (snd (modify_value m s)) =
      current_value (assign_current_value (?c (current_value s + m)) s)"
    using sequential_clamp [of "current_value s + m" "min_value s" "max_value s"]
    by (simp add: modify_value_def Let_def)
  also have "\<dots> = ?c (?c (current_value s + m))"
    using assms by (rule assign_current_value_clamps)
  also have "\<dots> = ?c (current_value s + m)"
    using assms by (rule clamp_to_idem)
  finally show ?thesis .
qed

lemma modify_value_returns_current: "fst (modify_value m s) = current_value (snd (modify_value m s))"
  by (simp add: modify_value_def Let_def)

lemma set_base_value_returns_base: "fst (set_base_value v s) = base_value (snd (set_base_value v s))"
  by (simp add: set_base_value_def Let_def)

lemma set_base_value_fields:
  fixes s :: "('a::linorder) StatComponent"
  assumes "bounds_ok (min_value s) (max_value s)"
  shows "base_value (snd (set_base_value v s)) = clamp_to (min_value s) (max_value s) v"
    and "current_value (snd (set_base_value v s)) = clamp_to (min_value s) (max_value s) v"
proof -
  let ?c = "clamp_to (min_value s) (max_value s)"
  have eq: "snd (set_base_value v s) = assign_current_value (?c v) (assign_base_value (?c v) s)"
    using sequential_clamp [of v "min_value s" "max_value s"]
    by (simp add: set_base_value_def Let_def)
  show "base_value (snd (set_base_value v s)) = ?c v"
    using assms by (simp add: eq assign_base_value_clamps clamp_to_idem)
  show "current_value (snd (set_base_value v s)) = ?c v"
    using assms by (simp add: eq assign_current_value_clamps clamp_to_idem)
qed

section \<open>Invariant\<close>

lemma stat_inv_bounds_ok:
  fixes s :: "('a::linorder) StatComponent"
  shows "stat_inv s \<Longrightarrow> bounds_ok (min_value s) (max_value s)"
  by (auto simp: stat_inv_def stat_guard_defs split: option.splits)

lemma stat_inv_assign_current:
  fixes s :: "('a::linorder) StatComponent"
  assumes "bounds_ok (min_value s) (max_value s)"
    and "in_bounds (base_value s) (min_value s) (max_value s)"
  shows "stat_inv (assign_current_value v s)"
  using assms by (simp add: stat_inv_def assign_current_value_clamps clamp_to_in_bounds)

lemma stat_inv_assign_base:
  fixes s :: "('a::linorder) StatComponent"
  assumes "bounds_ok (min_value s) (max_value s)"
    and "in_bounds (current_value s) (min_value s) (max_value s)"
  shows "stat_inv (assign_base_value v s)"
  using assms by (simp add: stat_inv_def assign_base_value_clamps clamp_to_in_bounds)

lemma stat_inv_modify:
  fixes s :: "('a::{linorder,plus}) StatComponent"
  assumes "bounds_ok (min_value s) (max_value s)"
    and "in_bounds (base_value s) (min_value s) (max_value s)"
  shows "stat_inv (snd (modify_value m s))"
  using assms by (simp add: stat_inv_def modify_value_current clamp_to_in_bounds)

lemma stat_inv_set_base:
  fixes s :: "('a::linorder) StatComponent"
  assumes "bounds_ok (min_value s) (max_value s)"
  shows "stat_inv (snd (set_base_value v s))"
  using assms by (simp add: stat_inv_def set_base_value_fields clamp_to_in_bounds)

lemma stat_inv_reset:
  fixes s :: "('a::linorder) StatComponent"
  assumes "bounds_ok (min_value s) (max_value s)"
    and "in_bounds (base_value s) (min_value s) (max_value s)"
  shows "stat_inv (reset_to_base s)"
  using assms unfolding reset_to_base_def by (rule stat_inv_assign_current)

lemma stat_inv_step:
  fixes s :: "('a::{linorder,plus}) StatComponent"
  assumes "bounds_ok (min_value s) (max_value s)" and "stat_inv s"
  shows "stat_inv (stat_step s x)"
  using assms
  by (cases x)
    (simp_all add: stat_inv_modify stat_inv_reset stat_inv_set_base stat_inv_assign_current
      stat_inv_assign_base stat_inv_def [of s])

lemma stat_inv_run:
  fixes s :: "('a::{linorder,plus}) StatComponent"
  assumes "bounds_ok (min_value s) (max_value s)" and "stat_inv s"
  shows "stat_inv (stat_run s xs)"
  using assms
proof (induction xs arbitrary: s)
  case Nil
  then show ?case by simp
next
  case (Cons x xs)
  from Cons.prems have "stat_inv (stat_step s x)" by (rule stat_inv_step)
  moreover from Cons.prems(1) have "bounds_ok (min_value (stat_step s x)) (max_value (stat_step s x))"
    by simp
  ultimately show ?case using Cons.IH by simp
qed

lemma modify_value_eq:
  "modify_value m s =
    (let v = validate_current_value
               (let w = (if below_min (current_value s + m) (min_value s) then the (min_value s)
                         else current_value s + m)
                in (if above_max w (max_value s) then the (max_value s) else w))
               (min_value s) (max_value s)
     in (v, s\<lparr>current_value := v\<rparr>))"
  by (simp add: modify_value_def assign_current_value_def Let_def)

section \<open>Properties\<close>

text \<open>
  C4 (functional). With bounds in order, \<^verbatim>\<open>modify_value\<close> returns the sum of the current
  value and the modifier clamped into the bounds, stores it as the current value and
  changes no other field; in particular the base value is never touched (spec 4.1).
\<close>

theorem modify_value_clamps:
  fixes s :: "('a::{linorder,plus}) StatComponent"
  assumes "bounds_ok (min_value s) (max_value s)"
  shows "modify_value m s =
    (clamp_to (min_value s) (max_value s) (current_value s + m),
     s\<lparr>current_value := clamp_to (min_value s) (max_value s) (current_value s + m)\<rparr>)"
proof -
  let ?c = "clamp_to (min_value s) (max_value s)"
  have "validate_current_value (?c (current_value s + m)) (min_value s) (max_value s)
      = ?c (current_value s + m)"
    using assms by (simp add: validate_eq_clamp clamp_to_idem)
  then show ?thesis
    using sequential_clamp [of "current_value s + m" "min_value s" "max_value s"]
    by (simp add: modify_value_eq Let_def)
qed

theorem modify_value_clamps_witness:
  "modify_value (- 50)
     \<lparr>component_type = STAT, name = ''hp'', base_value = 10, current_value = 10,
      min_value = Some 0, max_value = Some 100, description = ''''\<rparr>
   = (0 :: real,
      \<lparr>component_type = STAT, name = ''hp'', base_value = 10, current_value = 0,
       min_value = Some 0, max_value = Some 100, description = ''''\<rparr>)"
  using modify_value_clamps [of
      "\<lparr>component_type = STAT, name = ''hp'', base_value = 10 :: real, current_value = 10,
        min_value = Some 0, max_value = Some 100, description = ''''\<rparr>" "- 50"]
  by (simp add: clamp_to_def)

text \<open>
  C5 (invariant). A stat whose bounds are in order and whose base and current value lie
  within them stays so under every sequence of \<^verbatim>\<open>modify_value\<close>, \<^verbatim>\<open>reset_to_base\<close>,
  \<^verbatim>\<open>set_base_value\<close> and validated assignments (spec 3 and 8).
\<close>

theorem stat_run_keeps_bounds:
  fixes s :: "('a::{linorder,plus}) StatComponent"
  assumes "bounds_ok (min_value s) (max_value s)" and "stat_inv s"
  shows "stat_inv (stat_run s xs) \<and>
    in_bounds (current_value (stat_run s xs)) (min_value s) (max_value s) \<and>
    in_bounds (base_value (stat_run s xs)) (min_value s) (max_value s)"
proof -
  from assms have "stat_inv (stat_run s xs)" by (rule stat_inv_run)
  then show ?thesis by (simp add: stat_inv_def)
qed

theorem stat_run_keeps_bounds_witness:
  "stat_inv (stat_run
     \<lparr>component_type = STAT, name = ''mana'', base_value = 50 :: real, current_value = 10,
      min_value = Some 0, max_value = Some 100, description = ''''\<rparr>
     [Modify (- 50), AssignBase 150, Reset, SetBase (- 3), Modify 500, AssignCurrent 7])"
  using stat_run_keeps_bounds [of
      "\<lparr>component_type = STAT, name = ''mana'', base_value = 50 :: real, current_value = 10,
        min_value = Some 0, max_value = Some 100, description = ''''\<rparr>"
      "[Modify (- 50), AssignBase 150, Reset, SetBase (- 3), Modify 500, AssignCurrent 7]"]
  by (simp add: stat_inv_def in_bounds_def)

text \<open>
  With bounds in order, \<^verbatim>\<open>set_base_value\<close> returns its argument clamped
  into the bounds and stores it as base and as current value, whatever the two values
  were before; the invariant holds afterwards (spec 4.1).
\<close>

theorem set_base_value_clamps:
  fixes s :: "('a::linorder) StatComponent"
  assumes "bounds_ok (min_value s) (max_value s)"
  shows "set_base_value v s =
    (clamp_to (min_value s) (max_value s) v,
     s\<lparr>base_value := clamp_to (min_value s) (max_value s) v,
       current_value := clamp_to (min_value s) (max_value s) v\<rparr>)
    \<and> stat_inv (snd (set_base_value v s))"
proof -
  let ?c = "clamp_to (min_value s) (max_value s)"
  have v: "validate_current_value (?c v) (min_value s) (max_value s) = ?c v"
    using assms by (simp add: validate_eq_clamp clamp_to_idem)
  have "set_base_value v s = (?c v, s\<lparr>base_value := ?c v, current_value := ?c v\<rparr>)"
    using sequential_clamp [of v "min_value s" "max_value s"] v
    by (simp add: set_base_value_def assign_base_value_def assign_current_value_def
        validate_base_value_eq Let_def)
  moreover from assms have "stat_inv (snd (set_base_value v s))" by (rule stat_inv_set_base)
  ultimately show ?thesis by simp
qed

theorem set_base_value_clamps_witness:
  "fst (set_base_value 150
     \<lparr>component_type = STAT, name = ''mana'', base_value = 50 :: real, current_value = 50,
      min_value = Some 0, max_value = Some 100, description = ''''\<rparr>) = 100"
  using set_base_value_clamps [of
      "\<lparr>component_type = STAT, name = ''mana'', base_value = 50 :: real, current_value = 50,
        min_value = Some 0, max_value = Some 100, description = ''''\<rparr>" 150]
  by (simp add: clamp_to_def)

text \<open>
  C37 (functional). \<^verbatim>\<open>reset_to_base\<close> is idempotent, and for a base value within the
  bounds it makes the current value equal to the base value (spec 4.1 and 8). The
  assignment inside it is validated, so a base value outside the bounds is not copied
  but clamped.
\<close>

theorem reset_to_base_idempotent:
  fixes s :: "('a::linorder) StatComponent"
  shows "reset_to_base (reset_to_base s) = reset_to_base s \<and>
    (in_bounds (base_value s) (min_value s) (max_value s) \<longrightarrow>
       current_value (reset_to_base s) = base_value s)"
  by (simp add: reset_to_base_def assign_current_value_def validate_in_bounds_id)

theorem reset_to_base_idempotent_witness:
  "current_value (reset_to_base
     \<lparr>component_type = STAT, name = ''str'', base_value = 10 :: real, current_value = 15,
      min_value = None, max_value = Some 20, description = ''''\<rparr>) = 10"
  using reset_to_base_idempotent [of
      "\<lparr>component_type = STAT, name = ''str'', base_value = 10 :: real, current_value = 15,
        min_value = None, max_value = Some 20, description = ''''\<rparr>"]
  by (simp add: in_bounds_def)

text \<open>
  Construction stores the given base and current value as they are: the
  validators run before the bounds are known and have nothing to clamp against, so a
  new stat can lie outside its own bounds. The current value defaults to the base value.
\<close>

theorem StatComponent_init_stores_values:
  "base_value (StatComponent_init n (Some b) c lo hi d) = b \<and>
   current_value (StatComponent_init n (Some b) c lo hi d) = (case c of None \<Rightarrow> b | Some v \<Rightarrow> v) \<and>
   min_value (StatComponent_init n (Some b) c lo hi d) = lo \<and>
   max_value (StatComponent_init n (Some b) c lo hi d) = hi"
  by (cases c) (simp_all add: StatComponent_init_def validate_base_value_eq)

text \<open>
  The invariant of spec section 3 does not hold after every construction:
  a stat built with base value 150 and bounds 0 and 100 has base and current value 150.
\<close>

theorem StatComponent_init_out_of_bounds:
  "\<not> stat_inv (StatComponent_init ''hp'' (Some (150 :: real)) None (Some 0) (Some 100) '''')"
  by (simp add: StatComponent_init_def stat_inv_def in_bounds_def)

text \<open>
  Nothing orders the two bounds. When the maximum lies below the minimum,
  every \<^verbatim>\<open>modify_value\<close> and every \<^verbatim>\<open>set_base_value\<close> ends at the minimum, above the
  maximum: the early return of the validator and the two sequential tests of the
  operations disagree, and the validator has the last word.
\<close>

theorem inverted_bounds_pin_to_min:
  fixes s :: "('a::{linorder,plus}) StatComponent"
  assumes "min_value s = Some lo" and "max_value s = Some hi" and "hi < lo"
  shows "fst (modify_value m s) = lo \<and> fst (set_base_value v s) = lo"
  using assms
  by (auto simp: modify_value_eq set_base_value_def assign_base_value_def
      assign_current_value_def validate_current_value_def validate_base_value_def Let_def)

theorem inverted_bounds_pin_to_min_witness:
  "fst (modify_value 1
     \<lparr>component_type = STAT, name = ''x'', base_value = 0 :: real, current_value = 0,
      min_value = Some 10, max_value = Some 5, description = ''''\<rparr>) = 10"
  using inverted_bounds_pin_to_min [of
      "\<lparr>component_type = STAT, name = ''x'', base_value = 0 :: real, current_value = 0,
        min_value = Some 10, max_value = Some 5, description = ''''\<rparr>" 10 5 1 0]
  by simp

text \<open>
  The bounds themselves are assigned without validation: raising the minimum
  of a stat that satisfies the invariant leaves base and current value below it.
\<close>

theorem assign_min_value_breaks_inv:
  "stat_inv \<lparr>component_type = STAT, name = ''hp'', base_value = 10 :: real, current_value = 10,
      min_value = Some 0, max_value = Some 100, description = ''''\<rparr> \<and>
   \<not> stat_inv (assign_min_value (Some 50)
      \<lparr>component_type = STAT, name = ''hp'', base_value = 10 :: real, current_value = 10,
       min_value = Some 0, max_value = Some 100, description = ''''\<rparr>)"
  by (simp add: stat_inv_def in_bounds_def assign_min_value_def)

end
