(* ===== verification/AW_Stats.thy ===== *)
theory AW_Stats
  imports AW_Stat
begin

text \<open>
  \<^verbatim>\<open>StatsComponent\<close>: an ordered list of stats with an optional capacity, looked up by name.

  The list holds the stat objects themselves. \<^verbatim>\<open>get_stat\<close> hands out the object it found,
  and the four delegating methods call a method of that object, so the call changes the
  entry of the list in its place: that is \<open>update_first\<close>. \<^verbatim>\<open>add_stat\<close> and \<^verbatim>\<open>remove_stat\<close>
  change the list in place and run no validator; only construction and an assignment to a
  field run \<^verbatim>\<open>validate_stats_count\<close>. Every operation returns its result and the collection
  after the call; \<^verbatim>\<open>add_stat\<close> returns the collection also when it raises, because the
  removal of the stat to replace comes before the capacity check.
\<close>

section \<open>State\<close>

record 'a StatsComponent = ComponentModel +
  stats :: "'a StatComponent list"
  max_stats :: "int option"

text \<open>The test \<^verbatim>\<open>stat.name == name\<close> of every scan.\<close>

definition named :: "string \<Rightarrow> 'a StatComponent \<Rightarrow> bool" where
  "named n s \<longleftrightarrow> name s = n"

section \<open>Validator, construction and assignment\<close>

definition validate_stats_count :: "'a StatsComponent \<Rightarrow> 'a StatsComponent" where
  "validate_stats_count sc =
     (if max_stats sc \<noteq> None \<and> int (length (stats sc)) > the (max_stats sc)
      then sc\<lparr>stats := py_slice_to (the (max_stats sc)) (stats sc)\<rparr>
      else sc)"

definition StatsComponent_init :: "'a StatComponent list \<Rightarrow> int option \<Rightarrow> 'a StatsComponent result" where
  "StatsComponent_init ss ms =
     bind_result
       (case ms of None \<Rightarrow> Inr None
        | Some m \<Rightarrow> bind_result (check_ge ''max_stats'' 1 m) (\<lambda>m. Inr (Some m)))
       (\<lambda>ms'. Inr (validate_stats_count \<lparr>component_type = STAT, stats = ss, max_stats = ms'\<rparr>))"

definition assign_stats :: "'a StatComponent list \<Rightarrow> 'a StatsComponent \<Rightarrow> 'a StatsComponent" where
  "assign_stats ss sc = validate_stats_count (sc\<lparr>stats := ss\<rparr>)"

definition assign_max_stats :: "int option \<Rightarrow> 'a StatsComponent \<Rightarrow> 'a StatsComponent result" where
  "assign_max_stats ms sc =
     bind_result
       (case ms of None \<Rightarrow> Inr None
        | Some m \<Rightarrow> bind_result (check_ge ''max_stats'' 1 m) (\<lambda>m. Inr (Some m)))
       (\<lambda>ms'. Inr (validate_stats_count (sc\<lparr>max_stats := ms'\<rparr>)))"

section \<open>Lookup\<close>

definition get_stat :: "string \<Rightarrow> 'a StatsComponent \<Rightarrow> 'a StatComponent option" where
  "get_stat n sc = find (named n) (stats sc)"

definition has_stat :: "string \<Rightarrow> 'a StatsComponent \<Rightarrow> bool" where
  "has_stat n sc \<longleftrightarrow> get_stat n sc \<noteq> None"

definition get_stat_names :: "'a StatsComponent \<Rightarrow> string list" where
  "get_stat_names sc = map name (stats sc)"

definition get_all_stats :: "'a StatsComponent \<Rightarrow> 'a StatComponent list" where
  "get_all_stats sc = stats sc"

section \<open>Adding and removing\<close>

definition remove_stat :: "string \<Rightarrow> 'a StatsComponent \<Rightarrow> bool \<times> 'a StatsComponent" where
  "remove_stat n sc =
     (case delete_first (named n) (stats sc) of (found, ss) \<Rightarrow> (found, sc\<lparr>stats := ss\<rparr>))"

text \<open>
  \<^verbatim>\<open>add_stat\<close> from the capacity check on: the check, the construction of the stat and the
  append.
\<close>

definition append_stat ::
  "string \<Rightarrow> 'a \<Rightarrow> 'a option \<Rightarrow> 'a option \<Rightarrow> 'a option \<Rightarrow> string
     \<Rightarrow> ('a::{ord,zero}) StatsComponent \<Rightarrow> 'a StatComponent result \<times> 'a StatsComponent" where
  "append_stat n base cur min_val max_val desc sc =
     (if max_stats sc \<noteq> None \<and> int (length (stats sc)) \<ge> the (max_stats sc)
      then (Inl (MaxStatsReached (the (max_stats sc))), sc)
      else
        (let new_stat = StatComponent_init n (Some base) cur min_val max_val desc
         in (Inr new_stat, sc\<lparr>stats := stats sc @ [new_stat]\<rparr>)))"

definition add_stat ::
  "string \<Rightarrow> 'a \<Rightarrow> 'a option \<Rightarrow> 'a option \<Rightarrow> 'a option \<Rightarrow> string \<Rightarrow> bool
     \<Rightarrow> ('a::{ord,zero}) StatsComponent \<Rightarrow> 'a StatComponent result \<times> 'a StatsComponent" where
  "add_stat n base cur min_val max_val desc replace_if_exists sc =
     (let existing_stat = get_stat n sc
      in if existing_stat \<noteq> None then
           (if replace_if_exists
            then append_stat n base cur min_val max_val desc (snd (remove_stat n sc))
            else (Inl (StatExists n), sc))
         else append_stat n base cur min_val max_val desc sc)"

definition clear_all_stats :: "'a StatsComponent \<Rightarrow> int \<times> 'a StatsComponent" where
  "clear_all_stats sc = (int (length (stats sc)), sc\<lparr>stats := []\<rparr>)"

section \<open>Delegation to the named stat\<close>

definition modify_stat ::
  "string \<Rightarrow> 'a \<Rightarrow> ('a::{ord,plus}) StatsComponent \<Rightarrow> 'a option \<times> 'a StatsComponent" where
  "modify_stat n modifier sc =
     (case update_first (named n) (modify_value modifier) (stats sc) of
        None \<Rightarrow> (None, sc)
      | Some (r, ss) \<Rightarrow> (Some r, sc\<lparr>stats := ss\<rparr>))"

definition set_stat_base_value ::
  "string \<Rightarrow> 'a \<Rightarrow> ('a::ord) StatsComponent \<Rightarrow> 'a option \<times> 'a StatsComponent" where
  "set_stat_base_value n new_value sc =
     (case update_first (named n) (set_base_value new_value) (stats sc) of
        None \<Rightarrow> (None, sc)
      | Some (r, ss) \<Rightarrow> (Some r, sc\<lparr>stats := ss\<rparr>))"

definition set_stat_current_value ::
  "string \<Rightarrow> 'a \<Rightarrow> ('a::ord) StatsComponent \<Rightarrow> 'a option \<times> 'a StatsComponent" where
  "set_stat_current_value n new_value sc =
     (case update_first (named n)
             (\<lambda>s. let s' = assign_current_value new_value s in (current_value s', s'))
             (stats sc) of
        None \<Rightarrow> (None, sc)
      | Some (r, ss) \<Rightarrow> (Some r, sc\<lparr>stats := ss\<rparr>))"

definition reset_stat_to_base :: "string \<Rightarrow> ('a::ord) StatsComponent \<Rightarrow> bool \<times> 'a StatsComponent" where
  "reset_stat_to_base n sc =
     (case update_first (named n) (\<lambda>s. ((), reset_to_base s)) (stats sc) of
        None \<Rightarrow> (False, sc)
      | Some (r, ss) \<Rightarrow> (True, sc\<lparr>stats := ss\<rparr>))"

definition reset_all_to_base :: "('a::ord) StatsComponent \<Rightarrow> 'a StatsComponent" where
  "reset_all_to_base sc = sc\<lparr>stats := map reset_to_base (stats sc)\<rparr>"

section \<open>Operation sequences\<close>

text \<open>The mutating methods as a datatype of calls, and the collection after a list of calls.\<close>

datatype 'a stats_op =
    AddStat string 'a "'a option" "'a option" "'a option" string bool
  | RemoveStat string
  | ModifyStat string 'a
  | SetStatBase string 'a
  | SetStatCurrent string 'a
  | ResetStat string
  | ResetAll
  | ClearAllStats

fun stats_step :: "('a::{ord,plus,zero}) StatsComponent \<Rightarrow> 'a stats_op \<Rightarrow> 'a StatsComponent" where
  "stats_step sc (AddStat n b c lo hi d r) = snd (add_stat n b c lo hi d r sc)"
| "stats_step sc (RemoveStat n) = snd (remove_stat n sc)"
| "stats_step sc (ModifyStat n m) = snd (modify_stat n m sc)"
| "stats_step sc (SetStatBase n v) = snd (set_stat_base_value n v sc)"
| "stats_step sc (SetStatCurrent n v) = snd (set_stat_current_value n v sc)"
| "stats_step sc (ResetStat n) = snd (reset_stat_to_base n sc)"
| "stats_step sc ResetAll = reset_all_to_base sc"
| "stats_step sc ClearAllStats = snd (clear_all_stats sc)"

fun stats_run :: "('a::{ord,plus,zero}) StatsComponent \<Rightarrow> 'a stats_op list \<Rightarrow> 'a StatsComponent" where
  "stats_run sc [] = sc"
| "stats_run sc (x # xs) = stats_run (stats_step sc x) xs"

section \<open>Specification\<close>

text \<open>
  The invariant of spec section 3: the names are unique and the capacity, when there is
  one, is at least one and not exceeded.
\<close>

definition within_capacity :: "'a StatsComponent \<Rightarrow> bool" where
  "within_capacity sc =
     (case max_stats sc of None \<Rightarrow> True | Some m \<Rightarrow> 1 \<le> m \<and> int (length (stats sc)) \<le> m)"

definition stats_inv :: "'a StatsComponent \<Rightarrow> bool" where
  "stats_inv sc \<longleftrightarrow> distinct (map name (stats sc)) \<and> within_capacity sc"

text \<open>
  The bounds of the stats of a collection: every stat has its bounds in order and its two
  values within them. A call of \<^verbatim>\<open>add_stat\<close> keeps that only when the values it is given lie
  within the bounds it is given, because the constructor of a stat does not clamp.
\<close>

definition stats_bounded :: "('a::ord) StatsComponent \<Rightarrow> bool" where
  "stats_bounded sc =
     list_all (\<lambda>s. bounds_ok (min_value s) (max_value s) \<and> stat_inv s) (stats sc)"

fun add_in_bounds :: "('a::ord) stats_op \<Rightarrow> bool" where
  "add_in_bounds (AddStat n b c lo hi d r) =
     (bounds_ok lo hi \<and> in_bounds b lo hi \<and> (case c of None \<Rightarrow> True | Some v \<Rightarrow> in_bounds v lo hi))"
| "add_in_bounds x = True"

text \<open>
  What a call of the collection does to single stats (spec section 4.2): \<open>delegated x\<close> is
  the call that \<open>x\<close> makes on a stat of the collection, \<open>added x\<close> the stat that \<open>x\<close>
  constructs and appends. A property of single stats that both keep holds of every stat
  of the collection after the call (\<open>stats_step_list_all\<close>).
\<close>

fun delegated :: "'a stats_op \<Rightarrow> 'a stat_op option" where
  "delegated (ModifyStat n m) = Some (Modify m)"
| "delegated (SetStatBase n v) = Some (SetBase v)"
| "delegated (SetStatCurrent n v) = Some (AssignCurrent v)"
| "delegated (ResetStat n) = Some Reset"
| "delegated ResetAll = Some Reset"
| "delegated x = None"

fun added :: "('a::{ord,zero}) stats_op \<Rightarrow> 'a StatComponent option" where
  "added (AddStat n b c lo hi d r) = Some (StatComponent_init n (Some b) c lo hi d)"
| "added x = None"

lemmas stats_op_defs [aw_defs] =
  named_def validate_stats_count_def StatsComponent_init_def assign_stats_def assign_max_stats_def
  get_stat_def has_stat_def get_stat_names_def get_all_stats_def remove_stat_def append_stat_def
  add_stat_def clear_all_stats_def modify_stat_def set_stat_base_value_def
  set_stat_current_value_def reset_stat_to_base_def reset_all_to_base_def
  within_capacity_def stats_inv_def update_first_def delete_first_def

section \<open>Lookup\<close>

lemma get_stat_None_iff: "get_stat n sc = None \<longleftrightarrow> n \<notin> set (get_stat_names sc)"
  by (auto simp: get_stat_def get_stat_names_def find_None_iff named_def)

lemma has_stat_iff: "has_stat n sc \<longleftrightarrow> n \<in> set (get_stat_names sc)"
  by (simp add: has_stat_def get_stat_None_iff)

lemma get_stat_SomeD:
  assumes "get_stat n sc = Some s"
  shows "s \<in> set (stats sc)" and "name s = n"
  using assms by (auto simp: get_stat_def find_Some_iff named_def)

lemma get_stat_append:
  "get_stat n (sc\<lparr>stats := stats sc @ [s]\<rparr>) =
     (case get_stat n sc of None \<Rightarrow> (if name s = n then Some s else None) | Some x \<Rightarrow> Some x)"
  by (auto simp: get_stat_def find_append named_def split: option.splits)

section \<open>Removing\<close>

lemma remove_stat_eq:
  "remove_stat n sc = (has_stat n sc, sc\<lparr>stats := snd (delete_first (named n) (stats sc))\<rparr>)"
  using delete_first_found [of "named n" "stats sc"]
  by (auto simp: remove_stat_def has_stat_iff get_stat_names_def named_def split: prod.splits)

lemma remove_stat_missing:
  assumes "\<not> has_stat n sc"
  shows "remove_stat n sc = (False, sc)"
proof -
  from assms have "\<forall>x \<in> set (stats sc). \<not> named n x"
    by (auto simp: has_stat_iff get_stat_names_def named_def)
  then have "first_index (named n) (stats sc) = None" by (simp add: first_index_None_iff)
  then show ?thesis by (simp add: remove_stat_def delete_first_def)
qed

lemma remove_stat_frame [aw_frame, simp]:
  "max_stats (snd (remove_stat n sc)) = max_stats sc"
  "component_type (snd (remove_stat n sc)) = component_type sc"
  by (simp_all add: remove_stat_eq)

lemma remove_stat_length:
  "length (stats (snd (remove_stat n sc))) =
     (if has_stat n sc then length (stats sc) - 1 else length (stats sc))"
  using length_delete_first [of "named n" "stats sc"] delete_first_found [of "named n" "stats sc"]
  by (auto simp: remove_stat_eq has_stat_iff get_stat_names_def named_def)

lemma remove_stat_inv:
  assumes "stats_inv sc"
  shows "stats_inv (snd (remove_stat n sc))"
  using assms remove_stat_length [of n sc]
  by (auto simp: stats_inv_def within_capacity_def remove_stat_eq distinct_map_delete_first
      split: option.splits if_splits)

lemma remove_stat_gone:
  assumes "distinct (get_stat_names sc)"
  shows "\<not> has_stat n (snd (remove_stat n sc))"
  using delete_first_removes [of name "stats sc" "named n" n] assms
  by (auto simp: has_stat_iff remove_stat_eq get_stat_names_def named_def)

lemma remove_stat_other:
  assumes "n' \<noteq> n"
  shows "get_stat n' (snd (remove_stat n sc)) = get_stat n' sc"
proof -
  have "find (named n') (snd (delete_first (named n) (stats sc))) = find (named n') (stats sc)"
    by (rule find_delete_first_other) (use assms in \<open>simp add: named_def\<close>)
  then show ?thesis by (simp add: remove_stat_eq get_stat_def)
qed

lemma remove_stat_filter:
  assumes "distinct (get_stat_names sc)"
  shows "stats (snd (remove_stat n sc)) = filter (\<lambda>s. name s \<noteq> n) (stats sc)"
  using assms
  by (simp add: remove_stat_eq get_stat_names_def delete_first_filter [of name _ "named n" n]
      named_def)

section \<open>Adding\<close>

lemma append_stat_full:
  "max_stats sc = Some m \<Longrightarrow> m \<le> int (length (stats sc)) \<Longrightarrow>
     append_stat n b c lo hi d sc = (Inl (MaxStatsReached m), sc)"
  by (simp add: append_stat_def)

lemma append_stat_room:
  assumes "case max_stats sc of None \<Rightarrow> True | Some m \<Rightarrow> int (length (stats sc)) < m"
  shows "append_stat n b c lo hi d sc =
    (Inr (StatComponent_init n (Some b) c lo hi d),
     sc\<lparr>stats := stats sc @ [StatComponent_init n (Some b) c lo hi d]\<rparr>)"
  using assms by (cases "max_stats sc") (simp_all add: append_stat_def Let_def)

lemma name_StatComponent_init [simp]: "name (StatComponent_init n b c lo hi d) = n"
  by (simp add: StatComponent_init_def Let_def)

lemma append_stat_inv:
  assumes "stats_inv sc" and "\<not> has_stat n sc"
  shows "stats_inv (snd (append_stat n b c lo hi d sc))"
  using assms
  by (auto simp: append_stat_def stats_inv_def within_capacity_def has_stat_iff get_stat_names_def
      Let_def split: option.splits)

lemma add_stat_frame [aw_frame, simp]:
  "max_stats (snd (add_stat n b c lo hi d r sc)) = max_stats sc"
  "component_type (snd (add_stat n b c lo hi d r sc)) = component_type sc"
  by (simp_all add: add_stat_def append_stat_def Let_def)

lemma add_stat_inv:
  assumes "stats_inv sc"
  shows "stats_inv (snd (add_stat n b c lo hi d r sc))"
proof (cases "has_stat n sc")
  case False
  with assms show ?thesis by (simp add: add_stat_def has_stat_def append_stat_inv)
next
  case True
  from assms have "distinct (get_stat_names sc)" by (simp add: stats_inv_def get_stat_names_def)
  then have "\<not> has_stat n (snd (remove_stat n sc))" by (rule remove_stat_gone)
  with remove_stat_inv [OF assms, of n] have "stats_inv (snd (append_stat n b c lo hi d (snd (remove_stat n sc))))"
    by (rule append_stat_inv)
  with True assms show ?thesis by (simp add: add_stat_def has_stat_def)
qed

section \<open>Delegation\<close>

lemma delegate_missing:
  "\<not> has_stat n sc \<Longrightarrow> update_first (named n) f (stats sc) = None"
  by (auto simp: update_first_None_iff has_stat_iff get_stat_names_def named_def)

lemma delegate_found:
  assumes "get_stat n sc = Some s" and "\<And>s. name (snd (f s)) = name s"
  shows "\<exists>ss. update_first (named n) f (stats sc) = Some (fst (f s), ss) \<and>
    find (named n) ss = Some (snd (f s)) \<and> map name ss = map name (stats sc) \<and>
    (\<forall>n'. n' \<noteq> n \<longrightarrow> find (named n') ss = find (named n') (stats sc))"
proof -
  from assms(1) have "\<exists>x \<in> set (stats sc). named n x"
    by (auto simp: get_stat_def find_Some_iff)
  then obtain r ss where u: "update_first (named n) f (stats sc) = Some (r, ss)"
    using update_first_Some_iff [of "named n" f "stats sc"] by blast
  from update_first_find [OF u] assms have "r = fst (f s)" "find (named n) ss = Some (snd (f s))"
    by (auto simp: named_def get_stat_def)
  moreover from u assms(2) have "map name ss = map name (stats sc)" by (rule map_update_first)
  moreover have "find (named n') ss = find (named n') (stats sc)" if "n' \<noteq> n" for n'
    using u by (rule update_first_find_other) (use that assms(2) in \<open>simp add: named_def\<close>)
  ultimately show ?thesis using u by simp
qed

lemma delegate_inv:
  assumes "stats_inv sc" and "update_first (named n) f (stats sc) = Some (r, ss)"
    and "\<And>s. name (snd (f s)) = name s"
  shows "stats_inv (sc\<lparr>stats := ss\<rparr>)"
  using assms(1) map_update_first [OF assms(2), of name, OF assms(3)]
    length_update_first [OF assms(2)]
  by (auto simp: stats_inv_def within_capacity_def split: option.splits)

lemma stats_inv_step:
  fixes sc :: "('a::{ord,plus,zero}) StatsComponent"
  assumes "stats_inv sc"
  shows "stats_inv (stats_step sc x)"
proof (cases x)
  case (AddStat n b c lo hi d r)
  with assms show ?thesis by (simp add: add_stat_inv)
next
  case (RemoveStat n)
  with assms show ?thesis by (simp add: remove_stat_inv)
next
  case (ModifyStat n m)
  with assms show ?thesis
    by (auto simp: modify_stat_def split: option.splits intro: delegate_inv)
next
  case (SetStatBase n v)
  with assms show ?thesis
    by (auto simp: set_stat_base_value_def split: option.splits intro: delegate_inv)
next
  case (SetStatCurrent n v)
  with assms show ?thesis
    by (auto simp: set_stat_current_value_def Let_def split: option.splits intro!: delegate_inv)
next
  case (ResetStat n)
  with assms show ?thesis
    by (auto simp: reset_stat_to_base_def split: option.splits intro!: delegate_inv)
next
  case ResetAll
  with assms show ?thesis
    by (auto simp: reset_all_to_base_def stats_inv_def within_capacity_def comp_def
        split: option.splits)
next
  case ClearAllStats
  with assms show ?thesis
    by (auto simp: clear_all_stats_def stats_inv_def within_capacity_def split: option.splits)
qed

lemma stats_inv_run:
  fixes sc :: "('a::{ord,plus,zero}) StatsComponent"
  shows "stats_inv sc \<Longrightarrow> stats_inv (stats_run sc xs)"
  by (induction xs arbitrary: sc) (simp_all add: stats_inv_step)

lemma stats_step_frame [aw_frame, simp]:
  "max_stats (stats_step sc x) = max_stats sc"
  "component_type (stats_step sc x) = component_type sc"
  by (cases x;
      simp add: modify_stat_def set_stat_base_value_def set_stat_current_value_def
        reset_stat_to_base_def reset_all_to_base_def clear_all_stats_def
        split: option.splits prod.splits)+

lemma stats_run_frame [aw_frame, simp]:
  "max_stats (stats_run sc xs) = max_stats sc"
  "component_type (stats_run sc xs) = component_type sc"
  by (induction xs arbitrary: sc) simp_all

section \<open>Properties\<close>

text \<open>
  C8 (collection invariant under every sequence of calls). From a collection with unique
  names within its capacity, after every sequence of the eight mutating methods, whether
  they return or raise, the names are unique and the capacity is not exceeded.
\<close>

theorem stats_run_keeps_invariant:
  fixes sc :: "('a::{ord,plus,zero}) StatsComponent"
  assumes "stats_inv sc"
  shows "distinct (get_stat_names (stats_run sc xs)) \<and> within_capacity (stats_run sc xs) \<and>
    max_stats (stats_run sc xs) = max_stats sc"
  using stats_inv_run [OF assms, of xs] by (simp add: stats_inv_def get_stat_names_def)

theorem stats_run_keeps_invariant_witness:
  "distinct (get_stat_names (stats_run
      \<lparr>component_type = STAT, stats = [], max_stats = Some 2\<rparr>
      [AddStat ''str'' (10 :: real) None None None '''' False,
       AddStat ''str'' 12 None None None '''' True,
       AddStat ''dex'' 8 None None None '''' False,
       AddStat ''int'' 8 None None None '''' False,
       ModifyStat ''dex'' 1, RemoveStat ''str'']))"
  using stats_run_keeps_invariant [of
      "\<lparr>component_type = STAT, stats = [], max_stats = Some 2\<rparr>"
      "[AddStat ''str'' (10 :: real) None None None '''' False,
       AddStat ''str'' 12 None None None '''' True,
       AddStat ''dex'' 8 None None None '''' False,
       AddStat ''int'' 8 None None None '''' False,
       ModifyStat ''dex'' 1, RemoveStat ''str'']"]
  by (simp add: stats_inv_def within_capacity_def)

lemma add_stat_eq:
  assumes "stats_inv sc"
  shows "add_stat n b c lo hi d r sc =
    (if has_stat n sc \<and> \<not> r then (Inl (StatExists n), sc)
     else if \<not> has_stat n sc \<and> max_stats sc = Some (int (length (stats sc)))
       then (Inl (MaxStatsReached (int (length (stats sc)))), sc)
     else (Inr (StatComponent_init n (Some b) c lo hi d),
           sc\<lparr>stats := filter (\<lambda>s. name s \<noteq> n) (stats sc) @
                          [StatComponent_init n (Some b) c lo hi d]\<rparr>))"
proof -
  from assms have d: "distinct (get_stat_names sc)" and w: "within_capacity sc"
    by (simp_all add: stats_inv_def get_stat_names_def)
  show ?thesis
  proof (cases "has_stat n sc")
    case True
    let ?sc = "snd (remove_stat n sc)"
    from True have "0 < length (stats sc)" by (auto simp: has_stat_iff get_stat_names_def)
    with w True have "case max_stats ?sc of None \<Rightarrow> True | Some m \<Rightarrow> int (length (stats ?sc)) < m"
      by (auto simp: remove_stat_length within_capacity_def split: option.splits)
    from append_stat_room [OF this, of n b c lo hi d] True remove_stat_filter [OF d, of n]
    show ?thesis by (simp add: add_stat_def has_stat_def remove_stat_eq)
  next
    case False
    then have f: "filter (\<lambda>s. name s \<noteq> n) (stats sc) = stats sc"
      by (auto simp: has_stat_iff get_stat_names_def filter_id_conv)
    show ?thesis
    proof (cases "max_stats sc = Some (int (length (stats sc)))")
      case True
      with False show ?thesis by (simp add: add_stat_def has_stat_def append_stat_full)
    next
      case nf: False
      with w have "case max_stats sc of None \<Rightarrow> True | Some m \<Rightarrow> int (length (stats sc)) < m"
        by (auto simp: within_capacity_def split: option.splits)
      from append_stat_room [OF this, of n b c lo hi d] False nf f
      show ?thesis by (simp add: add_stat_def has_stat_def)
    qed
  qed
qed

text \<open>
  C9 (the two errors of \<^verbatim>\<open>add_stat\<close>). On a collection with unique names \<^verbatim>\<open>add_stat\<close>
  raises exactly in two cases, and leaves the collection as it was in both: the name is
  taken and no replacement was asked for, or the name is new and the collection is at its
  capacity. A replacement never fails for capacity. In every other case it returns the new stat.
\<close>

theorem add_stat_errors:
  assumes "stats_inv sc"
  shows "add_stat n b c lo hi d r sc =
    (if has_stat n sc \<and> \<not> r then (Inl (StatExists n), sc)
     else if \<not> has_stat n sc \<and> max_stats sc = Some (int (length (stats sc)))
       then (Inl (MaxStatsReached (int (length (stats sc)))), sc)
     else (Inr (StatComponent_init n (Some b) c lo hi d),
           sc\<lparr>stats := filter (\<lambda>s. name s \<noteq> n) (stats sc) @
                          [StatComponent_init n (Some b) c lo hi d]\<rparr>))"
  using add_stat_eq [OF assms] .

theorem add_stat_errors_witness:
  "add_stat ''int'' (8 :: real) None None None '''' False
     \<lparr>component_type = STAT,
      stats = [StatComponent_init ''str'' (Some 10) None None None '''',
               StatComponent_init ''dex'' (Some 8) None None None ''''],
      max_stats = Some 2\<rparr> =
   (Inl (MaxStatsReached 2),
     \<lparr>component_type = STAT,
      stats = [StatComponent_init ''str'' (Some 10) None None None '''',
               StatComponent_init ''dex'' (Some 8) None None None ''''],
      max_stats = Some 2\<rparr>)"
  using add_stat_errors [of
     "\<lparr>component_type = STAT,
      stats = [StatComponent_init ''str'' (Some (10 :: real)) None None None '''',
               StatComponent_init ''dex'' (Some 8) None None None ''''],
      max_stats = Some 2\<rparr>" "''int''" 8 None None None "''''" False]
  by (simp add: stats_inv_def within_capacity_def has_stat_iff get_stat_names_def)

text \<open>
  When \<^verbatim>\<open>add_stat\<close> returns a stat, \<^verbatim>\<open>get_stat\<close> with
  its name finds that stat, \<^verbatim>\<open>has_stat\<close> is true, the stat is the last of the collection,
  and every other name is found as before.
\<close>

theorem add_stat_then_get:
  assumes "stats_inv sc" and "add_stat n b c lo hi d r sc = (Inr s, sc')"
  shows "get_stat n sc' = Some s \<and> has_stat n sc' \<and> last (stats sc') = s \<and> name s = n \<and>
    (\<forall>n'. n' \<noteq> n \<longrightarrow> get_stat n' sc' = get_stat n' sc)"
proof -
  from assms(1) have d: "distinct (get_stat_names sc)" by (simp add: stats_inv_def get_stat_names_def)
  let ?sc = "if has_stat n sc then snd (remove_stat n sc) else sc"
  have gone: "get_stat n ?sc = None"
    using remove_stat_gone [OF d, of n] by (simp add: has_stat_def)
  have other: "get_stat n' ?sc = get_stat n' sc" if "n' \<noteq> n" for n'
    using that by (simp add: remove_stat_other)
  from assms(2) have s: "s = StatComponent_init n (Some b) c lo hi d"
    and sc': "sc' = ?sc\<lparr>stats := stats ?sc @ [s]\<rparr>"
    by (auto simp: add_stat_def append_stat_def has_stat_def Let_def split: if_splits)
  from s have n: "name s = n" by simp
  from gone n have "get_stat n sc' = Some s" unfolding sc' by (simp add: get_stat_append)
  moreover have "get_stat n' sc' = get_stat n' sc" if "n' \<noteq> n" for n'
    using other [OF that] that n unfolding sc'
    by (auto simp: get_stat_append split: option.splits)
  ultimately show ?thesis using n by (simp add: has_stat_def sc')
qed

theorem add_stat_then_get_witness:
  "get_stat ''str''
     (snd (add_stat ''str'' (10 :: real) None (Some 0) None '''' False
        \<lparr>component_type = STAT, stats = [], max_stats = None\<rparr>)) =
   Some (StatComponent_init ''str'' (Some 10) None (Some 0) None '''')"
proof -
  let ?sc = "\<lparr>component_type = STAT, stats = [], max_stats = None\<rparr> :: real StatsComponent"
  have i: "stats_inv ?sc" by (simp add: stats_inv_def within_capacity_def)
  have a: "add_stat ''str'' 10 None (Some 0) None '''' False ?sc =
    (Inr (StatComponent_init ''str'' (Some 10) None (Some 0) None ''''),
     ?sc\<lparr>stats := [StatComponent_init ''str'' (Some 10) None (Some 0) None '''']\<rparr>)"
    by (simp add: add_stat_def append_stat_def get_stat_def Let_def)
  from add_stat_then_get [OF i a] show ?thesis by (simp add: a)
qed

text \<open>
  \<^verbatim>\<open>modify_stat\<close> answers \<open>None\<close> and changes nothing
  when no stat has the name. Otherwise it returns what \<^verbatim>\<open>modify_value\<close> returns on the stat
  that \<^verbatim>\<open>get_stat\<close> finds, that stat is afterwards the stat after \<^verbatim>\<open>modify_value\<close>, in the
  same place, and every other name is found as before.
\<close>

theorem modify_stat_delegates:
  "case get_stat n sc of
     None \<Rightarrow> modify_stat n m sc = (None, sc)
   | Some s \<Rightarrow>
       fst (modify_stat n m sc) = Some (fst (modify_value m s)) \<and>
       get_stat n (snd (modify_stat n m sc)) = Some (snd (modify_value m s)) \<and>
       get_stat_names (snd (modify_stat n m sc)) = get_stat_names sc \<and>
       (\<forall>n'. n' \<noteq> n \<longrightarrow> get_stat n' (snd (modify_stat n m sc)) = get_stat n' sc)"
proof (cases "get_stat n sc")
  case None
  then show ?thesis by (simp add: modify_stat_def delegate_missing has_stat_def)
next
  case (Some s)
  from delegate_found [OF Some, of "modify_value m"] Some show ?thesis
    by (auto simp: modify_stat_def get_stat_def get_stat_names_def)
qed

theorem modify_stat_delegates_witness:
  "fst (modify_stat ''hp'' (- 50)
     \<lparr>component_type = STAT,
      stats = [\<lparr>component_type = STAT, name = ''hp'', base_value = 10 :: real, current_value = 10,
                min_value = Some 0, max_value = Some 100, description = ''''\<rparr>],
      max_stats = None\<rparr>) = Some 0"
  using modify_stat_delegates [where n = "''hp''" and m = "- 50" and sc =
     "\<lparr>component_type = STAT,
      stats = [\<lparr>component_type = STAT, name = ''hp'', base_value = 10 :: real, current_value = 10,
                min_value = Some 0, max_value = Some 100, description = ''''\<rparr>],
      max_stats = None\<rparr>"]
  by (simp add: get_stat_def named_def modify_value_def assign_current_value_def
      validate_current_value_def Let_def)

text \<open>
  When no stat has the name, the four
  delegating methods and \<^verbatim>\<open>remove_stat\<close> answer \<open>None\<close> or \<open>False\<close> and leave the
  collection as it is.
\<close>

theorem missing_name_is_sentinel:
  assumes "\<not> has_stat n sc"
  shows "modify_stat n m sc = (None, sc) \<and> set_stat_base_value n v sc = (None, sc) \<and>
    set_stat_current_value n v sc = (None, sc) \<and> reset_stat_to_base n sc = (False, sc) \<and>
    remove_stat n sc = (False, sc) \<and> get_stat n sc = None"
  using assms
  by (simp add: modify_stat_def set_stat_base_value_def set_stat_current_value_def
      reset_stat_to_base_def delegate_missing remove_stat_missing has_stat_def)

theorem missing_name_is_sentinel_witness:
  "modify_stat ''mp'' (1 :: real) \<lparr>component_type = STAT, stats = [], max_stats = None\<rparr> =
     (None, \<lparr>component_type = STAT, stats = [], max_stats = None\<rparr>)"
  using missing_name_is_sentinel [of "''mp''"
      "\<lparr>component_type = STAT, stats = [], max_stats = None\<rparr> :: real StatsComponent" 1 1]
  by (simp add: has_stat_def get_stat_def)

text \<open>
  On a collection with unique names \<^verbatim>\<open>remove_stat\<close> answers whether
  the name was there, afterwards the name is not there, every other name is found as
  before, and the invariant holds.
\<close>

theorem remove_stat_removes:
  assumes "stats_inv sc"
  shows "fst (remove_stat n sc) = has_stat n sc \<and> \<not> has_stat n (snd (remove_stat n sc)) \<and>
    (\<forall>n'. n' \<noteq> n \<longrightarrow> get_stat n' (snd (remove_stat n sc)) = get_stat n' sc) \<and>
    stats_inv (snd (remove_stat n sc))"
proof -
  from assms have "distinct (get_stat_names sc)" by (simp add: stats_inv_def get_stat_names_def)
  from remove_stat_gone [OF this, of n] remove_stat_inv [OF assms, of n] show ?thesis
    by (simp add: remove_stat_other) (simp add: remove_stat_eq)
qed

theorem remove_stat_removes_witness:
  "\<not> has_stat ''str'' (snd (remove_stat ''str''
     \<lparr>component_type = STAT,
      stats = [StatComponent_init ''str'' (Some (10 :: real)) None None None ''''],
      max_stats = None\<rparr>))"
  using remove_stat_removes [of
     "\<lparr>component_type = STAT,
      stats = [StatComponent_init ''str'' (Some (10 :: real)) None None None ''''],
      max_stats = None\<rparr>" "''str''"]
  by (simp add: stats_inv_def within_capacity_def)

text \<open>
  A collection constructed with a capacity has the
  first \<^verbatim>\<open>max_stats\<close> stats of the list it was given, in their order: the stats beyond the
  capacity are dropped without an error. A capacity below one is rejected.
\<close>

theorem StatsComponent_init_truncates:
  "StatsComponent_init ss (Some m) =
     (if m < 1 then Inl (ConstraintViolation ''max_stats'')
      else Inr \<lparr>component_type = STAT, stats = take (nat m) ss, max_stats = Some m\<rparr>)"
  by (simp add: StatsComponent_init_def validate_stats_count_def)

text \<open>
  A collection constructed from a list in
  which a name occurs twice keeps both stats, so the names of a constructed collection need
  not be unique, and \<^verbatim>\<open>remove_stat\<close> of that name leaves a stat of that name behind.
\<close>

theorem StatsComponent_init_allows_duplicates:
  "\<exists>sc. StatsComponent_init
       [StatComponent_init ''hp'' (Some (1 :: real)) None None None '''',
        StatComponent_init ''hp'' (Some 2) None None None ''''] None = Inr sc \<and>
     \<not> stats_inv sc \<and> has_stat ''hp'' (snd (remove_stat ''hp'' sc))"
  by (simp add: StatsComponent_init_def validate_stats_count_def stats_inv_def
      has_stat_def get_stat_def remove_stat_def delete_first_def named_def)

text \<open>
  A replacement moves the stat to the end. With \<^verbatim>\<open>replace_if_exists\<close> the stat of the
  name is removed and the new one appended, so the replaced stat becomes the last of the
  collection.
\<close>

theorem add_stat_replace_moves_to_end:
  "get_stat_names (snd (add_stat ''str'' (12 :: real) None None None '''' True
     \<lparr>component_type = STAT,
      stats = [StatComponent_init ''str'' (Some 10) None None None '''',
               StatComponent_init ''dex'' (Some 8) None None None ''''],
      max_stats = Some 2\<rparr>)) = [''dex'', ''str'']"
  by (simp add: add_stat_def append_stat_def remove_stat_def delete_first_def get_stat_def
      get_stat_names_def named_def Let_def)

section \<open>Bounds of the stats of a collection\<close>

lemma stat_ok_step:
  fixes s :: "('a::{linorder,plus}) StatComponent"
  assumes "bounds_ok (min_value s) (max_value s) \<and> stat_inv s"
  shows "bounds_ok (min_value (stat_step s x)) (max_value (stat_step s x)) \<and> stat_inv (stat_step s x)"
  using assms by (simp add: stat_inv_step)

lemma stat_ok_init:
  fixes b :: "'a::{linorder,zero}"
  assumes "bounds_ok lo hi" and "in_bounds b lo hi"
    and "case c of None \<Rightarrow> True | Some v \<Rightarrow> in_bounds v lo hi"
  shows "bounds_ok (min_value (StatComponent_init n (Some b) c lo hi d))
      (max_value (StatComponent_init n (Some b) c lo hi d)) \<and>
    stat_inv (StatComponent_init n (Some b) c lo hi d)"
  using assms
  by (cases c) (simp_all add: StatComponent_init_def stat_inv_def Let_def validate_base_value_eq)

lemma stats_step_list_all:
  fixes sc :: "('a::{ord,plus,zero}) StatsComponent"
  assumes all: "list_all P (stats sc)"
    and call: "\<And>s y. P s \<Longrightarrow> delegated x = Some y \<Longrightarrow> P (stat_step s y)"
    and new: "\<And>s. added x = Some s \<Longrightarrow> P s"
  shows "list_all P (stats (stats_step sc x))"
proof -
  have upd: "list_all P ss"
    if "update_first (named n) f (stats sc) = Some (r, ss)" and "delegated x = Some y"
      and "\<And>s. snd (f s) = stat_step s y" for n r ss y and f :: "'a StatComponent \<Rightarrow> 'r \<times> _"
    using list_all_update_first [OF that(1) all] call [OF _ that(2)] that(3) by simp
  show ?thesis
  proof (cases x)
    case (AddStat n b c lo hi d r)
    have "list_all P (stats (snd (append_stat n b c lo hi d sc')))" if "list_all P (stats sc')"
      for sc' :: "'a StatsComponent"
      using that new [of "StatComponent_init n (Some b) c lo hi d"] AddStat
      by (simp add: append_stat_def Let_def)
    with all AddStat show ?thesis
      by (simp add: add_stat_def Let_def remove_stat_eq list_all_delete_first)
  next
    case ResetAll
    with all call [of _ Reset] show ?thesis
      by (simp add: reset_all_to_base_def list_all_iff)
  qed (use all in \<open>auto simp: remove_stat_eq list_all_delete_first modify_stat_def
      set_stat_base_value_def set_stat_current_value_def reset_stat_to_base_def
      clear_all_stats_def Let_def split: option.splits intro!: upd\<close>)
qed

lemma stats_run_list_all:
  fixes sc :: "('a::{ord,plus,zero}) StatsComponent"
  assumes "list_all P (stats sc)"
    and "\<forall>x\<in>set xs. \<forall>s y. P s \<longrightarrow> delegated x = Some y \<longrightarrow> P (stat_step s y)"
    and "\<forall>x\<in>set xs. \<forall>s. added x = Some s \<longrightarrow> P s"
  shows "list_all P (stats (stats_run sc xs))"
  using assms
proof (induction xs arbitrary: sc)
  case (Cons x xs)
  from Cons.prems have "list_all P (stats (stats_step sc x))"
    by (intro stats_step_list_all) simp_all
  with Cons.prems(2,3) show ?case by (simp add: Cons.IH)
qed simp

lemma stats_bounded_step:
  fixes sc :: "('a::{linorder,plus,zero}) StatsComponent"
  assumes "stats_bounded sc" and "add_in_bounds x"
  shows "stats_bounded (stats_step sc x)"
  unfolding stats_bounded_def
proof (rule stats_step_list_all)
  from assms(1) show "list_all (\<lambda>s. bounds_ok (min_value s) (max_value s) \<and> stat_inv s) (stats sc)"
    by (simp add: stats_bounded_def)
  show "bounds_ok (min_value s) (max_value s) \<and> stat_inv s" if "added x = Some s" for s
  proof (cases x)
    case (AddStat n b c lo hi d r)
    with that assms(2) stat_ok_init [of lo hi b c n d] show ?thesis by auto
  qed (use that in simp_all)
qed (rule stat_ok_step)

text \<open>
  In a collection whose stats have their bounds
  in order and their values within them, that stays so under every sequence of calls in
  which \<^verbatim>\<open>add_stat\<close> is given values within the bounds it is given.
\<close>

theorem stats_run_keeps_bounds_of_stats:
  fixes sc :: "('a::{linorder,plus,zero}) StatsComponent"
  assumes "stats_bounded sc" and "list_all add_in_bounds xs"
  shows "stats_bounded (stats_run sc xs)"
  using assms by (induction xs arbitrary: sc) (simp_all add: stats_bounded_step)

theorem stats_run_keeps_bounds_of_stats_witness:
  "stats_bounded (stats_run \<lparr>component_type = STAT, stats = [], max_stats = None\<rparr>
     [AddStat ''hp'' (10 :: real) None (Some 0) (Some 100) '''' False,
      ModifyStat ''hp'' (- 50), SetStatBase ''hp'' 500, ResetAll])"
  using stats_run_keeps_bounds_of_stats [of
     "\<lparr>component_type = STAT, stats = [], max_stats = None\<rparr>"
     "[AddStat ''hp'' (10 :: real) None (Some 0) (Some 100) '''' False,
      ModifyStat ''hp'' (- 50), SetStatBase ''hp'' 500, ResetAll]"]
  by (simp add: stats_bounded_def in_bounds_def)

section \<open>Assigning the stats\<close>

lemma validate_stats_count_eq:
  "validate_stats_count sc =
     sc\<lparr>stats := (case max_stats sc of None \<Rightarrow> stats sc | Some m \<Rightarrow> truncate_to m (stats sc))\<rparr>"
  by (cases sc) (simp add: validate_stats_count_def truncate_to_def split: option.splits)

lemma assign_stats_eq:
  "assign_stats ss sc =
     sc\<lparr>stats := (case max_stats sc of None \<Rightarrow> ss | Some m \<Rightarrow> truncate_to m ss)\<rparr>"
  by (simp add: assign_stats_def validate_stats_count_eq split: option.splits)

lemma stats_inv_assign_stats:
  assumes "within_capacity sc" and "distinct (map name ss)"
  shows "stats_inv (assign_stats ss sc)"
  using assms
  by (auto simp: assign_stats_eq stats_inv_def within_capacity_def truncate_to_take
      distinct_take take_map [symmetric] split: option.splits)

lemma assign_max_stats_eq:
  "assign_max_stats ms sc =
     (case ms of None \<Rightarrow> Inr (sc\<lparr>max_stats := None\<rparr>)
      | Some m \<Rightarrow> if m < 1 then Inl (ConstraintViolation ''max_stats'')
                  else Inr (sc\<lparr>max_stats := Some m, stats := take (nat m) (stats sc)\<rparr>))"
  by (cases sc)
    (auto simp: assign_max_stats_def validate_stats_count_eq truncate_to_take split: option.splits)

lemma stats_inv_assign_max_stats:
  assumes "stats_inv sc" and "assign_max_stats ms sc = Inr sc'"
  shows "stats_inv sc'"
  using assms
  by (auto simp: assign_max_stats_eq stats_inv_def within_capacity_def distinct_take
      take_map [symmetric] split: option.splits if_splits)

end
