(* ===== verification/AW_StatsMap.thy ===== *)
theory AW_StatsMap
  imports AW_Stats "HOL-Library.Mapping"
begin

text \<open>
  What a collection of stats is for its client: a finite mapping from names to stats with
  an optional capacity. \<open>stats_mapping\<close> forgets the order of the list; \<open>mapping_step\<close>
  says what each mutating call of \<^verbatim>\<open>StatsComponent\<close> does to the mapping. The theory shows
  that \<^verbatim>\<open>get_stat\<close> is the lookup of the mapping and that the list implements the mapping
  under every call and every run of calls.
\<close>

section \<open>The abstract collection\<close>

definition stats_mapping :: "'a StatsComponent \<Rightarrow> (string, 'a StatComponent) mapping" where
  "stats_mapping sc = Mapping.of_alist (map (\<lambda>s. (name s, s)) (stats sc))"

text \<open>The capacity check of \<^verbatim>\<open>add_stat\<close> on the number of names.\<close>

definition at_capacity :: "int option \<Rightarrow> (string, 'b) mapping \<Rightarrow> bool" where
  "at_capacity cap m = (case cap of None \<Rightarrow> False | Some k \<Rightarrow> k \<le> int (Mapping.size m))"

text \<open>A call on the stat of a name, when there is one.\<close>

definition on_entry :: "string \<Rightarrow> ('b \<Rightarrow> 'b) \<Rightarrow> (string, 'b) mapping \<Rightarrow> (string, 'b) mapping" where
  "on_entry n f m = (case Mapping.lookup m n of None \<Rightarrow> m | Some s \<Rightarrow> Mapping.update n (f s) m)"

fun mapping_step ::
  "int option \<Rightarrow> (string, ('a::{ord,plus,zero}) StatComponent) mapping \<Rightarrow> 'a stats_op
     \<Rightarrow> (string, 'a StatComponent) mapping" where
  "mapping_step cap m (AddStat n b c lo hi d r) =
     (if Mapping.lookup m n \<noteq> None
      then (if r then Mapping.update n (StatComponent_init n (Some b) c lo hi d) m else m)
      else if at_capacity cap m then m
      else Mapping.update n (StatComponent_init n (Some b) c lo hi d) m)"
| "mapping_step cap m (RemoveStat n) = Mapping.delete n m"
| "mapping_step cap m (ModifyStat n x) = on_entry n (\<lambda>s. snd (modify_value x s)) m"
| "mapping_step cap m (SetStatBase n v) = on_entry n (\<lambda>s. snd (set_base_value v s)) m"
| "mapping_step cap m (SetStatCurrent n v) = on_entry n (assign_current_value v) m"
| "mapping_step cap m (ResetStat n) = on_entry n reset_to_base m"
| "mapping_step cap m ResetAll = Mapping.map_values (\<lambda>k. reset_to_base) m"
| "mapping_step cap m ClearAllStats = Mapping.empty"

section \<open>Lookup\<close>

lemma map_of_named: "map_of (map (\<lambda>s. (name s, s)) ss) n = find (named n) ss"
  by (induction ss) (auto simp: named_def)

lemma lookup_stats_mapping [simp]: "Mapping.lookup (stats_mapping sc) n = get_stat n sc"
  by (simp add: stats_mapping_def lookup_of_alist map_of_named get_stat_def)

lemma keys_stats_mapping: "Mapping.keys (stats_mapping sc) = set (get_stat_names sc)"
  by (simp add: stats_mapping_def keys_of_alist get_stat_names_def comp_def)

lemma size_stats_mapping:
  "distinct (get_stat_names sc) \<Longrightarrow> Mapping.size (stats_mapping sc) = length (stats sc)"
  using distinct_card [of "get_stat_names sc"]
  by (simp add: Mapping.size_def keys_stats_mapping) (simp add: get_stat_names_def)

lemma at_capacity_stats:
  assumes "stats_inv sc"
  shows "at_capacity (max_stats sc) (stats_mapping sc) \<longleftrightarrow>
    max_stats sc = Some (int (length (stats sc)))"
  using assms
  by (auto simp: at_capacity_def size_stats_mapping stats_inv_def within_capacity_def
      get_stat_names_def split: option.splits)

section \<open>The calls\<close>

lemma find_filter_append:
  "find (named n') (filter (\<lambda>s. name s \<noteq> n) ss @ [s]) =
     (if n' = n then (if name s = n then Some s else None)
      else (case find (named n') ss of None \<Rightarrow> (if name s = n' then Some s else None)
            | Some x \<Rightarrow> Some x))"
  by (induction ss) (auto simp: named_def [abs_def])

lemma add_stat_refines:
  fixes sc :: "('a::{ord,plus,zero}) StatsComponent"
  assumes "stats_inv sc"
  shows "stats_mapping (snd (add_stat n b c lo hi d r sc)) =
    mapping_step (max_stats sc) (stats_mapping sc) (AddStat n b c lo hi d r)"
proof (rule mapping_eqI)
  fix n'
  show "Mapping.lookup (stats_mapping (snd (add_stat n b c lo hi d r sc))) n' =
    Mapping.lookup (mapping_step (max_stats sc) (stats_mapping sc) (AddStat n b c lo hi d r)) n'"
    using at_capacity_stats [OF assms]
    by (auto simp: add_stat_eq [OF assms] has_stat_def get_stat_def find_filter_append
        lookup_update' split: option.splits)
qed

lemma remove_stat_refines:
  assumes "stats_inv sc"
  shows "stats_mapping (snd (remove_stat n sc)) = Mapping.delete n (stats_mapping sc)"
proof (rule mapping_eqI)
  fix n'
  from assms have d: "distinct (get_stat_names sc)" by (simp add: stats_inv_def get_stat_names_def)
  from remove_stat_gone [OF d, of n] remove_stat_other [of n' n sc]
  show "Mapping.lookup (stats_mapping (snd (remove_stat n sc))) n' =
    Mapping.lookup (Mapping.delete n (stats_mapping sc)) n'"
    by (cases "n' = n") (simp_all add: lookup_delete has_stat_def)
qed

lemma delegate_refines:
  assumes "\<And>s. name (f s) = name s"
  shows "stats_mapping
      (case update_first (named n) (\<lambda>s. (g s, f s)) (stats sc) of
         None \<Rightarrow> sc | Some (r, ss) \<Rightarrow> sc\<lparr>stats := ss\<rparr>) =
    on_entry n f (stats_mapping sc)"
proof (cases "get_stat n sc")
  case None
  then show ?thesis by (simp add: on_entry_def delegate_missing has_stat_def)
next
  case (Some s)
  from delegate_found [OF Some, of "\<lambda>s. (g s, f s)"] assms
  obtain ss where u: "update_first (named n) (\<lambda>s. (g s, f s)) (stats sc) = Some (g s, ss)"
    and f: "find (named n) ss = Some (f s)"
    and o: "\<forall>n'. n' \<noteq> n \<longrightarrow> find (named n') ss = find (named n') (stats sc)" by auto
  show ?thesis
  proof (rule mapping_eqI)
    fix n'
    from u f o Some
    show "Mapping.lookup (stats_mapping
        (case update_first (named n) (\<lambda>s. (g s, f s)) (stats sc) of
           None \<Rightarrow> sc | Some (r, ss) \<Rightarrow> sc\<lparr>stats := ss\<rparr>)) n' =
      Mapping.lookup (on_entry n f (stats_mapping sc)) n'"
      by (cases "n' = n") (simp_all add: on_entry_def lookup_update' get_stat_def)
  qed
qed

lemma delegate_refines_snd:
  assumes "\<And>s. name (snd (h s)) = name s"
  shows "stats_mapping
      (case update_first (named n) h (stats sc) of
         None \<Rightarrow> sc | Some (r, ss) \<Rightarrow> sc\<lparr>stats := ss\<rparr>) =
    on_entry n (\<lambda>s. snd (h s)) (stats_mapping sc)"
  using delegate_refines [where f = "\<lambda>s. snd (h s)" and g = "\<lambda>s. fst (h s)" and n = n and sc = sc]
    assms by simp

lemma name_kept [simp]:
  "name (snd (modify_value m s)) = name s" "name (snd (set_base_value v s)) = name s"
  "name (assign_current_value v s) = name s" "name (reset_to_base s) = name s"
  by (simp_all add: modify_value_def set_base_value_def assign_current_value_def
      assign_base_value_def reset_to_base_def Let_def)

lemma snd_delegates:
  "snd (modify_stat n m sc) =
     (case update_first (named n) (modify_value m) (stats sc) of
        None \<Rightarrow> sc | Some (r, ss) \<Rightarrow> sc\<lparr>stats := ss\<rparr>)"
  "snd (set_stat_base_value n v sc) =
     (case update_first (named n) (set_base_value v) (stats sc) of
        None \<Rightarrow> sc | Some (r, ss) \<Rightarrow> sc\<lparr>stats := ss\<rparr>)"
  "snd (set_stat_current_value n v sc) =
     (case update_first (named n)
             (\<lambda>s. let s' = assign_current_value v s in (current_value s', s')) (stats sc) of
        None \<Rightarrow> sc | Some (r, ss) \<Rightarrow> sc\<lparr>stats := ss\<rparr>)"
  "snd (reset_stat_to_base n sc) =
     (case update_first (named n) (\<lambda>s. ((), reset_to_base s)) (stats sc) of
        None \<Rightarrow> sc | Some (r, ss) \<Rightarrow> sc\<lparr>stats := ss\<rparr>)"
  by (simp_all add: modify_stat_def set_stat_base_value_def set_stat_current_value_def
      reset_stat_to_base_def split: option.splits prod.splits)

lemma find_map_named:
  assumes "\<And>s. name (f s) = name s"
  shows "find (named n) (map f ss) = map_option f (find (named n) ss)"
  using assms by (induction ss) (simp_all add: named_def)

lemma reset_all_refines:
  "stats_mapping (reset_all_to_base sc) = Mapping.map_values (\<lambda>k. reset_to_base) (stats_mapping sc)"
  by (rule mapping_eqI)
    (simp add: lookup_map_values reset_all_to_base_def get_stat_def find_map_named)

lemma clear_all_refines: "stats_mapping (snd (clear_all_stats sc)) = Mapping.empty"
  by (rule mapping_eqI) (simp add: clear_all_stats_def get_stat_def)

lemma stats_step_refines:
  fixes sc :: "('a::{ord,plus,zero}) StatsComponent"
  assumes "stats_inv sc"
  shows "stats_mapping (stats_step sc x) = mapping_step (max_stats sc) (stats_mapping sc) x"
proof (cases x)
  case (AddStat n b c lo hi d r)
  with add_stat_refines [OF assms] show ?thesis by simp
next
  case (RemoveStat n)
  with remove_stat_refines [OF assms] show ?thesis by simp
qed (simp_all add: snd_delegates delegate_refines_snd Let_def reset_all_refines clear_all_refines)

lemma stats_run_refines:
  fixes sc :: "('a::{ord,plus,zero}) StatsComponent"
  shows "stats_inv sc \<Longrightarrow>
    stats_mapping (stats_run sc xs) = foldl (mapping_step (max_stats sc)) (stats_mapping sc) xs"
proof (induction xs arbitrary: sc)
  case (Cons x xs)
  from Cons.IH [OF stats_inv_step [OF Cons.prems, of x]] stats_step_refines [OF Cons.prems, of x]
  show ?case by simp
qed simp

section \<open>Properties\<close>

text \<open>
  C14 (the collection refines a mapping from names to stats). From a collection with unique
  names within its capacity, after every run of the eight mutating calls, \<^verbatim>\<open>get_stat\<close>
  answers what the lookup answers in the mapping that the abstract calls build from the
  mapping of the collection, and there are as many stats as the mapping has names.
\<close>

theorem stats_refine_mapping:
  fixes sc :: "('a::{ord,plus,zero}) StatsComponent"
  assumes "stats_inv sc"
  shows "stats_mapping (stats_run sc xs) = foldl (mapping_step (max_stats sc)) (stats_mapping sc) xs \<and>
    get_stat n (stats_run sc xs) =
      Mapping.lookup (foldl (mapping_step (max_stats sc)) (stats_mapping sc) xs) n \<and>
    int (length (stats (stats_run sc xs))) =
      int (Mapping.size (foldl (mapping_step (max_stats sc)) (stats_mapping sc) xs))"
proof -
  note r = stats_run_refines [OF assms, of xs]
  from stats_inv_run [OF assms, of xs]
  have "distinct (get_stat_names (stats_run sc xs))" by (simp add: stats_inv_def get_stat_names_def)
  from size_stats_mapping [OF this] r lookup_stats_mapping [of "stats_run sc xs" n]
  show ?thesis by simp
qed

theorem stats_refine_mapping_witness:
  "get_stat ''dex'' (stats_run \<lparr>component_type = STAT, stats = [], max_stats = Some 2\<rparr>
      [AddStat ''str'' (10 :: real) None None None [] False,
       AddStat ''dex'' 8 None None None [] False, ModifyStat ''dex'' 1, RemoveStat ''str'']) =
   Mapping.lookup
     (foldl (mapping_step (Some 2)) Mapping.empty
       [AddStat ''str'' (10 :: real) None None None [] False,
        AddStat ''dex'' 8 None None None [] False, ModifyStat ''dex'' 1, RemoveStat ''str''])
     ''dex''"
proof -
  let ?sc = "\<lparr>component_type = STAT, stats = [], max_stats = Some 2\<rparr> :: real StatsComponent"
  have inv: "stats_inv ?sc" by (simp add: stats_inv_def within_capacity_def)
  have e: "stats_mapping ?sc = Mapping.empty" by (rule mapping_eqI) (simp add: get_stat_def)
  have cap: "max_stats ?sc = Some 2" by simp
  from stats_refine_mapping [OF inv, of _ "''dex''", unfolded e cap] show ?thesis by blast
qed

end
