(* ===== verification/AW_Float.thy ===== *)
theory AW_Float
  imports AW_Stat
begin

text \<open>
  The numeric fields of \<^verbatim>\<open>StatComponent\<close> are Python floats, IEEE 754 binary64 numbers. The
  operations of \<open>AW_Stat\<close> are defined for every type with a comparison and an addition,
  and its theorems are proved for linear orders with any addition. This theory gives the
  float its own type, with the two infinities and the value that is not a number, an
  addition that rounds to the nearest double and overflows to an infinity, and the
  comparisons of Python, and makes it an instance of the classes that the operations need.

  Three things are shown. The floats without the value that is not a number are a linear
  order (the type \<open>nfloat\<close>), so every theorem of \<open>AW_Stat\<close> holds of them, with rounding
  and overflow; the operations on floats are the operations on the reals as long as every
  sum is a double; and the value that is not a number passes every comparison of the
  validators and of \<^verbatim>\<open>modify_value\<close>, so it is stored whatever the bounds are.

  A finite float is written \<open>Finite x\<close> with a real \<open>x\<close>; the values that a program can
  hold are those that \<open>float_round\<close> leaves as they are. The two zeros of the format are
  one value here: they are equal in every comparison and in every sum that the component
  computes.
\<close>

section \<open>Floats\<close>

datatype pyfloat = Finite real | PosInf | NegInf | NaN

text \<open>
  Rounding to the nearest double, ties to the even significand. \<open>ulp_exponent x\<close> is the
  exponent of the last binary place of a double of the size of \<open>x\<close>: 52 places below the
  leading one, and never below the last place of the subnormal numbers. A result of
  magnitude \<open>2 ^ 1024\<close> or more is an infinity.
\<close>

definition round_half_even :: "real \<Rightarrow> int" where
  "round_half_even q =
     (let f = \<lfloor>q\<rfloor>; d = q - of_int f
      in if d < 1 / 2 then f else if 1 / 2 < d then f + 1 else if even f then f else f + 1)"

definition ulp_exponent :: "real \<Rightarrow> int" where
  "ulp_exponent x = max \<lfloor>log 2 \<bar>x\<bar>\<rfloor> (- 1022) - 52"

definition float_round :: "real \<Rightarrow> pyfloat" where
  "float_round x =
     (if x = 0 then Finite 0
      else
        (let u = power_int 2 (ulp_exponent x);
             r = of_int (round_half_even (x / u)) * u
         in if 2 ^ 1024 \<le> \<bar>r\<bar> then (if 0 < x then PosInf else NegInf) else Finite r))"

text \<open>
  Addition and comparison as Python defines them on \<^verbatim>\<open>float\<close>: the sum of two finite values
  is rounded, the sum of the two infinities of opposite sign is not a number, a sum with an
  operand that is not a number is not a number, and every comparison with it is false.
\<close>

definition float_zero :: pyfloat where
  "float_zero = Finite 0"

fun float_add :: "pyfloat \<Rightarrow> pyfloat \<Rightarrow> pyfloat" where
  "float_add (Finite x) (Finite y) = float_round (x + y)"
| "float_add NaN y = NaN"
| "float_add x NaN = NaN"
| "float_add PosInf NegInf = NaN"
| "float_add NegInf PosInf = NaN"
| "float_add PosInf y = PosInf"
| "float_add x PosInf = PosInf"
| "float_add NegInf y = NegInf"
| "float_add x NegInf = NegInf"

fun float_less :: "pyfloat \<Rightarrow> pyfloat \<Rightarrow> bool" where
  "float_less (Finite x) (Finite y) = (x < y)"
| "float_less NaN y = False"
| "float_less x NaN = False"
| "float_less x NegInf = False"
| "float_less PosInf y = False"
| "float_less NegInf y = True"
| "float_less x PosInf = True"

definition float_le :: "pyfloat \<Rightarrow> pyfloat \<Rightarrow> bool" where
  "float_le x y \<longleftrightarrow> float_less x y \<or> (x = y \<and> x \<noteq> NaN)"

instantiation pyfloat :: "{zero, plus, ord}"
begin

definition zero_pyfloat :: pyfloat where
  "zero_pyfloat = float_zero"

definition plus_pyfloat :: "pyfloat \<Rightarrow> pyfloat \<Rightarrow> pyfloat" where
  "plus_pyfloat = float_add"

definition less_pyfloat :: "pyfloat \<Rightarrow> pyfloat \<Rightarrow> bool" where
  "less_pyfloat = float_less"

definition less_eq_pyfloat :: "pyfloat \<Rightarrow> pyfloat \<Rightarrow> bool" where
  "less_eq_pyfloat = float_le"

instance ..

end

section \<open>Change of the type of values\<close>

text \<open>
  A stat and a call with every value sent through a function. \<open>stat_of_real\<close> and
  \<open>op_of_real\<close> take a stat and a call over the reals to the floats.
\<close>

definition map_stat :: "('a \<Rightarrow> 'b) \<Rightarrow> 'a StatComponent \<Rightarrow> 'b StatComponent" where
  "map_stat f s =
     \<lparr>component_type = component_type s, name = name s, base_value = f (base_value s),
      current_value = f (current_value s), min_value = map_option f (min_value s),
      max_value = map_option f (max_value s), description = description s\<rparr>"



text \<open>
  \<open>additive f s x\<close>: the one sum that the call \<open>x\<close> computes on the stat \<open>s\<close> is the same
  before and after \<open>f\<close>; \<open>additive_run\<close> says that of every call of a run. \<open>exact_run\<close> is
  the case of the reals in the floats: every sum of the run is a double.
\<close>

fun additive :: "('a::plus \<Rightarrow> 'b::plus) \<Rightarrow> 'a StatComponent \<Rightarrow> 'a stat_op \<Rightarrow> bool" where
  "additive f s (Modify m) \<longleftrightarrow> f (current_value s + m) = f (current_value s) + f m"
| "additive f s x \<longleftrightarrow> True"

fun additive_run ::
  "('a::{ord,plus} \<Rightarrow> 'b::plus) \<Rightarrow> 'a StatComponent \<Rightarrow> 'a stat_op list \<Rightarrow> bool" where
  "additive_run f s [] \<longleftrightarrow> True"
| "additive_run f s (x # xs) \<longleftrightarrow> additive f s x \<and> additive_run f (stat_step s x) xs"

definition exact_run :: "real StatComponent \<Rightarrow> real stat_op list \<Rightarrow> bool" where
  "exact_run = additive_run Finite"

section \<open>Stats that hold numbers\<close>

text \<open>
  The stats over the floats with a number in every field, and the calls with a number as
  argument; the modifier of \<^verbatim>\<open>modify_value\<close> is finite.
\<close>

definition no_nan :: "pyfloat StatComponent \<Rightarrow> bool" where
  "no_nan s \<longleftrightarrow>
     base_value s \<noteq> NaN \<and> current_value s \<noteq> NaN \<and> min_value s \<noteq> Some NaN \<and>
     max_value s \<noteq> Some NaN"

definition is_finite :: "pyfloat \<Rightarrow> bool" where
  "is_finite x \<longleftrightarrow> (case x of Finite r \<Rightarrow> True | _ \<Rightarrow> False)"

text \<open>
  The bounds as spec section 8 states them, with \<^verbatim>\<open><=\<close>: the base and the current value
  are at least the minimum and at most the maximum.
\<close>

definition within_bounds :: "pyfloat StatComponent \<Rightarrow> bool" where
  "within_bounds s \<longleftrightarrow>
     (case min_value s of None \<Rightarrow> True | Some lo \<Rightarrow> lo \<le> base_value s \<and> lo \<le> current_value s) \<and>
     (case max_value s of None \<Rightarrow> True | Some hi \<Rightarrow> base_value s \<le> hi \<and> current_value s \<le> hi)"

fun number_op :: "pyfloat stat_op \<Rightarrow> bool" where
  "number_op (Modify m) \<longleftrightarrow> is_finite m"
| "number_op Reset \<longleftrightarrow> True"
| "number_op (SetBase v) \<longleftrightarrow> v \<noteq> NaN"
| "number_op (AssignCurrent v) \<longleftrightarrow> v \<noteq> NaN"
| "number_op (AssignBase v) \<longleftrightarrow> v \<noteq> NaN"

text \<open>
  The state of a stat that the specification expects (spec section 3): a number in every
  field, the bounds in order, and both values within them.
\<close>

definition number_stat :: "pyfloat StatComponent \<Rightarrow> bool" where
  "number_stat s \<longleftrightarrow> no_nan s \<and> bounds_ok (min_value s) (max_value s) \<and> stat_inv s"

section \<open>Floats that are numbers\<close>

text \<open>
  The floats but the value that is not a number, as a type of their own: a linear order.
  Its addition is the addition of floats where that gives a number; the sum of the two
  infinities of opposite sign, which is not a number, is given the first operand, and
  the lemmas say where the two additions agree.
\<close>

typedef nfloat = "{x :: pyfloat. x \<noteq> NaN}"
  by (rule exI [of _ PosInf]) simp

setup_lifting type_definition_nfloat

instantiation nfloat :: "{zero, plus, linorder}"
begin

lift_definition zero_nfloat :: nfloat is float_zero
  by (simp add: float_zero_def)

lift_definition plus_nfloat :: "nfloat \<Rightarrow> nfloat \<Rightarrow> nfloat"
  is "\<lambda>x y. if float_add x y = NaN then x else float_add x y"
  by simp

lift_definition less_eq_nfloat :: "nfloat \<Rightarrow> nfloat \<Rightarrow> bool" is float_le .

lift_definition less_nfloat :: "nfloat \<Rightarrow> nfloat \<Rightarrow> bool" is float_less .

instance
proof
  fix x y z :: nfloat
  show "x < y \<longleftrightarrow> x \<le> y \<and> \<not> y \<le> x"
    by transfer (case_tac x; case_tac y; auto simp: float_le_def)
  show "x \<le> x" by transfer (simp add: float_le_def)
  show "x \<le> y \<Longrightarrow> y \<le> z \<Longrightarrow> x \<le> z"
    by transfer (case_tac x; case_tac y; case_tac z; auto simp: float_le_def)
  show "x \<le> y \<Longrightarrow> y \<le> x \<Longrightarrow> x = y"
    by transfer (case_tac x; case_tac y; auto simp: float_le_def)
  show "x \<le> y \<or> y \<le> x"
    by transfer (case_tac x; case_tac y; auto simp: float_le_def)
qed

end

section \<open>Comparisons and sums\<close>

lemmas less_pyfloat_simps [simp] = float_less.simps [folded less_pyfloat_def]

lemmas plus_pyfloat_simps [simp] = float_add.simps [folded plus_pyfloat_def]

lemma less_eq_pyfloat_iff: "x \<le> y \<longleftrightarrow> x < y \<or> (x = y \<and> x \<noteq> NaN)"
  for x y :: pyfloat
  by (simp add: less_eq_pyfloat_def float_le_def less_pyfloat_def)

lemma less_eq_Finite [simp]: "Finite x \<le> Finite y \<longleftrightarrow> x \<le> y"
  by (auto simp: less_eq_pyfloat_iff)

lemma NaN_compare [simp]:
  "\<not> NaN < y" "\<not> x < NaN" "\<not> NaN \<le> y" "\<not> x \<le> NaN"
  by (cases y; cases x; simp add: less_eq_pyfloat_iff)+

lemma NaN_plus [simp]: "x + NaN = NaN"
  by (cases x) simp_all

lemma zero_pyfloat_eq [simp]: "(0 :: pyfloat) = Finite 0"
  by (simp add: zero_pyfloat_def float_zero_def)

lemma below_min_NaN [simp]: "below_min NaN lo = False"
  by (cases lo) simp_all

lemma above_max_NaN [simp]: "above_max NaN hi = False"
  by (cases hi) simp_all

lemma float_add_NaN_iff:
  "float_add x y = NaN \<longleftrightarrow>
     x = NaN \<or> y = NaN \<or> (x = PosInf \<and> y = NegInf) \<or> (x = NegInf \<and> y = PosInf)"
  by (cases x; cases y) (simp_all add: float_round_def Let_def)

section \<open>Rounding\<close>

lemma round_half_even_of_int [simp]: "round_half_even (of_int k) = k"
  by (simp add: round_half_even_def)

lemma round_half_even_error: "\<bar>of_int (round_half_even q) - q\<bar> \<le> 1 / 2"
  by (simp add: round_half_even_def Let_def)

lemma round_half_even_mono: "of_int k \<le> q \<Longrightarrow> k \<le> round_half_even q"
  by (simp add: round_half_even_def Let_def le_floor_iff) linarith

lemma float_round_not_NaN [simp]: "float_round x \<noteq> NaN"
  by (simp add: float_round_def Let_def)

lemma float_round_0 [simp]: "float_round 0 = Finite 0"
  by (simp add: float_round_def)


text \<open>
  The doubles: a number \<open>k * 2 ^ j\<close> with an integer \<open>k\<close> of at most 53 bits and an
  exponent \<open>j\<close> of at least \<open>- 1074\<close>, below \<open>2 ^ 1024\<close> in magnitude, rounds to itself.
\<close>

lemma floor_log2_less:
  assumes "0 < x" and "x < 2 powr of_int n"
  shows "\<lfloor>log 2 x\<rfloor> < n"
proof -
  have "log 2 x < of_int n"
    using assms by (simp add: log_less_iff)
  then show ?thesis
    by linarith
qed

lemma ulp_exponent_le:
  assumes "x = of_int k * power_int 2 j" and "\<bar>k\<bar> < 2 ^ 53" and "- 1074 \<le> j" and "x \<noteq> 0"
  shows "ulp_exponent x \<le> j"
proof -
  have "\<bar>x\<bar> = of_int \<bar>k\<bar> * power_int 2 j"
    by (simp add: assms(1) abs_mult)
  also have "\<dots> < 2 ^ 53 * power_int 2 j"
  proof -
    have "(of_int \<bar>k\<bar> :: real) < of_int (2 ^ 53)"
      using assms(2) by (simp only: of_int_less_iff)
    then show ?thesis
      by simp
  qed
  also have "\<dots> = power_int 2 (53 + j)"
    by (simp add: power_int_add)
  also have "\<dots> = 2 powr of_int (53 + j)"
    by (rule powr_real_of_int' [symmetric]) simp_all
  finally have "\<lfloor>log 2 \<bar>x\<bar>\<rfloor> < 53 + j"
    using assms(4) by (intro floor_log2_less) simp_all
  with assms(3) show ?thesis
    by (simp add: ulp_exponent_def)
qed

lemma round_quotient:
  assumes "x = of_int k * power_int 2 j" and "e \<le> j"
  shows "of_int (round_half_even (x / power_int 2 e)) * power_int 2 e = x"
proof -
  from \<open>e \<le> j\<close> obtain d :: nat where d: "j = e + int d"
    by (metis zle_iff_zadd)
  have "x / power_int 2 e = of_int (k * 2 ^ d)"
    by (simp add: assms(1) d power_int_add)
  then have "round_half_even (x / power_int 2 e) = k * 2 ^ d"
    by (simp only: round_half_even_of_int)
  then show ?thesis
    by (simp add: assms(1) d power_int_add)
qed

lemma float_round_exact:
  assumes x: "x = of_int k * power_int 2 j" and k: "\<bar>k\<bar> < 2 ^ 53" and j: "- 1074 \<le> j"
    and fin: "\<bar>x\<bar> < 2 ^ 1024"
  shows "float_round x = Finite x"
proof (cases "x = 0")
  case False
  have "ulp_exponent x \<le> j"
    using x k j False by (rule ulp_exponent_le)
  with x have "of_int (round_half_even (x / power_int 2 (ulp_exponent x))) *
      power_int 2 (ulp_exponent x) = x"
    by (rule round_quotient)
  with False fin show ?thesis
    by (simp add: float_round_def Let_def)
qed simp

lemma float_round_of_int:
  assumes "\<bar>k\<bar> < 2 ^ 53"
  shows "float_round (of_int k) = Finite (of_int k)"
proof (rule float_round_exact [where k = k and j = 0])
  from assms have "(of_int \<bar>k\<bar> :: real) < of_int (2 ^ 53)"
    by (simp only: of_int_less_iff)
  then show "\<bar>of_int k :: real\<bar> < 2 ^ 1024"
    by simp
qed (use assms in simp_all)

lemma float_round_numeral [simp]:
  "(numeral n :: int) < 2 ^ 53 \<Longrightarrow> float_round (numeral n) = Finite (numeral n)"
  "(numeral n :: int) < 2 ^ 53 \<Longrightarrow> float_round (- numeral n) = Finite (- numeral n)"
  "float_round 1 = Finite 1"
  using float_round_of_int [of "numeral n"] float_round_of_int [of "- numeral n"]
    float_round_of_int [of 1]
  by simp_all

text \<open>A sum of magnitude \<open>2 ^ 1024\<close> or more is an infinity.\<close>

lemma float_round_overflow:
  assumes "2 ^ 1024 \<le> x"
  shows "float_round x = PosInf"
proof -
  define e where "e = \<lfloor>log 2 x\<rfloor>"
  have pos: "0 < x"
    using assms by (rule less_le_trans [rotated]) simp
  have "1024 \<le> log 2 x"
    using assms pos by (simp add: le_log_iff)
  then have e: "1024 \<le> e"
    by (simp add: e_def le_floor_iff)
  then have u: "ulp_exponent x = e - 52"
    using pos by (simp add: ulp_exponent_def e_def)
  have "of_int e \<le> log 2 x"
    by (simp add: e_def)
  then have low: "power_int 2 e \<le> x"
    using pos by (simp add: le_log_iff powr_real_of_int')
  have "(of_int (2 ^ 52) :: real) = power_int 2 e / power_int 2 (e - 52)"
    by (simp add: power_int_diff)
  also have "\<dots> \<le> x / power_int 2 (e - 52)"
    using low by (simp add: divide_right_mono)
  finally have "2 ^ 52 \<le> round_half_even (x / power_int 2 (e - 52))"
    by (rule round_half_even_mono)
  then have "(of_int (2 ^ 52) :: real) \<le> of_int (round_half_even (x / power_int 2 (e - 52)))"
    by (simp only: of_int_le_iff)
  then have "of_int (2 ^ 52) * power_int 2 (e - 52) \<le>
      (of_int (round_half_even (x / power_int 2 (e - 52))) :: real) * power_int 2 (e - 52)"
    by (rule mult_right_mono) simp
  moreover have "of_int (2 ^ 52) * power_int 2 (e - 52) = (power_int 2 e :: real)"
    by (simp add: power_int_diff)
  moreover have "(2 :: real) ^ 1024 \<le> power_int 2 e"
    using e power_int_increasing [of 1024 e "2 :: real"] by simp
  ultimately have "(2 :: real) ^ 1024 \<le> \<bar>of_int (round_half_even (x / power_int 2 (e - 52))) *
      power_int 2 (e - 52)\<bar>"
    by linarith
  with pos show ?thesis
    by (simp add: float_round_def Let_def u)
qed


text \<open>
  The rounding of a number whose binary exponent is known, and three values that Python
  prints: \<^verbatim>\<open>0.1\<close> and \<^verbatim>\<open>0.3\<close> are not doubles, and \<^verbatim>\<open>0.1 + 0.2\<close> is not \<^verbatim>\<open>0.3\<close>.
\<close>

lemma floor_log2_eq:
  assumes "power_int 2 e \<le> x" and "x < power_int 2 (e + 1)"
  shows "\<lfloor>log 2 x\<rfloor> = e"
proof -
  have pos: "0 < x"
    using assms(1) by (rule less_le_trans [rotated]) simp
  have "of_int e \<le> log 2 x"
    using assms(1) pos by (simp add: le_log_iff powr_real_of_int')
  moreover have "power_int 2 (e + 1) = (2 :: real) powr of_int (e + 1)"
    by (rule powr_real_of_int' [symmetric]) simp_all
  with assms(2) pos have "log 2 x < of_int (e + 1)"
    by (simp only: log_less_iff)
  ultimately show ?thesis
    by linarith
qed

lemma float_round_binade:
  assumes "power_int 2 e \<le> \<bar>x\<bar>" and "\<bar>x\<bar> < power_int 2 (e + 1)" and "- 1022 \<le> e"
  shows "float_round x =
    (let u = power_int 2 (e - 52); r = of_int (round_half_even (x / u)) * u
     in if 2 ^ 1024 \<le> \<bar>r\<bar> then (if 0 < x then PosInf else NegInf) else Finite r)"
proof -
  have "0 < \<bar>x\<bar>"
    using assms(1) by (rule less_le_trans [rotated]) simp
  moreover have "ulp_exponent x = e - 52"
    using floor_log2_eq [OF assms(1,2)] assms(3) by (simp add: ulp_exponent_def)
  ultimately show ?thesis
    by (simp add: float_round_def)
qed

lemma float_round_tenth: "float_round (1 / 10) = Finite (3602879701896397 / 2 ^ 55)"
  by (subst float_round_binade [where e = "- 4"]) (simp_all add: round_half_even_def Let_def)

lemma float_round_three_tenths: "float_round (3 / 10) = Finite (5404319552844595 / 2 ^ 54)"
  by (subst float_round_binade [where e = "- 2"]) (simp_all add: round_half_even_def Let_def)

lemma tenth_plus_two_tenths:
  "Finite (3602879701896397 / 2 ^ 55) + Finite (3602879701896397 / 2 ^ 54) =
     Finite (5404319552844596 / 2 ^ 54)"
  by (simp, subst float_round_binade [where e = "- 2"])
    (simp_all add: round_half_even_def Let_def)

text \<open>
  The largest double is \<open>2 ^ 1024 - 2 ^ 971\<close>; the number half a place above it is the
  first that rounds to the infinity.
\<close>

lemma float_round_max: "float_round (2 ^ 1024 - 2 ^ 971) = Finite (2 ^ 1024 - 2 ^ 971)"
  by (rule float_round_exact [where k = "2 ^ 53 - 1" and j = 971]) simp_all

lemma float_round_above_max: "float_round (2 ^ 1024 - 2 ^ 970) = PosInf"
  by (subst float_round_binade [where e = 1023]) (simp_all add: round_half_even_def Let_def)

lemma round_half_even_minus: "round_half_even (- q) = - round_half_even q"
proof (cases "q \<in> \<int>")
  case True
  then obtain k where "q = of_int k"
    by (auto elim: Ints_cases)
  then show ?thesis
    by (simp flip: of_int_minus)
next
  case False
  then have "\<lfloor>- q\<rfloor> = - \<lfloor>q\<rfloor> - 1"
    by (simp add: floor_minus ceiling_altdef) (metis Ints_of_int)
  then show ?thesis
    by (auto simp: round_half_even_def Let_def)
qed

lemma float_round_minus:
  "float_round (- x) =
     (case float_round x of Finite r \<Rightarrow> Finite (- r) | PosInf \<Rightarrow> NegInf | NegInf \<Rightarrow> PosInf
      | NaN \<Rightarrow> NaN)"
  by (simp add: float_round_def ulp_exponent_def Let_def round_half_even_minus)

lemma float_round_overflow_neg:
  assumes "x \<le> - (2 ^ 1024)"
  shows "float_round x = NegInf"
  using float_round_overflow [of "- x"] float_round_minus [of x] assms
  by (simp split: pyfloat.splits)

section \<open>Order embeddings\<close>

text \<open>
  A function that keeps the strict order, and the sum of every \<^verbatim>\<open>modify_value\<close> of a run,
  commutes with the run: the operations compare and add and do nothing else with a value.
\<close>

lemma map_stat_sel [simp]:
  "component_type (map_stat f s) = component_type s"
  "name (map_stat f s) = name s"
  "base_value (map_stat f s) = f (base_value s)"
  "current_value (map_stat f s) = f (current_value s)"
  "min_value (map_stat f s) = map_option f (min_value s)"
  "max_value (map_stat f s) = map_option f (max_value s)"
  "description (map_stat f s) = description s"
  by (simp_all add: map_stat_def)

lemma map_stat_update [simp]:
  "map_stat f s\<lparr>current_value := f v\<rparr> = map_stat f (s\<lparr>current_value := v\<rparr>)"
  "map_stat f s\<lparr>base_value := f v\<rparr> = map_stat f (s\<lparr>base_value := v\<rparr>)"
  by (simp_all add: map_stat_def)

lemma map_stat_comp: "map_stat f (map_stat g s) = map_stat (f \<circ> g) s"
  by (simp add: map_stat_def option.map_comp)

lemma guards_map:
  assumes "\<And>x y. f x < f y \<longleftrightarrow> x < y"
  shows "below_min (f v) (map_option f lo) = below_min v lo"
    and "above_max (f v) (map_option f hi) = above_max v hi"
  by (cases lo; cases hi; simp add: assms)+

lemma validate_current_value_map:
  assumes "\<And>x y. f x < f y \<longleftrightarrow> x < y"
  shows "validate_current_value (f v) (map_option f lo) (map_option f hi) =
    f (validate_current_value v lo hi)"
  by (cases lo; cases hi) (simp_all add: validate_current_value_def assms)

lemma assign_map:
  assumes "\<And>x y. f x < f y \<longleftrightarrow> x < y"
  shows "assign_current_value (f v) (map_stat f s) = map_stat f (assign_current_value v s)"
    and "assign_base_value (f v) (map_stat f s) = map_stat f (assign_base_value v s)"
  by (simp_all add: assign_current_value_def assign_base_value_def validate_base_value_eq
      validate_current_value_map [of f, OF assms])

lemma stat_step_map:
  assumes emb: "\<And>x y. f x < f y \<longleftrightarrow> x < y" and add: "additive f s x"
  shows "stat_step (map_stat f s) (map_stat_op f x) = map_stat f (stat_step s x)"
proof (cases x)
  case (Modify m)
  with add have "f (current_value s) + f m = f (current_value s + m)"
    by simp
  with Modify show ?thesis
    by (cases "min_value s"; cases "max_value s")
      (simp_all add: modify_value_def Let_def assign_map [of f, OF emb] emb)
next
  case (SetBase v)
  then show ?thesis
    by (cases "min_value s"; cases "max_value s")
      (simp_all add: set_base_value_def Let_def assign_map [of f, OF emb] emb)
qed (simp_all add: reset_to_base_def assign_map [of f, OF emb])

lemma stat_run_map:
  assumes "\<And>x y. f x < f y \<longleftrightarrow> x < y" and "additive_run f s xs"
  shows "stat_run (map_stat f s) (map (map_stat_op f) xs) = map_stat f (stat_run s xs)"
  using assms(2)
  by (induction xs arbitrary: s) (simp_all add: stat_step_map [of f, OF assms(1)])

lemma stat_inv_map:
  assumes "\<And>x y. f x < f y \<longleftrightarrow> x < y"
  shows "stat_inv (map_stat f s) = stat_inv s"
  by (simp add: stat_inv_def in_bounds_def guards_map [of f, OF assms])

lemma bounds_ok_map:
  assumes "\<And>x y. f x \<le> f y \<longleftrightarrow> x \<le> y"
  shows "bounds_ok (map_option f lo) (map_option f hi) = bounds_ok lo hi"
  by (cases lo; cases hi) (simp_all add: assms)

section \<open>The reals in the floats\<close>


lemma exact_run_simps [simp]:
  "exact_run s [] \<longleftrightarrow> True"
  "exact_run s (Modify m # xs) \<longleftrightarrow>
     float_round (current_value s + m) = Finite (current_value s + m) \<and>
     exact_run (snd (modify_value m s)) xs"
  "exact_run s (Reset # xs) \<longleftrightarrow> exact_run (reset_to_base s) xs"
  "exact_run s (SetBase v # xs) \<longleftrightarrow> exact_run (snd (set_base_value v s)) xs"
  "exact_run s (AssignCurrent v # xs) \<longleftrightarrow> exact_run (assign_current_value v s) xs"
  "exact_run s (AssignBase v # xs) \<longleftrightarrow> exact_run (assign_base_value v s) xs"
  by (auto simp: exact_run_def)

section \<open>The floats that are numbers in the floats\<close>

lemma Rep_nfloat_not_NaN [simp]: "Rep_nfloat x \<noteq> NaN"
  using Rep_nfloat [of x] by simp

lemma Rep_nfloat_less: "Rep_nfloat x < Rep_nfloat y \<longleftrightarrow> x < y"
  by (simp add: less_nfloat.rep_eq less_pyfloat_def)

lemma Rep_nfloat_le: "Rep_nfloat x \<le> Rep_nfloat y \<longleftrightarrow> x \<le> y"
  by (simp add: less_eq_nfloat.rep_eq less_eq_pyfloat_def)

lemma Rep_Abs_nfloat [simp]: "x \<noteq> NaN \<Longrightarrow> Rep_nfloat (Abs_nfloat x) = x"
  by (simp add: Abs_nfloat_inverse)

lemma Rep_Abs_option [simp]:
  "b \<noteq> Some NaN \<Longrightarrow> map_option (Rep_nfloat \<circ> Abs_nfloat) b = b"
  by (cases b) simp_all

lemma Rep_nfloat_plus:
  "is_finite (Rep_nfloat m) \<Longrightarrow> Rep_nfloat (c + m) = Rep_nfloat c + Rep_nfloat m"
  by (cases "Rep_nfloat c"; cases "Rep_nfloat m")
    (simp_all add: plus_nfloat.rep_eq plus_pyfloat_def is_finite_def)

lemma map_stat_Rep_Abs: "no_nan s \<Longrightarrow> map_stat Rep_nfloat (map_stat Abs_nfloat s) = s"
  by (simp add: map_stat_comp) (simp add: map_stat_def no_nan_def)

lemma map_stat_op_Rep_Abs:
  "number_op x \<Longrightarrow> map_stat_op Rep_nfloat (map_stat_op Abs_nfloat x) = x"
  by (cases x) (auto simp: is_finite_def split: pyfloat.splits)

lemma map_Rep_Abs:
  "list_all number_op xs \<Longrightarrow>
     map (map_stat_op Rep_nfloat \<circ> map_stat_op Abs_nfloat) xs = xs"
  by (induction xs) (simp_all add: map_stat_op_Rep_Abs)

lemma additive_run_Abs:
  "list_all number_op xs \<Longrightarrow> additive_run Rep_nfloat t (map (map_stat_op Abs_nfloat) xs)"
proof (induction xs arbitrary: t)
  case (Cons x xs)
  then show ?case
    by (cases x) (auto simp: Rep_nfloat_plus is_finite_def split: pyfloat.splits)
qed simp

lemma no_nan_map_Rep [simp]: "no_nan (map_stat Rep_nfloat t)"
  by (cases "min_value t"; cases "max_value t") (simp_all add: no_nan_def)

text \<open>
  A run of calls on a stat over the floats, with numbers everywhere, is the image of a run
  on the stat over the linear order \<open>nfloat\<close>.
\<close>

lemma stat_run_number:
  assumes "no_nan s" and "list_all number_op xs"
  shows "stat_run s xs =
    map_stat Rep_nfloat (stat_run (map_stat Abs_nfloat s) (map (map_stat_op Abs_nfloat) xs))"
  using stat_run_map [of Rep_nfloat "map_stat Abs_nfloat s" "map (map_stat_op Abs_nfloat) xs"]
  by (simp add: Rep_nfloat_less additive_run_Abs map_stat_Rep_Abs map_Rep_Abs assms)

lemma stat_inv_number:
  assumes "no_nan s" and "bounds_ok (min_value s) (max_value s)" and "stat_inv s"
  shows "stat_inv (map_stat Abs_nfloat s)"
    and "bounds_ok (min_value (map_stat Abs_nfloat s)) (max_value (map_stat Abs_nfloat s))"
proof -
  let ?t = "map_stat Abs_nfloat s"
  have s: "s = map_stat Rep_nfloat ?t"
    using assms(1) by (simp add: map_stat_Rep_Abs)
  from assms(3) show "stat_inv ?t"
    by (subst (asm) s) (simp add: stat_inv_map [of Rep_nfloat] Rep_nfloat_less)
  from assms(2) show "bounds_ok (min_value ?t) (max_value ?t)"
    by (subst (asm) (1 2) s) (simp add: bounds_ok_map [of Rep_nfloat] Rep_nfloat_le)
qed

text \<open>
  On numbers the guards of the code, which test \<^verbatim>\<open><\<close> and \<^verbatim>\<open>>\<close>, say the same as the bounds
  with \<^verbatim>\<open><=\<close>; on the value that is not a number both guards are false and both bounds fail.
\<close>

lemma not_less_iff_le:
  "x \<noteq> NaN \<Longrightarrow> y \<noteq> NaN \<Longrightarrow> \<not> x < y \<longleftrightarrow> y \<le> x" for x y :: pyfloat
  by (cases x; cases y) (auto simp: less_eq_pyfloat_iff)

lemma stat_inv_within:
  "no_nan s \<Longrightarrow> stat_inv s \<longleftrightarrow> within_bounds s"
  by (cases "min_value s"; cases "max_value s")
    (auto simp: no_nan_def stat_inv_def in_bounds_def within_bounds_def not_less_iff_le)

lemma number_stat_run:
  assumes "number_stat s" and "list_all number_op xs"
  shows "number_stat (stat_run s xs)"
proof -
  let ?t = "stat_run (map_stat Abs_nfloat s) (map (map_stat_op Abs_nfloat) xs)"
  from assms have s: "no_nan s" "bounds_ok (min_value s) (max_value s)" "stat_inv s"
    by (simp_all add: number_stat_def)
  have run: "stat_run s xs = map_stat Rep_nfloat ?t"
    using s(1) assms(2) by (rule stat_run_number)
  have "stat_inv ?t"
    using stat_inv_number(2,1) [OF s] by (rule stat_inv_run)
  then have "stat_inv (stat_run s xs)" and "no_nan (stat_run s xs)"
    by (simp_all add: run stat_inv_map [of Rep_nfloat] Rep_nfloat_less)
  with s(2) show ?thesis
    by (simp add: number_stat_def)
qed

lemma number_stat_step: "number_stat s \<Longrightarrow> number_op x \<Longrightarrow> number_stat (stat_step s x)"
  using number_stat_run [of s "[x]"] by simp

lemma number_stat_within: "number_stat s \<Longrightarrow> within_bounds s"
  using stat_inv_within [of s] by (simp add: number_stat_def)

section \<open>Not a number\<close>

lemma validate_current_value_NaN [simp]: "validate_current_value NaN lo hi = NaN"
  by (simp add: validate_current_value_def)

lemma modify_value_NaN:
  "modify_value NaN s = (NaN, s\<lparr>current_value := NaN\<rparr>)"
  by (simp add: modify_value_def assign_current_value_def Let_def)

lemma modify_value_from_NaN:
  "current_value s = NaN \<Longrightarrow> modify_value m s = (NaN, s)"
  by (simp add: modify_value_def assign_current_value_def Let_def)

lemma PosInf_greatest [simp]: "\<not> PosInf < y"
  by (cases y) simp_all

lemma NegInf_least [simp]: "\<not> x < NegInf"
  by (cases x) simp_all

lemma modify_value_overflow:
  assumes "max_value s = None" and "current_value s = Finite x" and "2 ^ 1024 \<le> x + m"
  shows "modify_value (Finite m) s = (PosInf, s\<lparr>current_value := PosInf\<rparr>)"
  using assms
  by (cases "min_value s")
    (simp_all add: modify_value_def assign_current_value_def validate_current_value_def
      Let_def float_round_overflow)

lemma modify_value_opposite_infinity:
  "current_value s = PosInf \<Longrightarrow> modify_value NegInf s = (NaN, s\<lparr>current_value := NaN\<rparr>)"
  by (simp add: modify_value_def assign_current_value_def Let_def)

section \<open>Properties\<close>



text \<open>
  C24 (a value that is not a number escapes the bounds). \<^verbatim>\<open>modify_value\<close> with a modifier
  that is not a number returns and stores that value whatever the bounds are, because
  both guards compare with it and every comparison with it is false. The stored value is
  neither at least the minimum nor at most the maximum, no later \<^verbatim>\<open>modify_value\<close> changes
  it, and the validator of an assignment lets it through as well.
\<close>

theorem nan_escapes_bounds:
  "modify_value NaN s = (NaN, s\<lparr>current_value := NaN\<rparr>) \<and>
   \<not> lo \<le> current_value (snd (modify_value NaN s)) \<and>
   \<not> current_value (snd (modify_value NaN s)) \<le> hi \<and>
   modify_value m (snd (modify_value NaN s)) = (NaN, snd (modify_value NaN s)) \<and>
   assign_current_value NaN s = s\<lparr>current_value := NaN\<rparr> \<and>
   assign_base_value NaN s = s\<lparr>base_value := NaN\<rparr>"
  by (simp add: modify_value_NaN modify_value_from_NaN assign_current_value_def
      assign_base_value_def validate_base_value_eq)

text \<open>
  C21 (invariant). A stat over the floats whose fields are numbers, whose bounds are in
  order and whose base and current value lie within them stays so and holds numbers
  only, under every sequence of \<^verbatim>\<open>modify_value\<close> with a finite modifier, \<^verbatim>\<open>reset_to_base\<close>,
  \<^verbatim>\<open>set_base_value\<close> and assignments of numbers, whatever the sums round to and also when
  they overflow; the bounds then hold as the guards of the code test them and with
  \<^verbatim>\<open><=\<close>, as spec 3 and 8 state them.
\<close>

theorem float_stats_keep_bounds:
  assumes "no_nan s" and "bounds_ok (min_value s) (max_value s)" and "stat_inv s"
    and "list_all number_op xs"
  shows "stat_inv (stat_run s xs) \<and> no_nan (stat_run s xs) \<and> within_bounds (stat_run s xs)"
  using number_stat_run [of s xs] number_stat_within [of "stat_run s xs"] assms
  by (simp add: number_stat_def)

theorem float_stats_keep_bounds_witness:
  "stat_inv (stat_run
     \<lparr>component_type = STAT, name = ''mana'', base_value = Finite 50, current_value = Finite 10,
      min_value = Some NegInf, max_value = Some (Finite 100), description = ''''\<rparr>
     [Modify (Finite (1 / 10)), AssignBase PosInf, Reset, SetBase NegInf, Modify (Finite (2 ^ 1023))]) \<and>
   within_bounds (stat_run
     \<lparr>component_type = STAT, name = ''mana'', base_value = Finite 50, current_value = Finite 10,
      min_value = Some NegInf, max_value = Some (Finite 100), description = ''''\<rparr>
     [Modify (Finite (1 / 10)), AssignBase PosInf, Reset, SetBase NegInf, Modify (Finite (2 ^ 1023))])"
  using float_stats_keep_bounds [of
      "\<lparr>component_type = STAT, name = ''mana'', base_value = Finite 50, current_value = Finite 10,
        min_value = Some NegInf, max_value = Some (Finite 100), description = ''''\<rparr>"
      "[Modify (Finite (1 / 10)), AssignBase PosInf, Reset, SetBase NegInf, Modify (Finite (2 ^ 1023))]"]
  by (simp add: no_nan_def stat_inv_def in_bounds_def is_finite_def less_eq_pyfloat_iff)

text \<open>
  C25 (error). The hypothesis on the modifiers is needed. On a stat with no upper bound a
  finite modifier makes the sum overflow to the positive infinity, which is stored; the
  modifier that is the negative infinity then gives the value that is not a number, which
  is stored whatever the lower bound is. No argument of the two calls is that value.
\<close>

theorem overflow_then_nan:
  assumes "max_value s = None" and "current_value s = Finite x" and "2 ^ 1024 \<le> x + m"
  shows "stat_run s [Modify (Finite m), Modify NegInf] = s\<lparr>current_value := NaN\<rparr> \<and>
    \<not> no_nan (stat_run s [Modify (Finite m), Modify NegInf])"
  using assms by (simp add: modify_value_overflow modify_value_opposite_infinity no_nan_def)

theorem overflow_then_nan_witness:
  "stat_run
     \<lparr>component_type = STAT, name = ''gold'', base_value = Finite 0,
      current_value = Finite (2 ^ 1023), min_value = Some (Finite 0), max_value = None,
      description = ''''\<rparr>
     [Modify (Finite (2 ^ 1023)), Modify NegInf] =
   \<lparr>component_type = STAT, name = ''gold'', base_value = Finite 0, current_value = NaN,
    min_value = Some (Finite 0), max_value = None, description = ''''\<rparr>"
  using overflow_then_nan [of
      "\<lparr>component_type = STAT, name = ''gold'', base_value = Finite 0,
        current_value = Finite (2 ^ 1023), min_value = Some (Finite 0), max_value = None,
        description = ''''\<rparr>" "2 ^ 1023" "2 ^ 1023"]
  by simp

end
