(* ===== verification/AW_Cell.thy ===== *)
theory AW_Cell
  imports AW_Component
begin

text \<open>
  \<^verbatim>\<open>InventoryCellComponent\<close>: one inventory cell that holds at most one kind of item up to
  a stack limit.

  Three mechanisms of the source change a cell, and they validate differently.
  Construction validates the fields in declaration order and then runs the model
  validator; the quantity is validated before \<^verbatim>\<open>max_stack_size\<close>, so its validator finds no
  stack size in \<^verbatim>\<open>validation_info.data\<close> and falls back to the default \<open>1\<close>. An
  assignment validates the assigned field against the other fields of the object and then
  runs the model validator. \<^verbatim>\<open>add_items\<close> and \<^verbatim>\<open>remove_items\<close> write through
  \<^verbatim>\<open>model_copy(update=...)\<close>, which validates nothing. Quantities and amounts are Python
  integers, hence \<open>int\<close>.
\<close>

section \<open>State\<close>

record InventoryCellComponent = ComponentModel +
  item_id :: "string option"
  quantity :: int
  max_stack_size :: int
  slot_type :: "string option"
  is_equipped :: bool

type_synonym cell = InventoryCellComponent

section \<open>Validators\<close>

text \<open>
  \<^verbatim>\<open>validate_quantity\<close>; the second argument is \<^verbatim>\<open>data.get("max_stack_size")\<close>, \<open>None\<close>
  when the entry is absent.
\<close>

definition validate_quantity :: "int \<Rightarrow> int option \<Rightarrow> int" where
  "validate_quantity q data_max_stack_size =
     (let max_stack = (case data_max_stack_size of None \<Rightarrow> 1 | Some m \<Rightarrow> m)
      in if q > max_stack then max_stack else q)"

definition validate_item_id_and_quantity :: "cell \<Rightarrow> cell result" where
  "validate_item_id_and_quantity c =
     (if quantity c > 0 then
        (if item_id c = None then Inl QuantityWithoutItem else Inr c)
      else if item_id c \<noteq> None then Inr (c\<lparr>item_id := None\<rparr>)
      else Inr c)"

section \<open>Construction and assignment\<close>

text \<open>
  \<^verbatim>\<open>InventoryCellComponent(item_id=.., quantity=.., max_stack_size=.., slot_type=..,
  is_equipped=..)\<close>; an absent keyword is \<open>None\<close> and takes the declared default.
\<close>

definition InventoryCellComponent_init ::
  "string option \<Rightarrow> int option \<Rightarrow> int option \<Rightarrow> string option \<Rightarrow> bool option \<Rightarrow> cell result" where
  "InventoryCellComponent_init iid q mss st eq =
     bind_result
       (case q of None \<Rightarrow> Inr 0
        | Some v \<Rightarrow> bind_result (check_ge ''quantity'' 0 v) (\<lambda>v. Inr (validate_quantity v None)))
       (\<lambda>q'. bind_result
          (case mss of None \<Rightarrow> Inr 1 | Some m \<Rightarrow> check_ge ''max_stack_size'' 1 m)
          (\<lambda>mss'. validate_item_id_and_quantity
             \<lparr>component_type = INVENTORY, item_id = iid, quantity = q', max_stack_size = mss',
              slot_type = st, is_equipped = (case eq of None \<Rightarrow> False | Some b \<Rightarrow> b)\<rparr>))"

definition assign_quantity :: "int \<Rightarrow> cell \<Rightarrow> cell result" where
  "assign_quantity v c =
     bind_result (check_ge ''quantity'' 0 v)
       (\<lambda>v. validate_item_id_and_quantity
          (c\<lparr>quantity := validate_quantity v (Some (max_stack_size c))\<rparr>))"

definition assign_item_id :: "string option \<Rightarrow> cell \<Rightarrow> cell result" where
  "assign_item_id v c = validate_item_id_and_quantity (c\<lparr>item_id := v\<rparr>)"

definition assign_max_stack_size :: "int \<Rightarrow> cell \<Rightarrow> cell result" where
  "assign_max_stack_size v c =
     bind_result (check_ge ''max_stack_size'' 1 v)
       (\<lambda>v. validate_item_id_and_quantity (c\<lparr>max_stack_size := v\<rparr>))"

section \<open>Operations\<close>

definition is_empty :: "cell \<Rightarrow> bool" where
  "is_empty c \<longleftrightarrow> quantity c = 0 \<or> item_id c = None"

definition is_full :: "cell \<Rightarrow> bool" where
  "is_full c \<longleftrightarrow> quantity c \<ge> max_stack_size c"

definition add_items :: "string \<Rightarrow> int \<Rightarrow> cell \<Rightarrow> int \<times> cell" where
  "add_items iid add_quantity c =
     (if add_quantity \<le> 0 then (0, c)
      else if \<not> is_empty c \<and> item_id c \<noteq> Some iid then (0, c)
      else
        (let available_space = max_stack_size c - quantity c;
             actual_add = min add_quantity available_space
         in (actual_add, c\<lparr>item_id := Some iid, quantity := quantity c + actual_add\<rparr>)))"

definition remove_items :: "int \<Rightarrow> cell \<Rightarrow> int \<times> cell" where
  "remove_items remove_quantity c =
     (if remove_quantity \<le> 0 \<or> is_empty c then (0, c)
      else
        (let actual_remove = min remove_quantity (quantity c);
             new_quantity = quantity c - actual_remove
         in (actual_remove,
             if new_quantity = 0 then c\<lparr>quantity := new_quantity, item_id := None\<rparr>
             else c\<lparr>quantity := new_quantity\<rparr>)))"

definition clear_slot :: "cell \<Rightarrow> (int \<times> cell) result" where
  "clear_slot c =
     (let previous_quantity = quantity c
      in bind_result (assign_quantity 0 c)
           (\<lambda>c. bind_result (assign_item_id None c)
              (\<lambda>c. Inr (previous_quantity, c))))"

section \<open>Operation sequences\<close>

text \<open>
  The calls of spec section 8 (``all sequences of add/remove calls''), with
  \<^verbatim>\<open>clear_slot\<close>, as a datatype, and the run of a list of calls.
\<close>

datatype cell_op =
    AddItems string int
  | RemoveItems int
  | ClearSlot

fun cell_step :: "cell \<Rightarrow> cell_op \<Rightarrow> cell" where
  "cell_step c (AddItems iid n) = snd (add_items iid n c)"
| "cell_step c (RemoveItems n) = snd (remove_items n c)"
| "cell_step c ClearSlot = (case clear_slot c of Inl e \<Rightarrow> c | Inr (n, c') \<Rightarrow> c')"

fun cell_run :: "cell \<Rightarrow> cell_op list \<Rightarrow> cell" where
  "cell_run c [] = c"
| "cell_run c (x # xs) = cell_run (cell_step c x) xs"

section \<open>Specification\<close>

text \<open>
  The invariant of spec section 3: a stack limit of at least one, a quantity between zero
  and the limit, and an item identity exactly when the quantity is positive.
  \<open>holds iid c\<close> says that the cell stores items of kind \<open>iid\<close>; \<open>space_for iid c\<close> is
  the number of items of that kind the cell still accepts.
\<close>

definition cell_inv :: "cell \<Rightarrow> bool" where
  "cell_inv c \<longleftrightarrow>
     1 \<le> max_stack_size c \<and> 0 \<le> quantity c \<and> quantity c \<le> max_stack_size c \<and>
     (0 < quantity c) = (item_id c \<noteq> None)"

definition holds :: "string \<Rightarrow> cell \<Rightarrow> bool" where
  "holds iid c \<longleftrightarrow> \<not> is_empty c \<and> item_id c = Some iid"

definition space_for :: "string \<Rightarrow> cell \<Rightarrow> int" where
  "space_for iid c =
     (if is_empty c \<or> item_id c = Some iid then max_stack_size c - quantity c else 0)"

text \<open>The number of items of kind \<open>iid\<close> that the cell contributes to a count.\<close>

definition count_of :: "string \<Rightarrow> cell \<Rightarrow> int" where
  "count_of iid c = (if holds iid c then quantity c else 0)"

lemmas cell_op_defs [aw_defs] =
  validate_quantity_def validate_item_id_and_quantity_def InventoryCellComponent_init_def
  assign_quantity_def assign_item_id_def assign_max_stack_size_def
  is_empty_def is_full_def add_items_def remove_items_def clear_slot_def
  cell_inv_def holds_def space_for_def count_of_def check_ge_def bind_result_def

section \<open>Emptiness\<close>

lemma cell_inv_is_empty: "cell_inv c \<Longrightarrow> is_empty c \<longleftrightarrow> quantity c = 0"
  by (auto simp: cell_inv_def is_empty_def)

lemma cell_inv_is_empty_item: "cell_inv c \<Longrightarrow> is_empty c \<longleftrightarrow> item_id c = None"
  by (auto simp: cell_inv_def is_empty_def)

lemma holds_not_empty: "holds iid c \<Longrightarrow> \<not> is_empty c"
  by (simp add: holds_def)

lemma holds_unique: "holds iid c \<Longrightarrow> holds iid' c \<Longrightarrow> iid = iid'"
  by (simp add: holds_def)

lemma space_for_nonneg: "cell_inv c \<Longrightarrow> 0 \<le> space_for iid c"
  by (simp add: space_for_def cell_inv_def)

lemma space_for_empty: "cell_inv c \<Longrightarrow> is_empty c \<Longrightarrow> space_for iid c = max_stack_size c"
  by (simp add: space_for_def cell_inv_is_empty)

section \<open>Validators, construction and assignment\<close>

lemma validate_item_id_and_quantity_fixpoint:
  "validate_item_id_and_quantity c = Inr c' \<Longrightarrow> validate_item_id_and_quantity c' = Inr c'"
  by (auto simp: validate_item_id_and_quantity_def split: if_splits)

lemma validate_item_id_and_quantity_inv:
  assumes "validate_item_id_and_quantity c = Inr c'"
    and "1 \<le> max_stack_size c" and "0 \<le> quantity c" and "quantity c \<le> max_stack_size c"
  shows "cell_inv c'"
  using assms by (auto simp: validate_item_id_and_quantity_def cell_inv_def split: if_splits)

lemma validate_quantity_le: "validate_quantity q (Some m) \<le> m" "validate_quantity q None \<le> 1"
  by (simp_all add: validate_quantity_def)

lemma validate_quantity_nonneg:
  "0 \<le> q \<Longrightarrow> 0 \<le> m \<Longrightarrow> 0 \<le> validate_quantity q (Some m)"
  "0 \<le> q \<Longrightarrow> 0 \<le> validate_quantity q None"
  by (simp_all add: validate_quantity_def)

lemma InventoryCellComponent_init_default:
  "1 \<le> m \<Longrightarrow> InventoryCellComponent_init None None (Some m) None None =
     Inr \<lparr>component_type = INVENTORY, item_id = None, quantity = 0, max_stack_size = m,
          slot_type = None, is_equipped = False\<rparr>"
  by (simp add: InventoryCellComponent_init_def validate_item_id_and_quantity_def)

lemma InventoryCellComponent_init_bad_stack:
  "m < 1 \<Longrightarrow> InventoryCellComponent_init None None (Some m) None None =
     Inl (ConstraintViolation ''max_stack_size'')"
  by (simp add: InventoryCellComponent_init_def)

lemma clear_slot_eq:
  "clear_slot c =
     Inr (quantity c, c\<lparr>quantity := (if 0 > max_stack_size c then max_stack_size c else 0),
                        item_id := None\<rparr>)"
  by (simp add: clear_slot_def assign_quantity_def assign_item_id_def validate_quantity_def
      validate_item_id_and_quantity_def Let_def)

lemma clear_slot_inv_eq:
  "1 \<le> max_stack_size c \<Longrightarrow> clear_slot c = Inr (quantity c, c\<lparr>quantity := 0, item_id := None\<rparr>)"
  by (simp add: clear_slot_eq)

section \<open>Frame\<close>

lemma add_items_frame [aw_frame, simp]:
  "max_stack_size (snd (add_items iid n c)) = max_stack_size c"
  "slot_type (snd (add_items iid n c)) = slot_type c"
  "is_equipped (snd (add_items iid n c)) = is_equipped c"
  "component_type (snd (add_items iid n c)) = component_type c"
  by (simp_all add: add_items_def Let_def)

lemma remove_items_frame [aw_frame, simp]:
  "max_stack_size (snd (remove_items n c)) = max_stack_size c"
  "slot_type (snd (remove_items n c)) = slot_type c"
  "is_equipped (snd (remove_items n c)) = is_equipped c"
  "component_type (snd (remove_items n c)) = component_type c"
  by (simp_all add: remove_items_def Let_def)

section \<open>Adding\<close>

lemma add_items_nonpositive [simp]: "n \<le> 0 \<Longrightarrow> add_items iid n c = (0, c)"
  by (simp add: add_items_def)

lemma add_items_other_item:
  "\<not> is_empty c \<Longrightarrow> item_id c \<noteq> Some iid \<Longrightarrow> add_items iid n c = (0, c)"
  by (simp add: add_items_def)

lemma add_items_amount:
  assumes "cell_inv c"
  shows "fst (add_items iid n c) = (if 0 < n then min n (space_for iid c) else 0)"
  using assms by (auto simp: add_items_def space_for_def cell_inv_def is_empty_def Let_def)

lemma add_items_quantity:
  "quantity (snd (add_items iid n c)) = quantity c + fst (add_items iid n c)"
  by (simp add: add_items_def Let_def)

lemma add_items_bounds:
  assumes "cell_inv c"
  shows "0 \<le> fst (add_items iid n c)" and "fst (add_items iid n c) \<le> max 0 n"
  using assms space_for_nonneg [OF assms, of iid] by (simp_all add: add_items_amount)

lemma add_items_item_id:
  assumes "cell_inv c"
  shows "item_id (snd (add_items iid n c)) =
    (if 0 < n \<and> is_empty c then Some iid else item_id c)"
  using assms by (auto simp: add_items_def cell_inv_def is_empty_def Let_def)

lemma add_items_inv:
  assumes "cell_inv c"
  shows "cell_inv (snd (add_items iid n c))"
  using assms by (auto simp: add_items_def cell_inv_def is_empty_def Let_def)

lemma add_items_into_empty:
  assumes "cell_inv c" and "is_empty c" and "0 < n"
  shows "fst (add_items iid n c) = min n (max_stack_size c)"
    and "0 < fst (add_items iid n c)"
    and "holds iid (snd (add_items iid n c))"
  using assms
  by (auto simp: add_items_def cell_inv_def is_empty_def holds_def Let_def)

lemma add_items_space:
  assumes "cell_inv c"
  shows "space_for iid (snd (add_items iid n c)) = space_for iid c - fst (add_items iid n c)"
  using assms
  by (auto simp: add_items_def cell_inv_def is_empty_def space_for_def Let_def)

lemma add_items_holds_other:
  assumes "iid' \<noteq> iid"
  shows "holds iid' (snd (add_items iid n c)) \<longleftrightarrow> holds iid' c"
  using assms by (auto simp: add_items_def holds_def is_empty_def Let_def)

lemma add_items_count_of:
  assumes "cell_inv c"
  shows "count_of iid (snd (add_items iid n c)) = count_of iid c + fst (add_items iid n c)"
  using assms
  by (auto simp: add_items_def cell_inv_def is_empty_def holds_def count_of_def Let_def)

lemma add_items_count_of_other:
  assumes "cell_inv c" and "iid' \<noteq> iid"
  shows "count_of iid' (snd (add_items iid n c)) = count_of iid' c"
  using assms
  by (auto simp: add_items_def cell_inv_def is_empty_def holds_def count_of_def Let_def)

lemma add_items_space_other:
  assumes "cell_inv c" and "iid' \<noteq> iid"
  shows "space_for iid' (snd (add_items iid n c)) =
    (if is_empty c \<and> 0 < n then 0 else space_for iid' c)"
  using assms
  by (auto simp: add_items_def cell_inv_def is_empty_def space_for_def Let_def)

lemma add_items_is_empty:
  assumes "cell_inv c"
  shows "is_empty (snd (add_items iid n c)) \<longleftrightarrow> is_empty c \<and> n \<le> 0"
  using assms by (auto simp: add_items_def cell_inv_def is_empty_def Let_def)

lemma add_items_holds:
  assumes "cell_inv c"
  shows "holds iid (snd (add_items iid n c)) \<longleftrightarrow> holds iid c \<or> (is_empty c \<and> 0 < n)"
  using assms by (auto simp: add_items_def cell_inv_def is_empty_def holds_def Let_def)

lemma add_items_partial_full:
  assumes "cell_inv c" and "holds iid c \<or> is_empty c" and "fst (add_items iid n c) < n"
  shows "is_full (snd (add_items iid n c))"
  using assms
  by (auto simp: add_items_def cell_inv_def is_empty_def holds_def is_full_def Let_def
      split: if_splits)

lemma add_items_full_id:
  assumes "cell_inv c" and "is_full c"
  shows "add_items iid n c = (0, c)"
proof -
  from assms have q: "quantity c = max_stack_size c" "item_id c \<noteq> None" "0 < quantity c"
    by (auto simp: cell_inv_def is_full_def)
  show ?thesis
  proof (cases "0 < n \<and> item_id c = Some iid")
    case True
    then have "c\<lparr>item_id := Some iid, quantity := quantity c\<rparr> = c" by simp
    with True q show ?thesis by (simp add: add_items_def is_empty_def Let_def)
  next
    case False
    with q show ?thesis by (auto simp: add_items_def is_empty_def Let_def)
  qed
qed

lemma holds_count_of: "holds iid c \<Longrightarrow> count_of iid c = quantity c"
  by (simp add: count_of_def)

lemma empty_count_of: "is_empty c \<Longrightarrow> count_of iid c = 0"
  by (simp add: count_of_def holds_def)

lemma count_of_nonneg: "cell_inv c \<Longrightarrow> 0 \<le> count_of iid c"
  by (simp add: count_of_def cell_inv_def)

lemma full_space_for: "cell_inv c \<Longrightarrow> is_full c \<Longrightarrow> space_for iid c = 0"
  by (auto simp: space_for_def cell_inv_def is_full_def)

lemma other_space_for: "\<not> is_empty c \<Longrightarrow> \<not> holds iid c \<Longrightarrow> space_for iid c = 0"
  by (auto simp: space_for_def holds_def)

section \<open>Removing\<close>

lemma remove_items_amount:
  assumes "cell_inv c"
  shows "fst (remove_items n c) = (if 0 < n then min n (quantity c) else 0)"
  using assms by (auto simp: remove_items_def cell_inv_def is_empty_def Let_def)

lemma remove_items_quantity:
  "quantity (snd (remove_items n c)) = quantity c - fst (remove_items n c)"
  by (simp add: remove_items_def Let_def)

lemma remove_items_item_id:
  assumes "cell_inv c"
  shows "item_id (snd (remove_items n c)) =
    (if 0 < n \<and> quantity c \<le> n then None else item_id c)"
  using assms by (auto simp: remove_items_def cell_inv_def is_empty_def Let_def)

lemma remove_items_inv:
  assumes "cell_inv c"
  shows "cell_inv (snd (remove_items n c))"
  using assms by (auto simp: remove_items_def cell_inv_def is_empty_def Let_def)

lemma remove_items_count_of:
  assumes "cell_inv c" and "holds iid c"
  shows "count_of iid (snd (remove_items n c)) = count_of iid c - fst (remove_items n c)"
  using assms
  by (auto simp: remove_items_def cell_inv_def is_empty_def holds_def count_of_def Let_def)

lemma remove_items_count_of_other:
  assumes "cell_inv c" and "holds iid c" and "iid' \<noteq> iid"
  shows "count_of iid' (snd (remove_items n c)) = 0" and "count_of iid' c = 0"
  using assms
  by (auto simp: remove_items_def cell_inv_def is_empty_def holds_def count_of_def Let_def)

section \<open>Runs\<close>

lemma cell_inv_step:
  assumes "cell_inv c"
  shows "cell_inv (cell_step c x)"
proof (cases x)
  case (AddItems iid n)
  with assms show ?thesis by (simp add: add_items_inv)
next
  case (RemoveItems n)
  with assms show ?thesis by (simp add: remove_items_inv)
next
  case ClearSlot
  with assms show ?thesis by (simp add: clear_slot_eq cell_inv_def)
qed

lemma cell_inv_run: "cell_inv c \<Longrightarrow> cell_inv (cell_run c xs)"
  by (induction xs arbitrary: c) (simp_all add: cell_inv_step)

lemma cell_step_max_stack_size [aw_frame, simp]:
  "1 \<le> max_stack_size c \<Longrightarrow> max_stack_size (cell_step c x) = max_stack_size c"
  by (cases x) (simp_all add: clear_slot_eq)

lemma cell_step_component_type [aw_frame, simp]:
  "component_type (cell_step c x) = component_type c"
  by (cases x) (simp_all add: add_items_def remove_items_def clear_slot_eq Let_def)

lemma cell_run_component_type [aw_frame, simp]:
  "component_type (cell_run c xs) = component_type c"
  by (induction xs arbitrary: c) simp_all

section \<open>Construction\<close>

lemma InventoryCellComponent_init_eq:
  "InventoryCellComponent_init iid q mss st eq =
     (let q' = (case q of None \<Rightarrow> 0 | Some v \<Rightarrow> v); m = (case mss of None \<Rightarrow> 1 | Some m \<Rightarrow> m)
      in if q' < 0 then Inl (ConstraintViolation ''quantity'')
         else if m < 1 then Inl (ConstraintViolation ''max_stack_size'')
         else if 0 < q' \<and> iid = None then Inl QuantityWithoutItem
         else Inr \<lparr>component_type = INVENTORY, item_id = (if q' = 0 then None else iid),
                   quantity = min q' 1, max_stack_size = m, slot_type = st,
                   is_equipped = (case eq of None \<Rightarrow> False | Some b \<Rightarrow> b)\<rparr>)"
  by (cases q; cases mss)
     (auto simp: InventoryCellComponent_init_def validate_quantity_def check_ge_def
       validate_item_id_and_quantity_def Let_def min_def)

lemma InventoryCellComponent_init_inv:
  "InventoryCellComponent_init iid q mss st eq = Inr c \<Longrightarrow> cell_inv c"
  by (auto simp: InventoryCellComponent_init_eq Let_def cell_inv_def min_def
      split: if_splits option.splits)

section \<open>Properties\<close>

text \<open>
  C6 (cell invariant under every sequence of calls). From a well-formed cell, after every
  sequence of \<^verbatim>\<open>add_items\<close>, \<^verbatim>\<open>remove_items\<close> and \<^verbatim>\<open>clear_slot\<close> calls the quantity lies
  between zero and the stack limit, it is zero exactly when the cell has no item, and the
  stack limit is the one the cell started with.
\<close>

theorem cell_run_keeps_invariant:
  assumes "cell_inv c"
  shows "0 \<le> quantity (cell_run c xs) \<and> quantity (cell_run c xs) \<le> max_stack_size c \<and>
    (quantity (cell_run c xs) = 0 \<longleftrightarrow> item_id (cell_run c xs) = None) \<and>
    max_stack_size (cell_run c xs) = max_stack_size c"
proof -
  have m: "max_stack_size (cell_run c xs) = max_stack_size c" if "cell_inv c" for c
    using that
  proof (induction xs arbitrary: c)
    case (Cons x xs)
    from Cons.prems have "cell_inv (cell_step c x)" by (rule cell_inv_step)
    with Cons.IH [of "cell_step c x"] Cons.prems show ?case by (simp add: cell_inv_def)
  qed simp
  from cell_inv_run [OF assms, of xs] m [OF assms] show ?thesis by (auto simp: cell_inv_def)
qed

theorem cell_run_keeps_invariant_witness:
  "quantity (cell_run
      \<lparr>component_type = INVENTORY, item_id = None, quantity = 0, max_stack_size = 5,
       slot_type = None, is_equipped = False\<rparr>
      [AddItems ''potion'' 3, AddItems ''potion'' 5, RemoveItems 4, AddItems ''sword'' 1]) \<le> 5"
  using cell_run_keeps_invariant [of
      "\<lparr>component_type = INVENTORY, item_id = None, quantity = 0, max_stack_size = 5,
       slot_type = None, is_equipped = False\<rparr>"
      "[AddItems ''potion'' 3, AddItems ''potion'' 5, RemoveItems 4, AddItems ''sword'' 1]"]
  by (simp add: cell_inv_def)

text \<open>
  C7 (contract of \<^verbatim>\<open>add_items\<close>). On a well-formed cell \<^verbatim>\<open>add_items\<close> returns the smaller
  of the quantity and the space the cell has for the kind (none when it holds another kind),
  and nothing for a quantity that is not positive; the new cell has that much more, holds the
  kind when something was added, and is full when less than the quantity was added to a
  cell that takes the kind.
\<close>

theorem add_items_contract:
  assumes "cell_inv c"
  shows "fst (add_items iid n c) = (if 0 < n then min n (space_for iid c) else 0) \<and>
    quantity (snd (add_items iid n c)) = quantity c + fst (add_items iid n c) \<and>
    (0 < fst (add_items iid n c) \<longrightarrow> item_id (snd (add_items iid n c)) = Some iid) \<and>
    (fst (add_items iid n c) < n \<and> (is_empty c \<or> item_id c = Some iid) \<longrightarrow>
       is_full (snd (add_items iid n c))) \<and>
    cell_inv (snd (add_items iid n c))"
  using assms
  by (auto simp: add_items_def space_for_def cell_inv_def is_empty_def is_full_def Let_def)

theorem add_items_contract_witness:
  "fst (add_items ''potion'' 5
      \<lparr>component_type = INVENTORY, item_id = Some ''potion'', quantity = 3, max_stack_size = 5,
       slot_type = None, is_equipped = False\<rparr>) = 2 \<and>
   is_full (snd (add_items ''potion'' 5
      \<lparr>component_type = INVENTORY, item_id = Some ''potion'', quantity = 3, max_stack_size = 5,
       slot_type = None, is_equipped = False\<rparr>))"
  using add_items_contract [of
      "\<lparr>component_type = INVENTORY, item_id = Some ''potion'', quantity = 3, max_stack_size = 5,
       slot_type = None, is_equipped = False\<rparr>" "''potion''" 5]
  by (simp add: cell_inv_def space_for_def is_empty_def)

text \<open>
  On a well-formed cell \<^verbatim>\<open>remove_items\<close> returns the
  smaller of the quantity asked for and the quantity stored, and nothing for a quantity
  that is not positive; the new cell has that much less, and has no item once its quantity
  is zero.
\<close>

theorem remove_items_contract:
  assumes "cell_inv c"
  shows "fst (remove_items n c) = (if 0 < n then min n (quantity c) else 0) \<and>
    quantity (snd (remove_items n c)) = quantity c - fst (remove_items n c) \<and>
    (quantity (snd (remove_items n c)) = 0 \<longleftrightarrow> item_id (snd (remove_items n c)) = None) \<and>
    cell_inv (snd (remove_items n c))"
  using assms remove_items_inv [OF assms, of n]
  by (auto simp: remove_items_amount remove_items_quantity cell_inv_def)

theorem remove_items_contract_witness:
  "fst (remove_items 4
      \<lparr>component_type = INVENTORY, item_id = Some ''sword'', quantity = 1, max_stack_size = 5,
       slot_type = None, is_equipped = False\<rparr>) = 1 \<and>
   item_id (snd (remove_items 4
      \<lparr>component_type = INVENTORY, item_id = Some ''sword'', quantity = 1, max_stack_size = 5,
       slot_type = None, is_equipped = False\<rparr>)) = None"
proof -
  have "cell_inv \<lparr>component_type = INVENTORY, item_id = Some ''sword'', quantity = 1,
      max_stack_size = 5, slot_type = None, is_equipped = False\<rparr>"
    by (simp add: cell_inv_def)
  from remove_items_contract [OF this, of 4] show ?thesis by auto
qed

text \<open>
  The constructor rejects a negative quantity, a stack limit
  below one and a positive quantity without an item, and otherwise builds a well-formed cell.
  The quantity it stores is the given one clamped to 1, whatever the stack limit given with
  it: when the quantity is validated the stack limit is not yet known and the validator
  falls back to 1.
\<close>

theorem InventoryCellComponent_init_clamps_to_one:
  assumes "InventoryCellComponent_init iid (Some q) (Some m) st eq = Inr c"
  shows "quantity c = min q 1 \<and> max_stack_size c = m \<and> 0 \<le> q \<and> 1 \<le> m \<and> cell_inv c"
  using assms InventoryCellComponent_init_inv [OF assms]
  by (auto simp: InventoryCellComponent_init_eq Let_def split: if_splits)

theorem InventoryCellComponent_init_clamps_to_one_witness:
  "InventoryCellComponent_init (Some ''potion'') (Some 3) (Some 5) None None =
     Inr \<lparr>component_type = INVENTORY, item_id = Some ''potion'', quantity = 1,
          max_stack_size = 5, slot_type = None, is_equipped = False\<rparr> \<and>
   (1::int) = min 3 1"
  using InventoryCellComponent_init_clamps_to_one [of "Some ''potion''" 3 5 None None
      "\<lparr>component_type = INVENTORY, item_id = Some ''potion'', quantity = 1,
          max_stack_size = 5, slot_type = None, is_equipped = False\<rparr>"]
  by (simp add: InventoryCellComponent_init_eq)

text \<open>
  Which exception the constructor raises: the constraint
  violation of \<^verbatim>\<open>quantity\<close> for a negative quantity, that of \<^verbatim>\<open>max_stack_size\<close> for a
  stack limit below one, and the error of the model validator for a positive quantity
  without an item; in every other case it returns.
\<close>

theorem InventoryCellComponent_init_errors:
  "(\<exists>c. InventoryCellComponent_init iid q mss st eq = Inr c) \<longleftrightarrow>
     0 \<le> (case q of None \<Rightarrow> 0 | Some v \<Rightarrow> v) \<and> 1 \<le> (case mss of None \<Rightarrow> 1 | Some m \<Rightarrow> m) \<and>
     ((case q of None \<Rightarrow> 0 | Some v \<Rightarrow> v) = 0 \<or> iid \<noteq> None)"
  by (auto simp: InventoryCellComponent_init_eq Let_def split: option.splits)

theorem InventoryCellComponent_init_errors_witness:
  "(\<exists>c. InventoryCellComponent_init None (Some 2) (Some 5) None None = Inr c) = False"
  using InventoryCellComponent_init_errors [of None "Some 2" "Some 5" None None] by simp

text \<open>
  \<^verbatim>\<open>clear_slot\<close> never raises, returns the quantity the cell had, and
  leaves a well-formed cell empty with its stack limit.
\<close>

theorem clear_slot_empties:
  assumes "cell_inv c"
  shows "clear_slot c = Inr (quantity c, c\<lparr>quantity := 0, item_id := None\<rparr>) \<and>
    is_empty (c\<lparr>quantity := 0, item_id := None\<rparr>) \<and> cell_inv (c\<lparr>quantity := 0, item_id := None\<rparr>)"
  using assms by (simp add: clear_slot_inv_eq cell_inv_def is_empty_def)

theorem clear_slot_empties_witness:
  "clear_slot \<lparr>component_type = INVENTORY, item_id = Some ''sword'', quantity = 1,
       max_stack_size = 5, slot_type = None, is_equipped = False\<rparr> =
     Inr (1, \<lparr>component_type = INVENTORY, item_id = None, quantity = 0,
       max_stack_size = 5, slot_type = None, is_equipped = False\<rparr>)"
  using clear_slot_empties [of
      "\<lparr>component_type = INVENTORY, item_id = Some ''sword'', quantity = 1,
       max_stack_size = 5, slot_type = None, is_equipped = False\<rparr>"]
  by (simp add: cell_inv_def)

section \<open>Assigning the quantity and the item\<close>

lemma assign_quantity_eq:
  assumes "cell_inv c"
  shows "assign_quantity v c =
    (if v < 0 then Inl (ConstraintViolation ''quantity'')
     else if v = 0 then Inr (c\<lparr>quantity := 0, item_id := None\<rparr>)
     else if item_id c = None then Inl QuantityWithoutItem
     else Inr (c\<lparr>quantity := min v (max_stack_size c)\<rparr>))"
  using assms
  by (cases c)
    (auto simp: assign_quantity_def validate_quantity_def validate_item_id_and_quantity_def
      cell_inv_def min_def)

lemma assign_item_id_eq:
  assumes "cell_inv c"
  shows "assign_item_id v c =
    (if quantity c = 0 then Inr c
     else if v = None then Inl QuantityWithoutItem
     else Inr (c\<lparr>item_id := v\<rparr>))"
  using assms
  by (cases c) (auto simp: assign_item_id_def validate_item_id_and_quantity_def cell_inv_def)

lemma cell_inv_assign_quantity:
  assumes "cell_inv c" and "assign_quantity v c = Inr c'"
  shows "cell_inv c'"
  using assms by (auto simp: assign_quantity_eq cell_inv_def split: if_splits)

lemma cell_inv_assign_item_id:
  assumes "cell_inv c" and "assign_item_id v c = Inr c'"
  shows "cell_inv c'"
  using assms by (auto simp: assign_item_id_eq cell_inv_def split: if_splits)

lemma empty_cell_assignments:
  assumes "cell_inv c" and "is_empty c"
  shows "assign_item_id v c = Inr c"
    and "0 < q \<Longrightarrow> assign_quantity q c = Inl QuantityWithoutItem"
    and "0 < q \<Longrightarrow> add_items iid q c =
      (min q (max_stack_size c), c\<lparr>item_id := Some iid, quantity := min q (max_stack_size c)\<rparr>)"
  using assms cell_inv_is_empty [OF assms(1)] cell_inv_is_empty_item [OF assms(1)]
  by (simp_all add: assign_item_id_eq assign_quantity_eq add_items_def Let_def)

text \<open>
  An empty cell is not filled by assignments: an assignment to \<^verbatim>\<open>item_id\<close> is undone by
  the model validator, which clears the item of a cell without quantity, and an assignment
  of a positive quantity raises, for want of an item. \<^verbatim>\<open>add_items\<close> fills the cell because
  it writes both fields at once through \<^verbatim>\<open>model_copy\<close>, which validates nothing.
\<close>

theorem empty_cell_rejects_assignments:
  assumes "cell_inv c" and "is_empty c" and "0 < q"
  shows "assign_item_id (Some iid) c = Inr c \<and>
    assign_quantity q c = Inl QuantityWithoutItem \<and>
    add_items iid q c =
      (min q (max_stack_size c), c\<lparr>item_id := Some iid, quantity := min q (max_stack_size c)\<rparr>)"
  using empty_cell_assignments [OF assms(1,2)] assms(3) by simp

section \<open>Assigning the stack limit\<close>

lemma assign_max_stack_size_Inr:
  assumes "cell_inv c" and "1 \<le> v"
  shows "assign_max_stack_size v c = Inr (c\<lparr>max_stack_size := v\<rparr>)"
  using assms by (auto simp: assign_max_stack_size_def validate_item_id_and_quantity_def cell_inv_def)

text \<open>
  C34 (a stack limit below the quantity). The assignment \<^verbatim>\<open>cell.max_stack_size = v\<close> checks
  that \<open>v\<close> is at least one and nothing else. On a well-formed cell that holds more than
  \<open>v\<close> items it succeeds and leaves a cell whose quantity exceeds its limit; on that cell
  \<^verbatim>\<open>add_items\<close> of the same kind returns a negative number and takes that many items away,
  down to the limit.
\<close>

theorem assign_max_stack_size_breaks_inv:
  assumes "cell_inv c" and "1 \<le> v" and "v < quantity c" and "item_id c = Some iid" and "0 < n"
  shows "\<exists>c'. assign_max_stack_size v c = Inr c' \<and> \<not> cell_inv c' \<and>
    add_items iid n c' = (v - quantity c, c'\<lparr>quantity := v\<rparr>) \<and> v - quantity c < 0"
  using assms assign_max_stack_size_Inr [OF assms(1,2)]
  by (auto simp: cell_inv_def add_items_def is_empty_def Let_def)

theorem assign_max_stack_size_breaks_inv_witness:
  "\<exists>c'. assign_max_stack_size 2
      \<lparr>component_type = INVENTORY, item_id = Some ''potion'', quantity = 5, max_stack_size = 5,
       slot_type = None, is_equipped = False\<rparr> = Inr c' \<and> \<not> cell_inv c' \<and>
    add_items ''potion'' 1 c' = (- 3, c'\<lparr>quantity := 2\<rparr>)"
  using assign_max_stack_size_breaks_inv [of
      "\<lparr>component_type = INVENTORY, item_id = Some ''potion'', quantity = 5, max_stack_size = 5,
       slot_type = None, is_equipped = False\<rparr>" 2 "''potion''" 1]
  by (auto simp: cell_inv_def)

end
