(* ===== verification/AW_Inventory.thy ===== *)
theory AW_Inventory
  imports AW_Cell
begin

text \<open>
  \<^verbatim>\<open>InventoryComponent\<close>: an ordered list of cells with a capacity, and the allocation of
  items to cells.

  \<^verbatim>\<open>add_item\<close> runs two passes over the cells. The first pass (\<open>add_to_matching\<close>) is
  the \<^verbatim>\<open>for\<close> loop that tops up the cells already holding the item, in order, and returns
  early once nothing remains. The second pass (\<open>add_to_empty\<close>) is the \<^verbatim>\<open>while\<close> loop:
  each round (\<open>add_to_empty_step\<close>) looks for the first empty cell, creates a cell when
  there is none and the capacity allows it, and adds what fits. Nothing in the loop's text
  bounds the number of rounds, so the loop is a partial function in the option monad:
  \<open>None\<close> is a loop that does not end. That it ends on every well-formed inventory is a
  theorem. The constructor of a cell can raise, and then the inventory keeps what the
  rounds before have stored: the result of the loop carries the error, the remaining
  quantity and the inventory.
\<close>

section \<open>State\<close>

record InventoryComponent = ComponentModel +
  cells :: "cell list"
  max_cells :: int
  default_max_stack_size :: int

type_synonym inventory = InventoryComponent

section \<open>Validator and construction\<close>

definition validate_cells_count :: "inventory \<Rightarrow> inventory" where
  "validate_cells_count iv =
     (if int (length (cells iv)) > max_cells iv
      then iv\<lparr>cells := py_slice_to (max_cells iv) (cells iv)\<rparr>
      else iv)"

definition InventoryComponent_init :: "cell list \<Rightarrow> int option \<Rightarrow> int option \<Rightarrow> inventory result" where
  "InventoryComponent_init cs mc dmss =
     bind_result (case mc of None \<Rightarrow> Inr 10 | Some m \<Rightarrow> check_ge ''max_cells'' 1 m)
       (\<lambda>mc'. bind_result
          (case dmss of None \<Rightarrow> Inr 1 | Some d \<Rightarrow> check_ge ''default_max_stack_size'' 1 d)
          (\<lambda>dmss'. Inr (validate_cells_count
             \<lparr>component_type = INVENTORY, cells = cs, max_cells = mc',
              default_max_stack_size = dmss'\<rparr>)))"

text \<open>\<^verbatim>\<open>self.cells = v\<close> and \<^verbatim>\<open>self.max_cells = v\<close>: the model validator runs after the assignment.\<close>

definition assign_cells :: "cell list \<Rightarrow> inventory \<Rightarrow> inventory" where
  "assign_cells cs iv = validate_cells_count (iv\<lparr>cells := cs\<rparr>)"

definition assign_max_cells :: "int \<Rightarrow> inventory \<Rightarrow> inventory result" where
  "assign_max_cells v iv =
     bind_result (check_ge ''max_cells'' 1 v) (\<lambda>v. Inr (validate_cells_count (iv\<lparr>max_cells := v\<rparr>)))"

section \<open>Adding items\<close>

text \<open>The first pass. The result is the remaining quantity and the cells after the pass.\<close>

fun add_to_matching :: "string \<Rightarrow> int \<Rightarrow> cell list \<Rightarrow> int \<times> cell list" where
  "add_to_matching iid remaining [] = (remaining, [])"
| "add_to_matching iid remaining (c # cs) =
     (if \<not> is_empty c \<and> item_id c = Some iid then
        (case add_items iid remaining c of
           (added, c') \<Rightarrow>
             (let remaining' = remaining - added
              in if remaining' \<le> 0 then (remaining', c' # cs)
                 else (case add_to_matching iid remaining' cs of
                         (r, cs') \<Rightarrow> (r, c' # cs'))))
      else (case add_to_matching iid remaining cs of (r, cs') \<Rightarrow> (r, c # cs')))"

text \<open>One round of the second pass: it goes on with a new state, leaves the loop, or raises.\<close>

datatype loop_step = Continue int inventory | Break | Raise error

definition add_to_empty_step :: "string \<Rightarrow> int option \<Rightarrow> int \<Rightarrow> inventory \<Rightarrow> loop_step" where
  "add_to_empty_step iid mss remaining iv =
     (case first_index is_empty (cells iv) of
        Some i \<Rightarrow>
          (case add_items iid remaining (cells iv ! i) of
             (added, c') \<Rightarrow> Continue (remaining - added) (iv\<lparr>cells := (cells iv)[i := c']\<rparr>))
      | None \<Rightarrow>
          if int (length (cells iv)) < max_cells iv then
            (let stack_size = (case mss of Some m \<Rightarrow> m | None \<Rightarrow> default_max_stack_size iv)
             in case InventoryCellComponent_init None None (Some stack_size) None None of
                  Inl e \<Rightarrow> Raise e
                | Inr new_cell \<Rightarrow>
                    (case add_items iid remaining new_cell of
                       (added, c') \<Rightarrow>
                         Continue (remaining - added) (iv\<lparr>cells := cells iv @ [c']\<rparr>)))
          else Break)"

partial_function (option) add_to_empty ::
  "string \<Rightarrow> int option \<Rightarrow> int \<Rightarrow> inventory \<Rightarrow> (error option \<times> int \<times> inventory) option" where
  "add_to_empty iid mss remaining iv =
     (if remaining > 0 then
        (case add_to_empty_step iid mss remaining iv of
           Continue remaining' iv' \<Rightarrow> add_to_empty iid mss remaining' iv'
         | Break \<Rightarrow> Some (None, remaining, iv)
         | Raise e \<Rightarrow> Some (Some e, remaining, iv))
      else Some (None, remaining, iv))"

text \<open>The equation of the loop is its code equation, so that calls can be evaluated.\<close>

declare add_to_empty.simps [code]

definition add_item :: "string \<Rightarrow> int \<Rightarrow> int option \<Rightarrow> inventory \<Rightarrow> (int result \<times> inventory) option" where
  "add_item iid qty mss iv =
     (if qty \<le> 0 then Some (Inr 0, iv)
      else
        (case add_to_matching iid qty (cells iv) of
           (remaining, cs) \<Rightarrow>
             if remaining \<le> 0 then Some (Inr qty, iv\<lparr>cells := cs\<rparr>)
             else
               (case add_to_empty iid mss remaining (iv\<lparr>cells := cs\<rparr>) of
                  None \<Rightarrow> None
                | Some (Some e, remaining', iv') \<Rightarrow> Some (Inl e, iv')
                | Some (None, remaining', iv') \<Rightarrow> Some (Inr (qty - remaining'), iv'))))"

section \<open>Removing and querying\<close>

fun remove_from_matching :: "string \<Rightarrow> int \<Rightarrow> cell list \<Rightarrow> int \<times> cell list" where
  "remove_from_matching iid remaining [] = (remaining, [])"
| "remove_from_matching iid remaining (c # cs) =
     (if \<not> is_empty c \<and> item_id c = Some iid then
        (case remove_items remaining c of
           (removed, c') \<Rightarrow>
             (let remaining' = remaining - removed
              in if remaining' \<le> 0 then (remaining', c' # cs)
                 else (case remove_from_matching iid remaining' cs of
                         (r, cs') \<Rightarrow> (r, c' # cs'))))
      else (case remove_from_matching iid remaining cs of (r, cs') \<Rightarrow> (r, c # cs')))"

definition remove_item :: "string \<Rightarrow> int \<Rightarrow> inventory \<Rightarrow> int \<times> inventory" where
  "remove_item iid qty iv =
     (if qty \<le> 0 then (0, iv)
      else
        (case remove_from_matching iid qty (cells iv) of
           (remaining, cs) \<Rightarrow>
             if remaining \<le> 0 then (qty, iv\<lparr>cells := cs\<rparr>)
             else (qty - remaining, iv\<lparr>cells := cs\<rparr>)))"

text \<open>The loop of \<^verbatim>\<open>has_item\<close>, with the running total as an argument.\<close>

fun has_from :: "string \<Rightarrow> int \<Rightarrow> int \<Rightarrow> cell list \<Rightarrow> bool" where
  "has_from iid qty total_quantity [] = False"
| "has_from iid qty total_quantity (c # cs) =
     (if \<not> is_empty c \<and> item_id c = Some iid then
        (let total_quantity' = total_quantity + quantity c
         in if total_quantity' \<ge> qty then True else has_from iid qty total_quantity' cs)
      else has_from iid qty total_quantity cs)"

definition has_item :: "string \<Rightarrow> int \<Rightarrow> inventory \<Rightarrow> bool" where
  "has_item iid qty iv =
     (if qty \<le> 0 then True else has_from iid qty 0 (cells iv))"

text \<open>The loop of \<^verbatim>\<open>get_item_count\<close>.\<close>

fun item_count :: "string \<Rightarrow> cell list \<Rightarrow> int" where
  "item_count iid [] = 0"
| "item_count iid (c # cs) =
     (if \<not> is_empty c \<and> item_id c = Some iid then quantity c + item_count iid cs
      else item_count iid cs)"

definition get_item_count :: "string \<Rightarrow> inventory \<Rightarrow> int" where
  "get_item_count iid iv = item_count iid (cells iv)"

definition get_empty_cells_count :: "inventory \<Rightarrow> int" where
  "get_empty_cells_count iv = int (length (filter is_empty (cells iv)))"

definition is_full_inventory :: "inventory \<Rightarrow> bool" where
  "is_full_inventory iv =
     (if int (length (cells iv)) < max_cells iv then False
      else list_all is_full (cells iv))"

text \<open>\<^verbatim>\<open>clear_all\<close> calls \<^verbatim>\<open>clear_slot\<close> on every cell in order; an exception would leave the loop.\<close>

fun clear_cells :: "cell list \<Rightarrow> cell list result" where
  "clear_cells [] = Inr []"
| "clear_cells (c # cs) =
     bind_result (clear_slot c)
       (\<lambda>(n, c'). bind_result (clear_cells cs) (\<lambda>cs'. Inr (c' # cs')))"

definition clear_all :: "inventory \<Rightarrow> inventory result" where
  "clear_all iv = bind_result (clear_cells (cells iv)) (\<lambda>cs. Inr (iv\<lparr>cells := cs\<rparr>))"

section \<open>Specification\<close>

text \<open>
  The invariant of spec section 3 and the quantities of the allocation contract:
  \<open>stack_size_for\<close> is the stack size of a cell that \<^verbatim>\<open>add_item\<close> would create,
  \<open>capacity_for\<close> the number of items of one kind that the inventory can still take
  (the space in the cells that hold the kind or are empty, and a full stack for every
  cell that may still be created), \<open>empty_cell m\<close> the cell that
  \<^verbatim>\<open>InventoryCellComponent(max_stack_size=m)\<close> builds, \<open>matching_full\<close> the state after a first pass that
  left something over (every cell that holds the kind is full), \<open>free_slots\<close> the number
  of rounds the second pass can make at most.
\<close>

definition inventory_inv :: "inventory \<Rightarrow> bool" where
  "inventory_inv iv \<longleftrightarrow>
     list_all cell_inv (cells iv) \<and> int (length (cells iv)) \<le> max_cells iv \<and>
     1 \<le> max_cells iv \<and> 1 \<le> default_max_stack_size iv"

definition stack_size_for :: "int option \<Rightarrow> inventory \<Rightarrow> int" where
  "stack_size_for mss iv = (case mss of Some m \<Rightarrow> m | None \<Rightarrow> default_max_stack_size iv)"

definition room_in :: "string \<Rightarrow> cell list \<Rightarrow> int" where
  "room_in iid cs = sum_list (map (space_for iid) cs)"

definition capacity_for :: "string \<Rightarrow> int option \<Rightarrow> inventory \<Rightarrow> int" where
  "capacity_for iid mss iv =
     room_in iid (cells iv) + (max_cells iv - int (length (cells iv))) * stack_size_for mss iv"

definition empty_cell :: "int \<Rightarrow> cell" where
  "empty_cell m =
     \<lparr>component_type = INVENTORY, item_id = None, quantity = 0, max_stack_size = m,
      slot_type = None, is_equipped = False\<rparr>"

definition matching_full :: "string \<Rightarrow> cell list \<Rightarrow> bool" where
  "matching_full iid cs = list_all (\<lambda>c. holds iid c \<longrightarrow> is_full c) cs"

definition free_slots :: "inventory \<Rightarrow> nat" where
  "free_slots iv =
     length (filter is_empty (cells iv)) + nat (max_cells iv - int (length (cells iv)))"

text \<open>
  What the second pass keeps true from round to round, relative to the remaining quantity
  \<open>r0\<close> and the inventory \<open>iv0\<close> it started with: items are neither lost nor made, the
  capacity shrinks by what is stored, while something remains every cell holding the kind
  is full, and no other kind and no other field is touched.
\<close>

definition pass_inv :: "string \<Rightarrow> int option \<Rightarrow> int \<Rightarrow> inventory \<Rightarrow> int \<Rightarrow> inventory \<Rightarrow> bool" where
  "pass_inv iid mss r0 iv0 rem iv \<longleftrightarrow>
     0 \<le> rem \<and>
     item_count iid (cells iv) + rem = item_count iid (cells iv0) + r0 \<and>
     capacity_for iid mss iv - rem = capacity_for iid mss iv0 - r0 \<and>
     (0 < rem \<longrightarrow> matching_full iid (cells iv)) \<and>
     (\<forall>iid'. iid' \<noteq> iid \<longrightarrow> item_count iid' (cells iv) = item_count iid' (cells iv0)) \<and>
     max_cells iv = max_cells iv0 \<and> default_max_stack_size iv = default_max_stack_size iv0 \<and>
     component_type iv = component_type iv0 \<and>
     length (cells iv0) \<le> length (cells iv) \<and>
     (stack_size_for mss iv0 < 1 \<longrightarrow> length (cells iv) = length (cells iv0))"

text \<open>
  How the second pass ends (spec section 4.4, step 3): without an exception, with nothing
  remaining or with an inventory that has all its cells and no room for the kind; by the
  exception of the constructor of a cell, when the stack size for a new cell is below one,
  with no room in the cells there are and a cell still to create.
\<close>

definition pass_exit :: "string \<Rightarrow> int option \<Rightarrow> inventory \<Rightarrow> error option \<Rightarrow> int \<Rightarrow> inventory \<Rightarrow> bool" where
  "pass_exit iid mss iv0 err rem iv \<longleftrightarrow>
     (case err of
        None \<Rightarrow> rem = 0 \<or>
          0 < rem \<and> room_in iid (cells iv) = 0 \<and> int (length (cells iv)) = max_cells iv
      | Some e \<Rightarrow> e = ConstraintViolation ''max_stack_size'' \<and> stack_size_for mss iv0 < 1 \<and>
          0 < rem \<and> room_in iid (cells iv) = 0 \<and> int (length (cells iv)) < max_cells iv)"

text \<open>
  The inventory as a transition system. An operation is a call of one of the three
  mutating methods; \<open>inventory_step iv x iv'\<close> holds when the call \<open>x\<close> in state \<open>iv\<close>
  ends and leaves the inventory as \<open>iv'\<close>, by a return or by an exception (an exception
  of \<^verbatim>\<open>add_item\<close> keeps what the call has stored). The reachable inventories are those
  built by the constructor from well-formed cells and changed by calls only.
\<close>

datatype inventory_op = AddItem string int "int option" | RemoveItem string int | ClearAll

inductive inventory_step :: "inventory \<Rightarrow> inventory_op \<Rightarrow> inventory \<Rightarrow> bool" where
  add: "add_item iid qty mss iv = Some (r, iv') \<Longrightarrow> inventory_step iv (AddItem iid qty mss) iv'"
| remove: "remove_item iid qty iv = (n, iv') \<Longrightarrow> inventory_step iv (RemoveItem iid qty) iv'"
| clear: "clear_all iv = Inr iv' \<Longrightarrow> inventory_step iv ClearAll iv'"

inductive reachable :: "inventory \<Rightarrow> bool" where
  init: "list_all cell_inv cs \<Longrightarrow> InventoryComponent_init cs mc dmss = Inr iv \<Longrightarrow> reachable iv"
| step: "reachable iv \<Longrightarrow> inventory_step iv x iv' \<Longrightarrow> reachable iv'"

inductive_cases inventory_stepE [elim!]:
  "inventory_step iv (AddItem iid qty mss) iv'"
  "inventory_step iv (RemoveItem iid qty) iv'"
  "inventory_step iv ClearAll iv'"

lemmas inventory_op_defs [aw_defs] =
  validate_cells_count_def InventoryComponent_init_def assign_cells_def assign_max_cells_def
  add_to_empty_step_def add_item_def remove_item_def has_item_def get_item_count_def
  get_empty_cells_count_def is_full_inventory_def clear_all_def
  inventory_inv_def stack_size_for_def capacity_for_def empty_cell_def matching_full_def free_slots_def

section \<open>Counting\<close>

lemma item_count_sum: "item_count iid cs = sum_list (map (count_of iid) cs)"
  by (induction cs) (auto simp: count_of_def holds_def)

lemma item_count_nonneg: "list_all cell_inv cs \<Longrightarrow> 0 \<le> item_count iid cs"
  by (induction cs) (auto simp: cell_inv_def)

section \<open>The first pass\<close>

lemma add_to_matching_Cons:
  "add_to_matching iid rem (c # cs) =
     (if holds iid c then
        (let r = rem - fst (add_items iid rem c); c' = snd (add_items iid rem c)
         in if r \<le> 0 then (r, c' # cs)
            else (fst (add_to_matching iid r cs), c' # snd (add_to_matching iid r cs)))
      else (fst (add_to_matching iid rem cs), c # snd (add_to_matching iid rem cs)))"
  by (simp add: holds_def Let_def split: prod.splits)

declare add_to_matching.simps(2) [simp del]

lemma atm_skip:
  "\<not> holds iid c \<Longrightarrow> add_to_matching iid rem (c # cs) =
     (fst (add_to_matching iid rem cs), c # snd (add_to_matching iid rem cs))"
  by (simp add: add_to_matching_Cons)

lemma holds_space_for: "holds iid c \<Longrightarrow> space_for iid c = max_stack_size c - quantity c"
  by (simp add: holds_def space_for_def)

lemma atm_last:
  assumes "holds iid c" and "cell_inv c" and "0 < rem" and "rem \<le> space_for iid c"
  shows "add_to_matching iid rem (c # cs) = (0, snd (add_items iid rem c) # cs)"
    and "fst (add_items iid rem c) = rem"
  using assms by (simp_all add: add_to_matching_Cons add_items_amount Let_def)

lemma atm_more:
  assumes "holds iid c" and "cell_inv c" and "0 < rem" and "space_for iid c < rem"
  shows "add_to_matching iid rem (c # cs) =
    (fst (add_to_matching iid (rem - space_for iid c) cs),
     snd (add_items iid rem c) # snd (add_to_matching iid (rem - space_for iid c) cs))"
    and "fst (add_items iid rem c) = space_for iid c"
  using assms by (simp_all add: add_to_matching_Cons add_items_amount Let_def)

lemma atm_induct [consumes 2, case_names Nil skip last more]:
  assumes "list_all cell_inv cs" and "0 < rem"
    and "\<And>rem. 0 < rem \<Longrightarrow> P rem []"
    and "\<And>rem c cs. \<not> holds iid c \<Longrightarrow> cell_inv c \<Longrightarrow> list_all cell_inv cs \<Longrightarrow> 0 < rem
           \<Longrightarrow> P rem cs \<Longrightarrow> P rem (c # cs)"
    and "\<And>rem c cs. holds iid c \<Longrightarrow> cell_inv c \<Longrightarrow> list_all cell_inv cs \<Longrightarrow> 0 < rem
           \<Longrightarrow> rem \<le> space_for iid c \<Longrightarrow> P rem (c # cs)"
    and "\<And>rem c cs. holds iid c \<Longrightarrow> cell_inv c \<Longrightarrow> list_all cell_inv cs \<Longrightarrow> 0 < rem
           \<Longrightarrow> 0 \<le> space_for iid c \<Longrightarrow> space_for iid c < rem
           \<Longrightarrow> P (rem - space_for iid c) cs \<Longrightarrow> P rem (c # cs)"
  shows "P rem cs"
  using assms(1,2)
proof (induction cs arbitrary: rem)
  case Nil
  then show ?case by (intro assms(3))
next
  case (Cons c cs)
  then have c: "cell_inv c" and cs: "list_all cell_inv cs" by simp_all
  show ?case
  proof (cases "holds iid c")
    case False
    with c cs Cons.prems(2) Cons.IH show ?thesis by (intro assms(4)) simp_all
  next
    case True
    show ?thesis
    proof (cases "rem \<le> space_for iid c")
      case True
      with \<open>holds iid c\<close> c cs Cons.prems(2) show ?thesis by (intro assms(5)) simp_all
    next
      case False
      then have "0 < rem - space_for iid c" by simp
      with cs have "P (rem - space_for iid c) cs" by (rule Cons.IH)
      with False \<open>holds iid c\<close> c cs Cons.prems(2) space_for_nonneg [OF c, of iid]
      show ?thesis by (intro assms(6)) simp_all
    qed
  qed
qed

lemmas atm_simps = add_to_matching.simps(1) atm_skip atm_last atm_more

lemma length_add_to_matching [simp]: "length (snd (add_to_matching iid rem cs)) = length cs"
  by (induction cs arbitrary: rem) (simp_all add: add_to_matching_Cons Let_def)

lemma add_to_matching_remaining:
  assumes "list_all cell_inv cs" and "0 < rem"
  shows "0 \<le> fst (add_to_matching iid rem cs)" and "fst (add_to_matching iid rem cs) \<le> rem"
  using assms
  by (induction rule: atm_induct [where iid = iid]; simp add: atm_simps)+

lemma add_to_matching_inv:
  assumes "list_all cell_inv cs" and "0 < rem"
  shows "list_all cell_inv (snd (add_to_matching iid rem cs))"
  using assms
  by (induction rule: atm_induct [where iid = iid]) (simp_all add: atm_simps add_items_inv)

lemma add_to_matching_count:
  assumes "list_all cell_inv cs" and "0 < rem"
  shows "item_count iid (snd (add_to_matching iid rem cs)) =
    item_count iid cs + (rem - fst (add_to_matching iid rem cs))"
  using assms
  by (induction rule: atm_induct [where iid = iid])
     (simp_all add: atm_simps item_count_sum add_items_count_of)

lemma add_to_matching_count_other:
  assumes "list_all cell_inv cs" and "0 < rem" and "iid' \<noteq> iid"
  shows "item_count iid' (snd (add_to_matching iid rem cs)) = item_count iid' cs"
  using assms
  by (induction rule: atm_induct [where iid = iid])
     (simp_all add: atm_simps item_count_sum add_items_count_of_other)

lemma add_to_matching_space:
  assumes "list_all cell_inv cs" and "0 < rem"
  shows "sum_list (map (space_for iid) (snd (add_to_matching iid rem cs))) =
    sum_list (map (space_for iid) cs) - (rem - fst (add_to_matching iid rem cs))"
  using assms
  by (induction rule: atm_induct [where iid = iid])
     (simp_all add: atm_simps add_items_space)

lemma add_to_matching_is_empty:
  assumes "list_all cell_inv cs" and "0 < rem"
  shows "map is_empty (snd (add_to_matching iid rem cs)) = map is_empty cs"
  using assms
  by (induction rule: atm_induct [where iid = iid])
     (simp_all add: atm_simps add_items_is_empty holds_not_empty)

lemma add_to_matching_full:
  assumes "list_all cell_inv cs" and "0 < rem" and "0 < fst (add_to_matching iid rem cs)"
  shows "matching_full iid (snd (add_to_matching iid rem cs))"
  using assms
proof (induction rule: atm_induct [where iid = iid])
  case (more rem c cs)
  have "fst (add_items iid rem c) < rem"
    using more by (simp add: atm_more(2))
  with more(1,2) have "is_full (snd (add_items iid rem c))"
    by (intro add_items_partial_full) simp_all
  with more show ?case by (simp add: atm_simps matching_full_def)
qed (simp_all add: atm_simps matching_full_def)

section \<open>One round of the second pass\<close>

lemma empty_cell_facts [simp]:
  "is_empty (empty_cell m)" "1 \<le> m \<Longrightarrow> cell_inv (empty_cell m)"
  "max_stack_size (empty_cell m) = m"
  by (simp_all add: empty_cell_def is_empty_def cell_inv_def)

lemma init_empty_cell:
  "1 \<le> m \<Longrightarrow> InventoryCellComponent_init None None (Some m) None None = Inr (empty_cell m)"
  by (simp add: InventoryCellComponent_init_default empty_cell_def)

lemma step_fill:
  assumes "first_index is_empty (cells iv) = Some i"
  shows "add_to_empty_step iid mss rem iv =
    Continue (rem - fst (add_items iid rem (cells iv ! i)))
      (iv\<lparr>cells := (cells iv)[i := snd (add_items iid rem (cells iv ! i))]\<rparr>)"
  using assms by (simp add: add_to_empty_step_def split: prod.splits)

lemma step_new:
  assumes "first_index is_empty (cells iv) = None" and "int (length (cells iv)) < max_cells iv"
    and "1 \<le> stack_size_for mss iv"
  shows "add_to_empty_step iid mss rem iv =
    Continue (rem - fst (add_items iid rem (empty_cell (stack_size_for mss iv))))
      (iv\<lparr>cells := cells iv @ [snd (add_items iid rem (empty_cell (stack_size_for mss iv)))]\<rparr>)"
  using assms init_empty_cell [OF assms(3)]
  by (simp add: add_to_empty_step_def stack_size_for_def Let_def split: prod.splits)

lemma step_raise:
  assumes "first_index is_empty (cells iv) = None" and "int (length (cells iv)) < max_cells iv"
    and "stack_size_for mss iv < 1"
  shows "add_to_empty_step iid mss rem iv = Raise (ConstraintViolation ''max_stack_size'')"
  using assms InventoryCellComponent_init_bad_stack [OF assms(3)]
  by (simp add: add_to_empty_step_def stack_size_for_def Let_def)

lemma step_break:
  assumes "first_index is_empty (cells iv) = None" and "\<not> int (length (cells iv)) < max_cells iv"
  shows "add_to_empty_step iid mss rem iv = Break"
  using assms by (simp add: add_to_empty_step_def)

text \<open>
  Every round that goes on puts \<open>a\<close> items into a well-formed empty cell \<open>c0\<close>, which is
  either the first empty cell of the list or a new cell at its end.
\<close>

lemma step_cases [consumes 1, case_names fill new full raise]:
  assumes "inventory_inv iv"
  obtains
    (fill) i where "first_index is_empty (cells iv) = Some i" and "i < length (cells iv)"
      and "is_empty (cells iv ! i)" and "cell_inv (cells iv ! i)"
      and "add_to_empty_step iid mss rem iv =
        Continue (rem - fst (add_items iid rem (cells iv ! i)))
          (iv\<lparr>cells := (cells iv)[i := snd (add_items iid rem (cells iv ! i))]\<rparr>)"
  | (new) "filter is_empty (cells iv) = []" and "int (length (cells iv)) < max_cells iv"
      and "1 \<le> stack_size_for mss iv"
      and "add_to_empty_step iid mss rem iv =
        Continue (rem - fst (add_items iid rem (empty_cell (stack_size_for mss iv))))
          (iv\<lparr>cells := cells iv @ [snd (add_items iid rem (empty_cell (stack_size_for mss iv)))]\<rparr>)"
  | (full) "filter is_empty (cells iv) = []" and "int (length (cells iv)) = max_cells iv"
      and "add_to_empty_step iid mss rem iv = Break"
  | (raise) "filter is_empty (cells iv) = []" and "int (length (cells iv)) < max_cells iv"
      and "stack_size_for mss iv < 1"
      and "add_to_empty_step iid mss rem iv = Raise (ConstraintViolation ''max_stack_size'')"
proof (cases "first_index is_empty (cells iv)")
  case (Some i)
  then have i: "i < length (cells iv)" "is_empty (cells iv ! i)"
    by (simp_all add: first_index_Some_iff)
  from assms(1) i(1) have "cell_inv (cells iv ! i)"
    by (simp add: inventory_inv_def list_all_nth)
  with Some i show thesis by (intro fill [of i] step_fill)
next
  case None
  then have e: "filter is_empty (cells iv) = []" by (rule filter_empty_first_index)
  show thesis
  proof (cases "int (length (cells iv)) < max_cells iv")
    case True
    show thesis
    proof (cases "1 \<le> stack_size_for mss iv")
      case True
      with None e \<open>int (length (cells iv)) < max_cells iv\<close> show thesis by (intro new step_new)
    next
      case False
      with None e \<open>int (length (cells iv)) < max_cells iv\<close> show thesis
        by (intro raise step_raise) simp_all
    qed
  next
    case False
    with assms(1) have "int (length (cells iv)) = max_cells iv" by (simp add: inventory_inv_def)
    with None e False show thesis by (intro full step_break)
  qed
qed

lemma add_items_empty_facts:
  assumes "cell_inv c0" and "is_empty c0" and "0 < rem"
  shows "0 < fst (add_items iid rem c0)" and "fst (add_items iid rem c0) \<le> rem"
    and "cell_inv (snd (add_items iid rem c0))"
    and "\<not> is_empty (snd (add_items iid rem c0))"
    and "count_of iid (snd (add_items iid rem c0)) = fst (add_items iid rem c0)"
    and "space_for iid (snd (add_items iid rem c0)) = max_stack_size c0 - fst (add_items iid rem c0)"
    and "fst (add_items iid rem c0) < rem \<Longrightarrow> is_full (snd (add_items iid rem c0))"
proof -
  from assms(1) have "0 < max_stack_size c0" by (simp add: cell_inv_def)
  with assms show "0 < fst (add_items iid rem c0)" and "fst (add_items iid rem c0) \<le> rem"
    and "cell_inv (snd (add_items iid rem c0))"
    and "\<not> is_empty (snd (add_items iid rem c0))"
    and "count_of iid (snd (add_items iid rem c0)) = fst (add_items iid rem c0)"
    and "space_for iid (snd (add_items iid rem c0)) = max_stack_size c0 - fst (add_items iid rem c0)"
    and "fst (add_items iid rem c0) < rem \<Longrightarrow> is_full (snd (add_items iid rem c0))"
    by (simp_all add: add_items_into_empty add_items_inv add_items_is_empty add_items_count_of
        empty_count_of add_items_count_of_other add_items_space space_for_empty
        add_items_partial_full add_items_amount)
qed

lemma add_items_empty_other:
  assumes "cell_inv c0" and "is_empty c0" and "iid' \<noteq> iid"
  shows "count_of iid' (snd (add_items iid rem c0)) = 0"
  using assms by (simp add: add_items_count_of_other empty_count_of)

lemma stack_size_for_cells [simp]: "stack_size_for mss (iv\<lparr>cells := cs\<rparr>) = stack_size_for mss iv"
  by (cases mss) (simp_all add: stack_size_for_def)

lemma step_continue_frame:
  assumes "add_to_empty_step iid mss rem iv = Continue rem' iv'"
  shows "max_cells iv' = max_cells iv" and "default_max_stack_size iv' = default_max_stack_size iv"
    and "component_type iv' = component_type iv" and "stack_size_for mss iv' = stack_size_for mss iv"
  using assms
  by (auto simp: add_to_empty_step_def stack_size_for_def Let_def
      split: option.splits prod.splits if_splits sum.splits)

text \<open>
  A round that goes on is one of the first two cases, and the case gives the state after
  the round.
\<close>

lemma step_continue_cases [consumes 2, case_names fill new]:
  assumes "inventory_inv iv" and "add_to_empty_step iid mss rem iv = Continue rem' iv'"
  obtains
    (fill) i where "i < length (cells iv)" and "is_empty (cells iv ! i)"
      and "cell_inv (cells iv ! i)"
      and "iv' = iv\<lparr>cells := (cells iv)[i := snd (add_items iid rem (cells iv ! i))]\<rparr>"
      and "rem' = rem - fst (add_items iid rem (cells iv ! i))"
  | (new) "filter is_empty (cells iv) = []" and "int (length (cells iv)) < max_cells iv"
      and "1 \<le> stack_size_for mss iv"
      and "iv' = iv\<lparr>cells := cells iv @ [snd (add_items iid rem (empty_cell (stack_size_for mss iv)))]\<rparr>"
      and "rem' = rem - fst (add_items iid rem (empty_cell (stack_size_for mss iv)))"
  using assms(1)
proof (cases rule: step_cases [where iid = iid and mss = mss and rem = rem])
  case (fill i)
  with assms(2) show thesis by (intro that(1) [of i]) simp_all
next
  case new
  with assms(2) show thesis by (intro that(2)) simp_all
qed (use assms(2) in simp_all)

lemma step_continue_inv:
  assumes "inventory_inv iv" and "0 < rem"
    and "add_to_empty_step iid mss rem iv = Continue rem' iv'"
  shows "inventory_inv iv'" and "0 \<le> rem'" and "rem' < rem"
    and "Suc (free_slots iv') = free_slots iv"
proof -
  have "inventory_inv iv' \<and> 0 \<le> rem' \<and> rem' < rem \<and> Suc (free_slots iv') = free_slots iv"
    using assms(1,3)
  proof (cases rule: step_continue_cases)
    case (fill i)
    note f = add_items_empty_facts [OF fill(3,2) assms(2), where iid = iid]
    have "Suc (length (filter is_empty (cells iv'))) = length (filter is_empty (cells iv))"
      unfolding fill(4) using fill(1,2) f(4) by (simp add: length_filter_update)
    then have "Suc (free_slots iv') = free_slots iv" by (simp add: free_slots_def fill(4))
    moreover have "inventory_inv iv'"
      using assms(1) f(3) by (simp add: fill(4) inventory_inv_def list_all_update)
    ultimately show ?thesis using f(1,2) fill(5) by simp
  next
    case new
    note f = add_items_empty_facts [OF empty_cell_facts(2,1) assms(2), OF new(3), where iid = iid]
    have "Suc (free_slots iv') = free_slots iv"
      using new(1,2) f(4) by (simp add: free_slots_def new(4))
    moreover have "inventory_inv iv'"
      using assms(1) f(3) new(2) by (simp add: new(4) inventory_inv_def)
    ultimately show ?thesis using f(1,2) new(5) by simp
  qed
  then show "inventory_inv iv'" and "0 \<le> rem'" and "rem' < rem"
    and "Suc (free_slots iv') = free_slots iv" by simp_all
qed

lemma step_continue_count:
  assumes "inventory_inv iv" and "0 < rem"
    and "add_to_empty_step iid mss rem iv = Continue rem' iv'"
  shows "item_count iid (cells iv') = item_count iid (cells iv) + (rem - rem')"
    and "iid' \<noteq> iid \<Longrightarrow> item_count iid' (cells iv') = item_count iid' (cells iv)"
    and "capacity_for iid mss iv' = capacity_for iid mss iv - (rem - rem')"
    and "matching_full iid (cells iv) \<Longrightarrow> 0 < rem' \<Longrightarrow> matching_full iid (cells iv')"
proof -
  have "item_count iid (cells iv') = item_count iid (cells iv) + (rem - rem') \<and>
      (iid' \<noteq> iid \<longrightarrow> item_count iid' (cells iv') = item_count iid' (cells iv)) \<and>
      capacity_for iid mss iv' = capacity_for iid mss iv - (rem - rem') \<and>
      (matching_full iid (cells iv) \<longrightarrow> 0 < rem' \<longrightarrow> matching_full iid (cells iv'))"
    using assms(1,3)
  proof (cases rule: step_continue_cases)
    case (fill i)
    note f = add_items_empty_facts [OF fill(3,2) assms(2), where iid = iid]
    have sp: "space_for iid (cells iv ! i) = max_stack_size (cells iv ! i)"
      using fill(2,3) by (simp add: space_for_empty)
    show ?thesis
      using fill(1,2,3) f
      by (simp add: fill(4,5) item_count_sum sum_list_map_update empty_count_of capacity_for_def
          room_in_def sp matching_full_def list_all_update add_items_empty_other)
  next
    case new
    note f = add_items_empty_facts [OF empty_cell_facts(2,1) assms(2), OF new(3), where iid = iid]
    show ?thesis
      using new(2,3) f
      by (simp add: new(4,5) item_count_sum capacity_for_def room_in_def
          matching_full_def algebra_simps add_items_empty_other)
  qed
  then show "item_count iid (cells iv') = item_count iid (cells iv) + (rem - rem')"
    and "iid' \<noteq> iid \<Longrightarrow> item_count iid' (cells iv') = item_count iid' (cells iv)"
    and "capacity_for iid mss iv' = capacity_for iid mss iv - (rem - rem')"
    and "matching_full iid (cells iv) \<Longrightarrow> 0 < rem' \<Longrightarrow> matching_full iid (cells iv')"
    by simp_all
qed

lemma step_continue_length:
  assumes "inventory_inv iv" and "add_to_empty_step iid mss rem iv = Continue rem' iv'"
  shows "length (cells iv) \<le> length (cells iv')"
    and "stack_size_for mss iv < 1 \<Longrightarrow> length (cells iv') = length (cells iv)"
  using assms by (cases rule: step_cases [where iid = iid and mss = mss and rem = rem]; auto)+

section \<open>The second pass\<close>

lemma step_no_raise:
  assumes "inventory_inv iv" and "1 \<le> stack_size_for mss iv"
  shows "add_to_empty_step iid mss rem iv \<noteq> Raise e"
  using assms by (cases rule: step_cases [where iid = iid and mss = mss and rem = rem]) simp_all

lemma step_RaiseD:
  assumes "inventory_inv iv" and "add_to_empty_step iid mss rem iv = Raise e"
  shows "e = ConstraintViolation ''max_stack_size''" and "stack_size_for mss iv < 1"
    and "filter is_empty (cells iv) = []" and "int (length (cells iv)) < max_cells iv"
  using assms by (cases rule: step_cases [where iid = iid and mss = mss and rem = rem]; simp)+

lemma step_BreakD:
  assumes "add_to_empty_step iid mss rem iv = Break"
  shows "filter is_empty (cells iv) = []" and "max_cells iv \<le> int (length (cells iv))"
  using assms
  by (auto simp: add_to_empty_step_def Let_def filter_empty_first_index
      split: option.splits prod.splits if_splits sum.splits)

lemma add_to_empty_done:
  "rem \<le> 0 \<Longrightarrow> add_to_empty iid mss rem iv = Some (None, rem, iv)"
  by (subst add_to_empty.simps) simp

lemma add_to_empty_unfold:
  "0 < rem \<Longrightarrow> add_to_empty iid mss rem iv =
     (case add_to_empty_step iid mss rem iv of
        Continue rem' iv' \<Rightarrow> add_to_empty iid mss rem' iv'
      | Break \<Rightarrow> Some (None, rem, iv)
      | Raise e \<Rightarrow> Some (Some e, rem, iv))"
  by (subst add_to_empty.simps) simp

text \<open>
  The rule of the loop. On a well-formed inventory the loop ends, after at most
  \<open>free_slots\<close> rounds; whatever holds at its start and is kept by every round that goes
  on holds at its end; and it ends because nothing remains, because no cell is free, or
  because the constructor of a new cell raised.
\<close>

lemma add_to_empty_rule:
  assumes "inventory_inv iv" and "I rem iv"
    and step: "\<And>rem iv rem' iv'. inventory_inv iv \<Longrightarrow> 0 < rem
        \<Longrightarrow> I rem iv \<Longrightarrow> add_to_empty_step iid mss rem iv = Continue rem' iv' \<Longrightarrow> I rem' iv'"
  shows "\<exists>err rem' iv'. add_to_empty iid mss rem iv = Some (err, rem', iv') \<and>
    inventory_inv iv' \<and> I rem' iv' \<and>
    (case err of
       None \<Rightarrow> rem' \<le> 0 \<or> add_to_empty_step iid mss rem' iv' = Break
     | Some e \<Rightarrow> 0 < rem' \<and> add_to_empty_step iid mss rem' iv' = Raise e)"
  using assms(1,2)
proof (induction "free_slots iv" arbitrary: rem iv rule: less_induct)
  case less
  show ?case
  proof (cases "0 < rem")
    case False
    with less.prems show ?thesis by (simp add: add_to_empty_done)
  next
    case True
    show ?thesis
    proof (cases "add_to_empty_step iid mss rem iv")
      case (Continue rem' iv')
      note c = step_continue_inv [OF less.prems(1) True Continue]
      from less.prems True Continue have "I rem' iv'" by (intro step [of iv rem rem' iv'])
      with c(1,4)
      have "\<exists>err r j. add_to_empty iid mss rem' iv' = Some (err, r, j) \<and> inventory_inv j \<and> I r j \<and>
          (case err of
             None \<Rightarrow> r \<le> 0 \<or> add_to_empty_step iid mss r j = Break
           | Some e \<Rightarrow> 0 < r \<and> add_to_empty_step iid mss r j = Raise e)"
        by (intro less.hyps) simp_all
      with True Continue show ?thesis by (simp add: add_to_empty_unfold)
    next
      case Break
      with True less.prems have "add_to_empty iid mss rem iv = Some (None, rem, iv)"
        by (simp add: add_to_empty_unfold)
      with Break less.prems show ?thesis by simp
    next
      case (Raise e)
      with True less.prems have "add_to_empty iid mss rem iv = Some (Some e, rem, iv)"
        by (simp add: add_to_empty_unfold)
      with Raise True less.prems show ?thesis by simp
    qed
  qed
qed

lemma room_in_nonneg:
  assumes "list_all cell_inv cs"
  shows "0 \<le> room_in iid cs"
  unfolding room_in_def using assms
  by (intro sum_list_nonneg) (auto simp: list_all_iff intro: space_for_nonneg)

lemma room_in_exhausted:
  assumes "list_all cell_inv cs" and "filter is_empty cs = []" and "matching_full iid cs"
  shows "room_in iid cs = 0"
proof -
  have "space_for iid c = 0" if "c \<in> set cs" for c
  proof -
    from that assms(1) have c: "cell_inv c" by (auto simp: list_all_iff)
    from that assms(2) have ne: "\<not> is_empty c" by (auto simp: filter_empty_conv)
    show ?thesis
    proof (cases "holds iid c")
      case True
      with that assms(3) have "is_full c" by (auto simp: matching_full_def list_all_iff)
      with c show ?thesis by (rule full_space_for)
    next
      case False
      with ne show ?thesis by (rule other_space_for)
    qed
  qed
  then show ?thesis unfolding room_in_def by (rule sum_list_map_zero)
qed

lemma capacity_for_nonneg:
  assumes "inventory_inv iv" and "1 \<le> stack_size_for mss iv"
  shows "0 \<le> capacity_for iid mss iv"
proof -
  from assms(1) have "0 \<le> room_in iid (cells iv)"
    by (intro room_in_nonneg) (simp add: inventory_inv_def)
  moreover from assms have "0 \<le> (max_cells iv - int (length (cells iv))) * stack_size_for mss iv"
    by (simp add: inventory_inv_def)
  ultimately show ?thesis by (simp add: capacity_for_def)
qed

lemma capacity_for_exhausted:
  assumes "inventory_inv iv" and "filter is_empty (cells iv) = []"
    and "max_cells iv \<le> int (length (cells iv))" and "matching_full iid (cells iv)"
  shows "capacity_for iid mss iv = 0"
proof -
  from assms(1,2,4) have "room_in iid (cells iv) = 0"
    by (intro room_in_exhausted) (simp_all add: inventory_inv_def)
  moreover from assms(1,3) have "max_cells iv - int (length (cells iv)) = 0"
    by (simp add: inventory_inv_def)
  ultimately show ?thesis by (simp add: capacity_for_def)
qed

section \<open>The allocation as a whole\<close>

text \<open>The state between the two passes.\<close>

lemma first_pass:
  fixes iid :: string and qty :: int and iv :: inventory
  assumes "inventory_inv iv" and "0 < qty"
  defines "r \<equiv> fst (add_to_matching iid qty (cells iv))"
    and "iv1 \<equiv> iv\<lparr>cells := snd (add_to_matching iid qty (cells iv))\<rparr>"
  shows "add_to_matching iid qty (cells iv) = (r, cells iv1)"
    and "inventory_inv iv1" and "0 \<le> r" and "r \<le> qty"
    and "item_count iid (cells iv1) = item_count iid (cells iv) + (qty - r)"
    and "iid' \<noteq> iid \<Longrightarrow> item_count iid' (cells iv1) = item_count iid' (cells iv)"
    and "capacity_for iid mss iv1 = capacity_for iid mss iv - (qty - r)"
    and "0 < r \<Longrightarrow> matching_full iid (cells iv1)"
proof -
  from assms(1) have cs: "list_all cell_inv (cells iv)" by (simp add: inventory_inv_def)
  show "add_to_matching iid qty (cells iv) = (r, cells iv1)" by (simp add: r_def iv1_def)
  show "inventory_inv iv1"
    using assms(1) add_to_matching_inv [OF cs assms(2)] by (simp add: iv1_def inventory_inv_def)
  show "0 \<le> r" "r \<le> qty"
    using add_to_matching_remaining [OF cs assms(2)] by (simp_all add: r_def)
  show "item_count iid (cells iv1) = item_count iid (cells iv) + (qty - r)"
    using add_to_matching_count [OF cs assms(2)] by (simp add: r_def iv1_def)
  show "iid' \<noteq> iid \<Longrightarrow> item_count iid' (cells iv1) = item_count iid' (cells iv)"
    using add_to_matching_count_other [OF cs assms(2)] by (simp add: iv1_def)
  show "capacity_for iid mss iv1 = capacity_for iid mss iv - (qty - r)"
    using add_to_matching_space [OF cs assms(2)] by (simp add: r_def iv1_def capacity_for_def room_in_def)
  show "0 < r \<Longrightarrow> matching_full iid (cells iv1)"
    using add_to_matching_full [OF cs assms(2)] by (simp add: r_def iv1_def)
qed


lemma stack_size_for_frame:
  "default_max_stack_size iv' = default_max_stack_size iv \<Longrightarrow>
     stack_size_for mss iv' = stack_size_for mss iv"
  by (cases mss) (simp_all add: stack_size_for_def)

lemma pass_inv_step:
  assumes "inventory_inv iv" and "0 < rem"
    and "pass_inv iid mss r0 iv0 rem iv" and "add_to_empty_step iid mss rem iv = Continue rem' iv'"
  shows "pass_inv iid mss r0 iv0 rem' iv'"
proof -
  from assms(3) have "stack_size_for mss iv = stack_size_for mss iv0"
    by (intro stack_size_for_frame) (simp add: pass_inv_def)
  with assms(3) step_continue_inv(2) [OF assms(1,2,4)]
    step_continue_count [OF assms(1,2,4)] step_continue_frame [OF assms(4)] assms(2)
    step_continue_length [OF assms(1,4)]
  show ?thesis by (simp add: pass_inv_def)
qed

text \<open>
  The second pass from a state in which every cell holding the kind is full: it ends, the
  invariants hold at its end, and it ends with nothing remaining, or with no room left in
  a full inventory, or by the exception with no room left in the cells there are.
\<close>

lemma pass_exitI:
  assumes inv: "inventory_inv iv'" and p: "pass_inv iid mss rem iv rem' iv'"
    and ex: "case err of
       None \<Rightarrow> rem' \<le> 0 \<or> add_to_empty_step iid mss rem' iv' = Break
     | Some e \<Rightarrow> 0 < rem' \<and> add_to_empty_step iid mss rem' iv' = Raise e"
  shows "pass_exit iid mss iv err rem' iv'"
proof -
  from p have ss: "stack_size_for mss iv' = stack_size_for mss iv"
    by (intro stack_size_for_frame) (simp add: pass_inv_def)
  from inv have ci: "list_all cell_inv (cells iv')" by (simp add: inventory_inv_def)
  have full: "room_in iid (cells iv') = 0" if "0 < rem'" and "filter is_empty (cells iv') = []"
    using that p ci by (intro room_in_exhausted) (simp_all add: pass_inv_def)
  show ?thesis
  proof (cases err)
    case (Some e)
    with ex have r: "0 < rem'" "add_to_empty_step iid mss rem' iv' = Raise e" by simp_all
    with Some step_RaiseD [OF inv r(2)] full ss show ?thesis by (simp add: pass_exit_def)
  next
    case None
    show ?thesis
    proof (cases "rem' \<le> 0")
      case True
      with p None show ?thesis by (simp add: pass_inv_def pass_exit_def)
    next
      case False
      with ex None have b: "add_to_empty_step iid mss rem' iv' = Break" by simp
      from inv step_BreakD(2) [OF b] have "int (length (cells iv')) = max_cells iv'"
        by (simp add: inventory_inv_def)
      with False None step_BreakD(1) [OF b] full show ?thesis by (simp add: pass_exit_def)
    qed
  qed
qed

lemma second_pass:
  assumes "inventory_inv iv" and "0 < rem" and "matching_full iid (cells iv)"
  shows "\<exists>err rem' iv'. add_to_empty iid mss rem iv = Some (err, rem', iv') \<and>
    inventory_inv iv' \<and> rem' \<le> rem \<and> pass_inv iid mss rem iv rem' iv' \<and>
    pass_exit iid mss iv err rem' iv'"
proof -
  let ?I = "\<lambda>r v. r \<le> rem \<and> pass_inv iid mss rem iv r v"
  from assms(2,3) have init: "?I rem iv" by (simp add: pass_inv_def)
  have step: "?I r' v'"
    if "inventory_inv v" and "0 < r" and "?I r v"
      and "add_to_empty_step iid mss r v = Continue r' v'" for r v r' v'
    using that pass_inv_step [of v r iid mss rem iv r' v'] step_continue_inv(3) [of v r iid mss r' v']
    by simp
  from step add_to_empty_rule [where I = ?I and iid = iid and mss = mss, OF assms(1) init]
  show ?thesis by (blast intro: pass_exitI)
qed

lemma add_item_unfold:
  "0 < qty \<Longrightarrow> add_item iid qty mss iv =
     (if fst (add_to_matching iid qty (cells iv)) \<le> 0
      then Some (Inr qty, iv\<lparr>cells := snd (add_to_matching iid qty (cells iv))\<rparr>)
      else
        (case add_to_empty iid mss (fst (add_to_matching iid qty (cells iv)))
                (iv\<lparr>cells := snd (add_to_matching iid qty (cells iv))\<rparr>) of
           None \<Rightarrow> None
         | Some (Some e, remaining', iv') \<Rightarrow> Some (Inl e, iv')
         | Some (None, remaining', iv') \<Rightarrow> Some (Inr (qty - remaining'), iv')))"
  by (simp add: add_item_def split: prod.splits)

lemma add_item_nonpositive: "qty \<le> 0 \<Longrightarrow> add_item iid qty mss iv = Some (Inr 0, iv)"
  by (simp add: add_item_def)

text \<open>
  Partial correctness by the induction rule of the loop: whenever the loop ends, from any
  inventory, it has changed nothing but the cells.
\<close>

lemmas add_to_empty_induct [consumes 1, case_names step] = add_to_empty.raw_induct [rotated]

lemma add_to_empty_frame:
  assumes "add_to_empty iid mss rem iv = Some y"
  shows "max_cells (snd (snd y)) = max_cells iv \<and>
    default_max_stack_size (snd (snd y)) = default_max_stack_size iv \<and>
    component_type (snd (snd y)) = component_type iv"
  using assms
proof (induction iid mss rem iv y rule: add_to_empty_induct)
  case (step add_to_empty iid mss rem iv y)
  show ?case
  proof (cases "0 < rem")
    case False
    with step(2) show ?thesis by auto
  next
    case True
    show ?thesis
    proof (cases "add_to_empty_step iid mss rem iv")
      case (Continue rem1 iv1)
      with True step(2) have "add_to_empty iid mss rem1 iv1 = Some y" by simp
      from step(1) [OF this] step_continue_frame [OF Continue] show ?thesis by simp
    qed (use True step(2) in auto)
  qed
qed

lemma add_item_frame:
  assumes "add_item iid qty mss iv = Some (r, iv')"
  shows "max_cells iv' = max_cells iv" and "default_max_stack_size iv' = default_max_stack_size iv"
    and "component_type iv' = component_type iv"
proof -
  have "max_cells iv' = max_cells iv \<and> default_max_stack_size iv' = default_max_stack_size iv \<and>
    component_type iv' = component_type iv"
  proof (cases "0 < qty")
    case False
    with assms show ?thesis by (simp add: add_item_nonpositive)
  next
    case True
    let ?r = "fst (add_to_matching iid qty (cells iv))"
    let ?iv1 = "iv\<lparr>cells := snd (add_to_matching iid qty (cells iv))\<rparr>"
    show ?thesis
    proof (cases "?r \<le> 0")
      case True
      with \<open>0 < qty\<close> assms show ?thesis by (auto simp: add_item_unfold)
    next
      case False
      with \<open>0 < qty\<close> assms obtain y where y: "add_to_empty iid mss ?r ?iv1 = Some y"
        and iv': "iv' = snd (snd y)"
        by (auto simp: add_item_unfold split: option.splits prod.splits)
      from add_to_empty_frame [OF y] iv' show ?thesis by simp
    qed
  qed
  then show "max_cells iv' = max_cells iv"
    and "default_max_stack_size iv' = default_max_stack_size iv"
    and "component_type iv' = component_type iv" by simp_all
qed

text \<open>
  Both passes of a call on a well-formed inventory: the call ends, and what holds of the
  second pass holds of the call, relative to the quantity asked for and the inventory
  before the call. The three lemmas after this one read their results off it.
\<close>

lemma add_item_passes:
  assumes "inventory_inv iv" and "0 < qty"
  shows "\<exists>err rem' iv'.
    add_item iid qty mss iv = Some (case err of None \<Rightarrow> Inr (qty - rem') | Some e \<Rightarrow> Inl e, iv') \<and>
    inventory_inv iv' \<and> rem' \<le> qty \<and> pass_inv iid mss qty iv rem' iv' \<and>
    pass_exit iid mss iv err rem' iv'"
proof -
  let ?r = "fst (add_to_matching iid qty (cells iv))"
  let ?iv1 = "iv\<lparr>cells := snd (add_to_matching iid qty (cells iv))\<rparr>"
  note fp = first_pass [OF assms, where iid = iid]
  show ?thesis
  proof (cases "?r \<le> 0")
    case True
    with fp(3) have r: "?r = 0" by simp
    from True assms(2) have "add_item iid qty mss iv = Some (Inr qty, ?iv1)"
      by (simp add: add_item_unfold)
    moreover from fp(5,6) fp(7) [of mss] r have "pass_inv iid mss qty iv 0 ?iv1"
      by (simp add: pass_inv_def)
    ultimately show ?thesis using fp(2) assms(2)
      by (intro exI [of _ None] exI [of _ 0] exI [of _ ?iv1]) (simp add: pass_exit_def)
  next
    case False
    then have pos: "0 < ?r" by simp
    from second_pass [OF fp(2) pos fp(8) [OF pos], of mss]
    obtain err rem' iv' where l: "add_to_empty iid mss ?r ?iv1 = Some (err, rem', iv')"
      and inv: "inventory_inv iv'" and le: "rem' \<le> ?r"
      and p: "pass_inv iid mss ?r ?iv1 rem' iv'" and ex: "pass_exit iid mss ?iv1 err rem' iv'"
      by blast
    from False assms(2) l
    have "add_item iid qty mss iv =
      Some (case err of None \<Rightarrow> Inr (qty - rem') | Some e \<Rightarrow> Inl e, iv')"
      by (cases err) (simp_all add: add_item_unfold)
    moreover from p fp(5,6) fp(7) [of mss] have "pass_inv iid mss qty iv rem' iv'"
      by (simp add: pass_inv_def)
    moreover from ex have "pass_exit iid mss iv err rem' iv'"
      by (cases err) (simp_all add: pass_exit_def)
    ultimately show ?thesis using inv le fp(4) by (intro exI [of _ err] exI [of _ rem'] exI [of _ iv']) simp
  qed
qed

lemma add_item_total:
  assumes "inventory_inv iv" and "1 \<le> stack_size_for mss iv" and "0 < qty"
  shows "\<exists>iv'. add_item iid qty mss iv = Some (Inr (min qty (capacity_for iid mss iv)), iv') \<and>
    inventory_inv iv' \<and>
    item_count iid (cells iv') = item_count iid (cells iv) + min qty (capacity_for iid mss iv) \<and>
    (\<forall>iid'. iid' \<noteq> iid \<longrightarrow> item_count iid' (cells iv') = item_count iid' (cells iv)) \<and>
    capacity_for iid mss iv' = capacity_for iid mss iv - min qty (capacity_for iid mss iv) \<and>
    max_cells iv' = max_cells iv \<and> default_max_stack_size iv' = default_max_stack_size iv \<and>
    component_type iv' = component_type iv"
proof -
  from add_item_passes [OF assms(1,3), of iid mss]
  obtain err rem' iv' where a: "add_item iid qty mss iv =
      Some (case err of None \<Rightarrow> Inr (qty - rem') | Some e \<Rightarrow> Inl e, iv')"
    and inv: "inventory_inv iv'" and p: "pass_inv iid mss qty iv rem' iv'"
    and ex: "pass_exit iid mss iv err rem' iv'" by blast
  from ex assms(2) have err: "err = None" by (cases err) (simp_all add: pass_exit_def)
  from p have "stack_size_for mss iv' = stack_size_for mss iv"
    by (intro stack_size_for_frame) (simp add: pass_inv_def)
  with assms(2) inv have "0 \<le> capacity_for iid mss iv'" by (intro capacity_for_nonneg) simp_all
  with ex err p have "qty - rem' = min qty (capacity_for iid mss iv)"
    by (auto simp: pass_exit_def pass_inv_def capacity_for_def)
  with a err inv p show ?thesis by (simp add: pass_inv_def)
qed

text \<open>Whatever the stack size, the call ends and keeps the invariant and the frame.\<close>

lemma add_item_ends:
  assumes "inventory_inv iv"
  shows "\<exists>r iv'. add_item iid qty mss iv = Some (r, iv') \<and> inventory_inv iv' \<and>
    (\<forall>iid'. iid' \<noteq> iid \<longrightarrow> item_count iid' (cells iv') = item_count iid' (cells iv)) \<and>
    length (cells iv) \<le> length (cells iv') \<and>
    max_cells iv' = max_cells iv \<and> default_max_stack_size iv' = default_max_stack_size iv \<and>
    component_type iv' = component_type iv"
proof (cases "0 < qty")
  case False
  with assms show ?thesis by (simp add: add_item_nonpositive)
next
  case True
  from add_item_passes [OF assms True, of iid mss] show ?thesis
    by (auto simp: pass_inv_def)
qed

text \<open>
  The exception. A stack size below one for the cells to create, more items than the
  cells there are can take, and a cell still to create: the call raises, after it has
  filled the cells there are.
\<close>

lemma add_item_raises:
  assumes "inventory_inv iv" and "0 < qty" and "stack_size_for mss iv < 1"
    and "room_in iid (cells iv) < qty" and "int (length (cells iv)) < max_cells iv"
  shows "\<exists>iv'. add_item iid qty mss iv = Some (Inl (ConstraintViolation ''max_stack_size''), iv') \<and>
    inventory_inv iv' \<and>
    item_count iid (cells iv') = item_count iid (cells iv) + room_in iid (cells iv) \<and>
    room_in iid (cells iv') = 0 \<and> length (cells iv') = length (cells iv)"
proof -
  from add_item_passes [OF assms(1,2), of iid mss]
  obtain err rem' iv' where a: "add_item iid qty mss iv =
      Some (case err of None \<Rightarrow> Inr (qty - rem') | Some e \<Rightarrow> Inl e, iv')"
    and inv: "inventory_inv iv'" and p: "pass_inv iid mss qty iv rem' iv'"
    and ex: "pass_exit iid mss iv err rem' iv'" by blast
  from p assms(3) have len: "length (cells iv') = length (cells iv)"
    and mc: "max_cells iv' = max_cells iv"
    and count: "item_count iid (cells iv') + rem' = item_count iid (cells iv) + qty"
    by (simp_all add: pass_inv_def)
  from p have "stack_size_for mss iv' = stack_size_for mss iv"
    by (intro stack_size_for_frame) (simp add: pass_inv_def)
  with p len mc have room: "room_in iid (cells iv') - rem' = room_in iid (cells iv) - qty"
    by (simp add: pass_inv_def capacity_for_def)
  from inv have "0 \<le> room_in iid (cells iv')"
    by (intro room_in_nonneg) (simp add: inventory_inv_def)
  with ex room assms(4,5) len mc obtain e where err: "err = Some e"
    by (cases err) (auto simp: pass_exit_def)
  with ex have "e = ConstraintViolation ''max_stack_size''" and "room_in iid (cells iv') = 0"
    by (simp_all add: pass_exit_def)
  with a err inv len room count show ?thesis by simp
qed

section \<open>Removing items\<close>

lemma remove_from_matching_Cons:
  "remove_from_matching iid rem (c # cs) =
     (if holds iid c then
        (let r = rem - fst (remove_items rem c); c' = snd (remove_items rem c)
         in if r \<le> 0 then (r, c' # cs)
            else (fst (remove_from_matching iid r cs), c' # snd (remove_from_matching iid r cs)))
      else (fst (remove_from_matching iid rem cs), c # snd (remove_from_matching iid rem cs)))"
  by (simp add: holds_def Let_def split: prod.splits)

declare remove_from_matching.simps(2) [simp del]

lemma rfm_skip:
  "\<not> holds iid c \<Longrightarrow> remove_from_matching iid rem (c # cs) =
     (fst (remove_from_matching iid rem cs), c # snd (remove_from_matching iid rem cs))"
  by (simp add: remove_from_matching_Cons)

lemma rfm_last:
  assumes "holds iid c" and "cell_inv c" and "0 < rem" and "rem \<le> quantity c"
  shows "remove_from_matching iid rem (c # cs) = (0, snd (remove_items rem c) # cs)"
    and "fst (remove_items rem c) = rem"
  using assms by (simp_all add: remove_from_matching_Cons remove_items_amount Let_def)

lemma rfm_more:
  assumes "holds iid c" and "cell_inv c" and "0 < rem" and "quantity c < rem"
  shows "remove_from_matching iid rem (c # cs) =
    (fst (remove_from_matching iid (rem - quantity c) cs),
     snd (remove_items rem c) # snd (remove_from_matching iid (rem - quantity c) cs))"
    and "fst (remove_items rem c) = quantity c"
  using assms by (simp_all add: remove_from_matching_Cons remove_items_amount Let_def)

lemma rfm_induct [consumes 2, case_names Nil skip last more]:
  assumes "list_all cell_inv cs" and "0 < rem"
    and "\<And>rem. 0 < rem \<Longrightarrow> P rem []"
    and "\<And>rem c cs. \<not> holds iid c \<Longrightarrow> cell_inv c \<Longrightarrow> list_all cell_inv cs \<Longrightarrow> 0 < rem
           \<Longrightarrow> P rem cs \<Longrightarrow> P rem (c # cs)"
    and "\<And>rem c cs. holds iid c \<Longrightarrow> cell_inv c \<Longrightarrow> list_all cell_inv cs \<Longrightarrow> 0 < rem
           \<Longrightarrow> rem \<le> quantity c \<Longrightarrow> P rem (c # cs)"
    and "\<And>rem c cs. holds iid c \<Longrightarrow> cell_inv c \<Longrightarrow> list_all cell_inv cs \<Longrightarrow> 0 < rem
           \<Longrightarrow> 0 < quantity c \<Longrightarrow> quantity c < rem
           \<Longrightarrow> P (rem - quantity c) cs \<Longrightarrow> P rem (c # cs)"
  shows "P rem cs"
  using assms(1,2)
proof (induction cs arbitrary: rem)
  case Nil
  then show ?case by (intro assms(3))
next
  case (Cons c cs)
  then have c: "cell_inv c" and cs: "list_all cell_inv cs" by simp_all
  show ?case
  proof (cases "holds iid c")
    case False
    with c cs Cons.prems(2) Cons.IH show ?thesis by (intro assms(4)) simp_all
  next
    case True
    with c have q: "0 < quantity c" by (simp add: holds_def cell_inv_is_empty cell_inv_def)
    show ?thesis
    proof (cases "rem \<le> quantity c")
      case True
      with \<open>holds iid c\<close> c cs Cons.prems(2) show ?thesis by (intro assms(5)) simp_all
    next
      case False
      then have "0 < rem - quantity c" by simp
      with cs have "P (rem - quantity c) cs" by (rule Cons.IH)
      with False \<open>holds iid c\<close> c cs Cons.prems(2) q show ?thesis by (intro assms(6)) simp_all
    qed
  qed
qed

lemmas rfm_simps = remove_from_matching.simps(1) rfm_skip rfm_last rfm_more

lemma length_remove_from_matching [simp]:
  "length (snd (remove_from_matching iid rem cs)) = length cs"
  by (induction cs arbitrary: rem) (simp_all add: remove_from_matching_Cons Let_def)

lemma remove_from_matching_remaining:
  assumes "list_all cell_inv cs" and "0 < rem"
  shows "fst (remove_from_matching iid rem cs) = rem - min rem (item_count iid cs)"
  using assms
proof (induction rule: rfm_induct [where iid = iid])
  case (last rem c cs)
  with item_count_nonneg [of cs iid] show ?case
    by (simp add: rfm_simps item_count_sum holds_count_of)
next
  case (more rem c cs)
  then show ?case by (simp add: rfm_simps item_count_sum holds_count_of)
qed (simp_all add: rfm_simps item_count_sum count_of_def)

lemma remove_from_matching_inv:
  assumes "list_all cell_inv cs" and "0 < rem"
  shows "list_all cell_inv (snd (remove_from_matching iid rem cs))"
  using assms
  by (induction rule: rfm_induct [where iid = iid]) (simp_all add: rfm_simps remove_items_inv)

lemma remove_from_matching_count:
  assumes "list_all cell_inv cs" and "0 < rem"
  shows "item_count iid (snd (remove_from_matching iid rem cs)) =
    item_count iid cs - (rem - fst (remove_from_matching iid rem cs))"
  using assms
  by (induction rule: rfm_induct [where iid = iid])
     (simp_all add: rfm_simps item_count_sum remove_items_count_of)

lemma remove_from_matching_count_other:
  assumes "list_all cell_inv cs" and "0 < rem" and "iid' \<noteq> iid"
  shows "item_count iid' (snd (remove_from_matching iid rem cs)) = item_count iid' cs"
  using assms
  by (induction rule: rfm_induct [where iid = iid])
     (simp_all add: rfm_simps item_count_sum remove_items_count_of_other)

lemma remove_from_matching_stack_sizes:
  "map max_stack_size (snd (remove_from_matching iid rem cs)) = map max_stack_size cs"
  by (induction cs arbitrary: rem) (simp_all add: remove_from_matching_Cons Let_def)

lemma remove_item_unfold:
  "0 < qty \<Longrightarrow> remove_item iid qty iv =
     (if fst (remove_from_matching iid qty (cells iv)) \<le> 0 then qty
      else qty - fst (remove_from_matching iid qty (cells iv)),
      iv\<lparr>cells := snd (remove_from_matching iid qty (cells iv))\<rparr>)"
  by (simp add: remove_item_def split: prod.splits)

lemma snd_remove_item:
  "snd (remove_item iid qty iv) =
     (if 0 < qty then iv\<lparr>cells := snd (remove_from_matching iid qty (cells iv))\<rparr> else iv)"
  by (simp add: remove_item_def split: prod.splits)

lemma remove_item_frame [aw_frame, simp]:
  "max_cells (snd (remove_item iid qty iv)) = max_cells iv"
  "default_max_stack_size (snd (remove_item iid qty iv)) = default_max_stack_size iv"
  "component_type (snd (remove_item iid qty iv)) = component_type iv"
  "length (cells (snd (remove_item iid qty iv))) = length (cells iv)"
  by (simp_all add: snd_remove_item)

section \<open>Queries\<close>

lemma has_from_iff:
  assumes "list_all cell_inv cs" and "total_quantity < qty"
  shows "has_from iid qty total_quantity cs \<longleftrightarrow> qty \<le> total_quantity + item_count iid cs"
  using assms
proof (induction cs arbitrary: total_quantity)
  case Nil
  then show ?case by simp
next
  case (Cons c cs)
  then have cs: "list_all cell_inv cs" by simp
  show ?case
  proof (cases "\<not> is_empty c \<and> item_id c = Some iid")
    case False
    with Cons.IH [OF cs Cons.prems(2)] show ?thesis by auto
  next
    case True
    show ?thesis
    proof (cases "qty \<le> total_quantity + quantity c")
      case True
      with \<open>\<not> is_empty c \<and> item_id c = Some iid\<close> item_count_nonneg [OF cs, of iid]
      show ?thesis by (simp add: Let_def)
    next
      case False
      then have "total_quantity + quantity c < qty" by simp
      from Cons.IH [OF cs this] False \<open>\<not> is_empty c \<and> item_id c = Some iid\<close>
      show ?thesis by (simp add: Let_def add.assoc)
    qed
  qed
qed

lemma clear_cells_eq:
  "clear_cells cs =
     Inr (map (\<lambda>c. c\<lparr>quantity := (if 0 > max_stack_size c then max_stack_size c else 0),
                       item_id := None\<rparr>) cs)"
  by (induction cs) (simp_all add: clear_slot_eq)

lemma clear_cells_inv_eq:
  "list_all cell_inv cs \<Longrightarrow> clear_cells cs = Inr (map (\<lambda>c. c\<lparr>quantity := 0, item_id := None\<rparr>) cs)"
  by (induction cs) (simp_all add: clear_slot_inv_eq cell_inv_def)

lemma validate_cells_count_eq:
  "validate_cells_count iv = iv\<lparr>cells := truncate_to (max_cells iv) (cells iv)\<rparr>"
  by (simp add: validate_cells_count_def truncate_to_def)

lemma validate_cells_count_inv:
  assumes "list_all cell_inv (cells iv)" and "1 \<le> max_cells iv" and "1 \<le> default_max_stack_size iv"
  shows "inventory_inv (validate_cells_count iv)"
proof -
  from assms(2) have "0 \<le> max_cells iv" by simp
  then have "int (length (truncate_to (max_cells iv) (cells iv))) \<le> max_cells iv"
    and "set (truncate_to (max_cells iv) (cells iv)) \<subseteq> set (cells iv)"
    by (rule length_truncate_to, rule set_truncate_to)
  with assms show ?thesis
    by (auto simp: validate_cells_count_eq inventory_inv_def list_all_iff)
qed

lemma InventoryComponent_init_Inr:
  assumes "InventoryComponent_init cs mc dmss = Inr iv"
  shows "max_cells iv = (case mc of None \<Rightarrow> 10 | Some m \<Rightarrow> m)"
    and "default_max_stack_size iv = (case dmss of None \<Rightarrow> 1 | Some d \<Rightarrow> d)"
    and "1 \<le> max_cells iv" and "1 \<le> default_max_stack_size iv"
    and "cells iv = truncate_to (max_cells iv) cs" and "component_type iv = INVENTORY"
  using assms
  by (auto simp: InventoryComponent_init_def validate_cells_count_eq bind_result_Inr_iff
      split: option.splits)

lemma InventoryComponent_init_inv:
  assumes "InventoryComponent_init cs mc dmss = Inr iv" and "list_all cell_inv cs"
  shows "inventory_inv iv"
proof -
  note i = InventoryComponent_init_Inr [OF assms(1)]
  from i(3) have "0 \<le> max_cells iv" by simp
  then have "int (length (truncate_to (max_cells iv) cs)) \<le> max_cells iv"
    and "set (truncate_to (max_cells iv) cs) \<subseteq> set cs"
    by (rule length_truncate_to, rule set_truncate_to)
  with assms(2) i(3,4,5) show ?thesis by (auto simp: inventory_inv_def list_all_iff)
qed

section \<open>Removing, clearing and the full inventory\<close>

lemma remove_item_spec:
  assumes "inventory_inv iv" and "0 < qty"
  shows "fst (remove_item iid qty iv) = min qty (item_count iid (cells iv))"
    and "item_count iid (cells (snd (remove_item iid qty iv))) =
      item_count iid (cells iv) - min qty (item_count iid (cells iv))"
    and "iid' \<noteq> iid \<Longrightarrow>
      item_count iid' (cells (snd (remove_item iid qty iv))) = item_count iid' (cells iv)"
proof -
  from assms(1) have cs: "list_all cell_inv (cells iv)" by (simp add: inventory_inv_def)
  note r = remove_from_matching_remaining [OF cs assms(2), of iid]
  from r assms(2) item_count_nonneg [OF cs, of iid]
  show "fst (remove_item iid qty iv) = min qty (item_count iid (cells iv))"
    by (simp add: remove_item_unfold min_def)
  from r assms(2) remove_from_matching_count [OF cs assms(2), of iid]
  show "item_count iid (cells (snd (remove_item iid qty iv))) =
      item_count iid (cells iv) - min qty (item_count iid (cells iv))"
    by (simp add: snd_remove_item)
  show "item_count iid' (cells (snd (remove_item iid qty iv))) = item_count iid' (cells iv)"
    if "iid' \<noteq> iid"
    using assms(2) remove_from_matching_count_other [OF cs assms(2) that]
    by (simp add: snd_remove_item)
qed

lemma remove_item_inv:
  assumes "inventory_inv iv"
  shows "inventory_inv (snd (remove_item iid qty iv))"
proof (cases "0 < qty")
  case True
  from assms have "list_all cell_inv (cells iv)" by (simp add: inventory_inv_def)
  from remove_from_matching_inv [OF this True, of iid] assms True
  show ?thesis by (simp add: snd_remove_item inventory_inv_def)
next
  case False
  with assms show ?thesis by (simp add: snd_remove_item)
qed

lemma clear_all_eq:
  "clear_all iv =
     Inr (iv\<lparr>cells := map (\<lambda>c. c\<lparr>quantity := (if 0 > max_stack_size c then max_stack_size c else 0),
                                    item_id := None\<rparr>) (cells iv)\<rparr>)"
  by (simp add: clear_all_def clear_cells_eq)

lemma clear_all_inv:
  assumes "inventory_inv iv" and "clear_all iv = Inr iv'"
  shows "inventory_inv iv'"
proof -
  from assms(1) have cs: "list_all cell_inv (cells iv)" by (simp add: inventory_inv_def)
  from assms(2) have "iv' = iv\<lparr>cells := map (\<lambda>c. c\<lparr>quantity := 0, item_id := None\<rparr>) (cells iv)\<rparr>"
    by (simp add: clear_all_def clear_cells_inv_eq [OF cs])
  with assms(1) show ?thesis by (auto simp: inventory_inv_def list_all_iff cell_inv_def)
qed

lemma item_count_all_empty: "list_all is_empty cs \<Longrightarrow> item_count iid cs = 0"
  by (induction cs) simp_all

lemma add_to_matching_all_full:
  assumes "list_all cell_inv cs" and "list_all is_full cs"
  shows "add_to_matching iid rem cs = (rem, cs)"
  using assms
proof (induction cs)
  case (Cons c cs)
  then show ?case
    by (cases "rem \<le> 0") (simp_all add: add_to_matching_Cons add_items_full_id Let_def add_items_nonpositive)
qed simp

lemma full_not_empty: "cell_inv c \<Longrightarrow> is_full c \<Longrightarrow> \<not> is_empty c"
  by (auto simp: cell_inv_def is_full_def is_empty_def)

lemma add_item_full:
  assumes "inventory_inv iv" and "is_full_inventory iv"
  shows "add_item iid qty mss iv = Some (Inr 0, iv)"
proof (cases "0 < qty")
  case False
  then show ?thesis by (simp add: add_item_nonpositive)
next
  case True
  from assms have cs: "list_all cell_inv (cells iv)" and full: "list_all is_full (cells iv)"
    and len: "\<not> int (length (cells iv)) < max_cells iv"
    by (simp_all add: inventory_inv_def is_full_inventory_def split: if_splits)
  from cs full have "first_index is_empty (cells iv) = None"
    by (auto simp: first_index_None_iff list_all_iff full_not_empty)
  with len have "add_to_empty_step iid mss qty iv = Break" by (simp add: add_to_empty_step_def)
  with True have "add_to_empty iid mss qty iv = Some (None, qty, iv)"
    by (simp add: add_to_empty_unfold)
  with True show ?thesis by (simp add: add_item_unfold add_to_matching_all_full [OF cs full])
qed

section \<open>Reachable inventories\<close>

lemma inventory_step_inv:
  assumes "inventory_step iv x iv'" and "inventory_inv iv"
  shows "inventory_inv iv'"
  using assms
proof cases
  case (add iid qty mss r)
  with add_item_ends [OF assms(2), of iid qty mss] show ?thesis by auto
next
  case (remove iid qty n)
  with remove_item_inv [OF assms(2), of iid qty] show ?thesis by simp
next
  case clear
  with assms(2) show ?thesis by (simp add: clear_all_inv)
qed

lemma inventory_step_total:
  assumes "inventory_inv iv"
  shows "\<exists>iv'. inventory_step iv x iv'"
proof (cases x)
  case (AddItem iid qty mss)
  with add_item_ends [OF assms, of iid qty mss] show ?thesis
    by (auto intro: inventory_step.add)
next
  case (RemoveItem iid qty)
  then show ?thesis by (auto intro: inventory_step.remove [OF surjective_pairing])
next
  case ClearAll
  then show ?thesis by (auto simp: clear_all_eq intro!: inventory_step.clear)
qed

lemma inventory_step_frame:
  assumes "inventory_step iv x iv'"
  shows "max_cells iv' = max_cells iv" and "default_max_stack_size iv' = default_max_stack_size iv"
    and "component_type iv' = component_type iv"
proof -
  have "max_cells iv' = max_cells iv \<and> default_max_stack_size iv' = default_max_stack_size iv \<and>
    component_type iv' = component_type iv"
    using assms
  proof cases
    case (add iid qty mss r)
    then show ?thesis by (simp add: add_item_frame)
  next
    case (remove iid qty n)
    from remove(2) have "iv' = snd (remove_item iid qty iv)" by simp
    then show ?thesis by simp
  next
    case clear
    then show ?thesis by (auto simp: clear_all_eq)
  qed
  then show "max_cells iv' = max_cells iv"
    and "default_max_stack_size iv' = default_max_stack_size iv"
    and "component_type iv' = component_type iv" by simp_all
qed

lemma reachable_inventory_inv: "reachable iv \<Longrightarrow> inventory_inv iv"
  by (induction rule: reachable.induct)
     (auto intro: InventoryComponent_init_inv inventory_step_inv)

section \<open>Properties\<close>

text \<open>
  C1 (allocation contract). On a well-formed inventory, with a stack size of at least one
  for the cells to create, \<^verbatim>\<open>add_item\<close> of a positive quantity returns, and what it returns
  is the smaller of the quantity asked for and the capacity left for the kind; the count of
  the kind grows by exactly that, the capacity shrinks by it, and the count of every other kind
  stays.
\<close>

theorem add_item_stores_min:
  assumes "inventory_inv iv" and "1 \<le> stack_size_for mss iv" and "0 < qty"
  shows "\<exists>iv'. add_item iid qty mss iv = Some (Inr (min qty (capacity_for iid mss iv)), iv') \<and>
    get_item_count iid iv' = get_item_count iid iv + min qty (capacity_for iid mss iv) \<and>
    capacity_for iid mss iv' = capacity_for iid mss iv - min qty (capacity_for iid mss iv) \<and>
    (\<forall>iid'. iid' \<noteq> iid \<longrightarrow> get_item_count iid' iv' = get_item_count iid' iv)"
  using add_item_total [OF assms, of iid] unfolding get_item_count_def by blast

theorem add_item_stores_min_witness:
  "\<exists>iv'. add_item ''potion'' 12 None
      \<lparr>component_type = INVENTORY, cells = [], max_cells = 2, default_max_stack_size = 5\<rparr> =
      Some (Inr 10, iv') \<and> get_item_count ''potion'' iv' = 10 \<and>
    capacity_for ''potion'' None iv' = 0"
  using add_item_stores_min [of
      "\<lparr>component_type = INVENTORY, cells = [], max_cells = 2, default_max_stack_size = 5\<rparr>"
      None 12 "''potion''"]
  by (auto simp: inventory_inv_def stack_size_for_def capacity_for_def room_in_def
      get_item_count_def)

text \<open>
  C2 (termination and invariant). On a well-formed inventory \<^verbatim>\<open>add_item\<close> ends for every
  item, quantity and stack size, by a return or by an exception, and the inventory it
  leaves is well formed, has the same capacity and holds the same number of every other kind.
\<close>

theorem add_item_returns:
  assumes "inventory_inv iv"
  shows "\<exists>r iv'. add_item iid qty mss iv = Some (r, iv') \<and> inventory_inv iv' \<and>
    max_cells iv' = max_cells iv \<and>
    (\<forall>iid'. iid' \<noteq> iid \<longrightarrow> get_item_count iid' iv' = get_item_count iid' iv)"
  using add_item_ends [OF assms, of iid qty mss] unfolding get_item_count_def by blast

theorem add_item_returns_witness:
  "\<exists>r iv'. add_item ''potion'' 3 (Some 0)
      \<lparr>component_type = INVENTORY, cells = [], max_cells = 2, default_max_stack_size = 5\<rparr> =
      Some (r, iv') \<and> inventory_inv iv' \<and> max_cells iv' = 2"
  using add_item_returns [of
      "\<lparr>component_type = INVENTORY, cells = [], max_cells = 2, default_max_stack_size = 5\<rparr>"
      "''potion''" 3 "Some 0"]
  by (auto simp: inventory_inv_def)

text \<open>
  C3 (every reachable inventory is well formed). An inventory built by the constructor from
  well-formed cells and changed only by \<^verbatim>\<open>add_item\<close>, \<^verbatim>\<open>remove_item\<close> and \<^verbatim>\<open>clear_all\<close>,
  whether they return or raise, has at most \<^verbatim>\<open>max_cells\<close> cells, each with
  \<open>0 \<le> quantity \<le> max_stack_size\<close> and an item exactly when the quantity is positive, and
  every operation ends in it.
\<close>

theorem reachable_well_formed:
  assumes "reachable iv"
  shows "inventory_inv iv \<and> (\<exists>iv'. inventory_step iv x iv')"
  using reachable_inventory_inv [OF assms] inventory_step_total by blast

theorem reachable_well_formed_witness:
  "inventory_inv \<lparr>component_type = INVENTORY, cells = [], max_cells = 2, default_max_stack_size = 5\<rparr>
   \<and> (\<exists>iv'. inventory_step
        \<lparr>component_type = INVENTORY, cells = [], max_cells = 2, default_max_stack_size = 5\<rparr>
        (AddItem ''potion'' 3 None) iv')"
  by (rule reachable_well_formed, rule reachable.init [of "[]" "Some 2" "Some 5"])
     (simp_all add: InventoryComponent_init_def validate_cells_count_def)

text \<open>
  C10 (adding in two calls or in one). With a stack size of at least one, adding \<open>a\<close> and then
  \<open>b\<close> items of a kind stores in total what adding \<open>a + b\<close> at once stores, and leaves the
  same count, whether or not the capacity is enough.
\<close>

theorem add_item_additive:
  assumes "inventory_inv iv" and "1 \<le> stack_size_for mss iv" and "0 < a" and "0 < b"
  shows "\<exists>n1 iv1 n2 iv2 n iv3.
    add_item iid a mss iv = Some (Inr n1, iv1) \<and> add_item iid b mss iv1 = Some (Inr n2, iv2) \<and>
    add_item iid (a + b) mss iv = Some (Inr n, iv3) \<and> n1 + n2 = n \<and>
    get_item_count iid iv2 = get_item_count iid iv3"
proof -
  let ?C = "capacity_for iid mss iv"
  from add_item_total [OF assms(1,2,3), of iid]
  obtain iv1 where 1: "add_item iid a mss iv = Some (Inr (min a ?C), iv1)"
    and inv1: "inventory_inv iv1"
    and c1: "item_count iid (cells iv1) = item_count iid (cells iv) + min a ?C"
    and cap1: "capacity_for iid mss iv1 = ?C - min a ?C"
    and d1: "default_max_stack_size iv1 = default_max_stack_size iv" by blast
  from d1 assms(2) have ss1: "1 \<le> stack_size_for mss iv1"
    by (simp add: stack_size_for_frame [of iv1 iv])
  from add_item_total [OF inv1 ss1 assms(4), of iid] cap1
  obtain iv2 where 2: "add_item iid b mss iv1 = Some (Inr (min b (?C - min a ?C)), iv2)"
    and c2: "item_count iid (cells iv2) = item_count iid (cells iv1) + min b (?C - min a ?C)"
    by auto
  from assms(3,4) have "0 < a + b" by simp
  from add_item_total [OF assms(1,2) this, of iid]
  obtain iv3 where 3: "add_item iid (a + b) mss iv = Some (Inr (min (a + b) ?C), iv3)"
    and c3: "item_count iid (cells iv3) = item_count iid (cells iv) + min (a + b) ?C" by blast
  from assms(3,4) capacity_for_nonneg [OF assms(1,2), of iid]
  have "min a ?C + min b (?C - min a ?C) = min (a + b) ?C" by (simp add: min_def)
  with 1 2 3 c1 c2 c3 show ?thesis by (simp add: get_item_count_def)
qed

theorem add_item_additive_witness:
  "\<exists>n1 iv1 n2 iv2 n iv3.
    add_item ''potion'' 4 None
      \<lparr>component_type = INVENTORY, cells = [], max_cells = 2, default_max_stack_size = 5\<rparr> =
      Some (Inr n1, iv1) \<and>
    add_item ''potion'' 3 None iv1 = Some (Inr n2, iv2) \<and>
    add_item ''potion'' (4 + 3) None
      \<lparr>component_type = INVENTORY, cells = [], max_cells = 2, default_max_stack_size = 5\<rparr> =
      Some (Inr n, iv3) \<and>
    n1 + n2 = n \<and> get_item_count ''potion'' iv2 = get_item_count ''potion'' iv3"
  using add_item_additive [of
      "\<lparr>component_type = INVENTORY, cells = [], max_cells = 2, default_max_stack_size = 5\<rparr>"
      None 4 3 "''potion''"]
  by (auto simp: inventory_inv_def stack_size_for_def)

text \<open>
  C36 (the exception of \<^verbatim>\<open>add_item\<close>). When the stack size for the cells to create is below
  one, the cells there are cannot take the quantity and a cell could still be created,
  \<^verbatim>\<open>add_item\<close> raises the constraint violation of \<^verbatim>\<open>max_stack_size\<close>, and it raises after it
  has filled every cell there is: the inventory holds more of the kind than before, by all
  the room there was, and no cell was added.
\<close>

theorem add_item_raises_after_filling:
  assumes "inventory_inv iv" and "0 < qty" and "stack_size_for mss iv < 1"
    and "room_in iid (cells iv) < qty" and "int (length (cells iv)) < max_cells iv"
  shows "\<exists>iv'. add_item iid qty mss iv = Some (Inl (ConstraintViolation ''max_stack_size''), iv') \<and>
    get_item_count iid iv' = get_item_count iid iv + room_in iid (cells iv) \<and>
    length (cells iv') = length (cells iv) \<and> inventory_inv iv'"
  using add_item_raises [OF assms] unfolding get_item_count_def by blast

theorem add_item_raises_after_filling_witness:
  "\<exists>iv'. add_item ''potion'' 9 (Some 0)
      \<lparr>component_type = INVENTORY,
       cells = [\<lparr>component_type = INVENTORY, item_id = Some ''potion'', quantity = 2,
                 max_stack_size = 5, slot_type = None, is_equipped = False\<rparr>],
       max_cells = 2, default_max_stack_size = 5\<rparr> =
      Some (Inl (ConstraintViolation ''max_stack_size''), iv') \<and>
    get_item_count ''potion'' iv' = 5 \<and> length (cells iv') = 1"
  using add_item_raises_after_filling [of
      "\<lparr>component_type = INVENTORY,
       cells = [\<lparr>component_type = INVENTORY, item_id = Some ''potion'', quantity = 2,
                 max_stack_size = 5, slot_type = None, is_equipped = False\<rparr>],
       max_cells = 2, default_max_stack_size = 5\<rparr>" 9 "Some 0" "''potion''"]
  by (auto simp: inventory_inv_def cell_inv_def stack_size_for_def room_in_def space_for_def
      is_empty_def get_item_count_def)

text \<open>
  C18 (removal contract). On a well-formed inventory \<^verbatim>\<open>remove_item\<close> of a positive quantity
  returns the smaller of the quantity asked for and the count of the kind, lowers the count
  by exactly that, leaves every other kind and the number of cells as they are, and keeps
  the inventory well formed.
\<close>

theorem remove_item_takes_min:
  assumes "inventory_inv iv" and "0 < qty"
  shows "fst (remove_item iid qty iv) = min qty (get_item_count iid iv) \<and>
    get_item_count iid (snd (remove_item iid qty iv)) =
      get_item_count iid iv - min qty (get_item_count iid iv) \<and>
    (\<forall>iid'. iid' \<noteq> iid \<longrightarrow>
       get_item_count iid' (snd (remove_item iid qty iv)) = get_item_count iid' iv) \<and>
    length (cells (snd (remove_item iid qty iv))) = length (cells iv) \<and>
    inventory_inv (snd (remove_item iid qty iv))"
  using remove_item_spec [OF assms] remove_item_inv [OF assms(1)]
  by (simp add: get_item_count_def)

theorem remove_item_takes_min_witness:
  "fst (remove_item ''potion'' 7
      \<lparr>component_type = INVENTORY,
       cells = [\<lparr>component_type = INVENTORY, item_id = Some ''potion'', quantity = 2,
                 max_stack_size = 5, slot_type = None, is_equipped = False\<rparr>],
       max_cells = 2, default_max_stack_size = 5\<rparr>) = 2"
  using remove_item_takes_min [of
      "\<lparr>component_type = INVENTORY,
       cells = [\<lparr>component_type = INVENTORY, item_id = Some ''potion'', quantity = 2,
                 max_stack_size = 5, slot_type = None, is_equipped = False\<rparr>],
       max_cells = 2, default_max_stack_size = 5\<rparr>" 7 "''potion''"]
  by (simp add: inventory_inv_def cell_inv_def get_item_count_def is_empty_def)

text \<open>
  On a well-formed inventory \<^verbatim>\<open>has_item\<close>, which
  stops at the first cell where the running total reaches the quantity, answers what the full
  count of \<^verbatim>\<open>get_item_count\<close> would answer.
\<close>

theorem has_item_iff_count:
  assumes "inventory_inv iv"
  shows "has_item iid qty iv \<longleftrightarrow> qty \<le> 0 \<or> qty \<le> get_item_count iid iv"
proof (cases "qty \<le> 0")
  case True
  then show ?thesis by (simp add: has_item_def)
next
  case False
  from assms have "list_all cell_inv (cells iv)" by (simp add: inventory_inv_def)
  from has_from_iff [OF this, of 0 qty iid] False show ?thesis
    by (simp add: has_item_def get_item_count_def)
qed

theorem has_item_iff_count_witness:
  "has_item ''potion'' 2
      \<lparr>component_type = INVENTORY,
       cells = [\<lparr>component_type = INVENTORY, item_id = Some ''potion'', quantity = 2,
                 max_stack_size = 5, slot_type = None, is_equipped = False\<rparr>],
       max_cells = 2, default_max_stack_size = 5\<rparr>"
  using has_item_iff_count [of
      "\<lparr>component_type = INVENTORY,
       cells = [\<lparr>component_type = INVENTORY, item_id = Some ''potion'', quantity = 2,
                 max_stack_size = 5, slot_type = None, is_equipped = False\<rparr>],
       max_cells = 2, default_max_stack_size = 5\<rparr>" "''potion''" 2]
  by (simp add: inventory_inv_def cell_inv_def get_item_count_def is_empty_def)

text \<open>
  After \<^verbatim>\<open>add_item\<close> has returned \<open>n\<close>, the inventory
  has \<open>n\<close> items of the kind, \<^verbatim>\<open>remove_item\<close> of \<open>n\<close> returns \<open>n\<close>, and the count of the kind is
  what it was before the two calls.
\<close>

theorem add_then_remove:
  assumes "inventory_inv iv" and "1 \<le> stack_size_for mss iv" and "0 < qty"
  shows "\<exists>n iv'. add_item iid qty mss iv = Some (Inr n, iv') \<and> has_item iid n iv' \<and>
    fst (remove_item iid n iv') = n \<and>
    get_item_count iid (snd (remove_item iid n iv')) = get_item_count iid iv"
proof -
  let ?n = "min qty (capacity_for iid mss iv)"
  from add_item_total [OF assms, of iid]
  obtain iv' where a: "add_item iid qty mss iv = Some (Inr ?n, iv')" and inv: "inventory_inv iv'"
    and c: "item_count iid (cells iv') = item_count iid (cells iv) + ?n" by blast
  from inv have cs: "list_all cell_inv (cells iv')" by (simp add: inventory_inv_def)
  from assms(1) have "0 \<le> item_count iid (cells iv)"
    by (intro item_count_nonneg) (simp add: inventory_inv_def)
  with c have le: "?n \<le> item_count iid (cells iv')" by simp
  have h: "has_item iid ?n iv'"
  proof (cases "?n \<le> 0")
    case True
    then show ?thesis by (simp add: has_item_def)
  next
    case False
    then have "0 < ?n" by linarith
    from has_from_iff [OF cs this, of iid] le have "has_from iid ?n 0 (cells iv')" by simp
    with False show ?thesis by (simp add: has_item_def)
  qed
  have "fst (remove_item iid ?n iv') = ?n \<and>
    item_count iid (cells (snd (remove_item iid ?n iv'))) = item_count iid (cells iv)"
  proof (cases "0 < ?n")
    case True
    from remove_item_spec(1,2) [OF inv True, of iid] le c show ?thesis by simp
  next
    case False
    with assms(3) capacity_for_nonneg [OF assms(1,2), of iid] have z: "?n = 0" by linarith
    from c show ?thesis unfolding z by (simp add: remove_item_def)
  qed
  with a h show ?thesis by (auto simp: get_item_count_def)
qed

theorem add_then_remove_witness:
  "\<exists>n iv'. add_item ''potion'' 12 None
      \<lparr>component_type = INVENTORY, cells = [], max_cells = 2, default_max_stack_size = 5\<rparr> =
      Some (Inr n, iv') \<and> has_item ''potion'' n iv' \<and>
    fst (remove_item ''potion'' n iv') = n \<and>
    get_item_count ''potion'' (snd (remove_item ''potion'' n iv')) = 0"
  using add_then_remove [of
      "\<lparr>component_type = INVENTORY, cells = [], max_cells = 2, default_max_stack_size = 5\<rparr>"
      None 12 "''potion''"]
  by (auto simp: inventory_inv_def stack_size_for_def get_item_count_def)

text \<open>
  When \<^verbatim>\<open>is_full\<close> answers true on a well-formed
  inventory, \<^verbatim>\<open>add_item\<close> returns 0 for every item, quantity and stack size, creates no
  cell and changes nothing.
\<close>

theorem add_item_on_full:
  assumes "inventory_inv iv" and "is_full_inventory iv"
  shows "add_item iid qty mss iv = Some (Inr 0, iv)"
  using assms by (rule add_item_full)

theorem add_item_on_full_witness:
  "add_item ''potion'' 3 None
      \<lparr>component_type = INVENTORY,
       cells = [\<lparr>component_type = INVENTORY, item_id = Some ''elixir'', quantity = 5,
                 max_stack_size = 5, slot_type = None, is_equipped = False\<rparr>],
       max_cells = 1, default_max_stack_size = 5\<rparr> =
    Some (Inr 0,
      \<lparr>component_type = INVENTORY,
       cells = [\<lparr>component_type = INVENTORY, item_id = Some ''elixir'', quantity = 5,
                 max_stack_size = 5, slot_type = None, is_equipped = False\<rparr>],
       max_cells = 1, default_max_stack_size = 5\<rparr>)"
  by (rule add_item_on_full)
     (simp_all add: inventory_inv_def cell_inv_def is_full_inventory_def is_full_def)

text \<open>
  A constructed inventory has the first \<^verbatim>\<open>max_cells\<close> cells of the
  list it was given, in their order, and no more: cells beyond the capacity are dropped
  without an error. Built from well-formed cells it is well formed.
\<close>

theorem InventoryComponent_init_truncates:
  assumes "InventoryComponent_init cs mc dmss = Inr iv"
  shows "cells iv = take (nat (max_cells iv)) cs \<and> int (length (cells iv)) \<le> max_cells iv \<and>
    (list_all cell_inv cs \<longrightarrow> inventory_inv iv)"
proof -
  note i = InventoryComponent_init_Inr [OF assms]
  from i(3) have "0 \<le> max_cells iv" by simp
  with i(5) have "cells iv = take (nat (max_cells iv)) cs" and "int (length (cells iv)) \<le> max_cells iv"
    by (simp_all add: truncate_to_take length_truncate_to)
  with InventoryComponent_init_inv [OF assms] show ?thesis by simp
qed

theorem InventoryComponent_init_truncates_witness:
  "InventoryComponent_init [empty_cell 5, empty_cell 6, empty_cell 7] (Some 2) None =
     Inr \<lparr>component_type = INVENTORY, cells = [empty_cell 5, empty_cell 6], max_cells = 2,
          default_max_stack_size = 1\<rparr> \<and>
   [empty_cell 5, empty_cell 6] = take (nat 2) [empty_cell 5, empty_cell 6, empty_cell 7] \<and>
   inventory_inv \<lparr>component_type = INVENTORY, cells = [empty_cell 5, empty_cell 6], max_cells = 2,
          default_max_stack_size = 1\<rparr>"
  using InventoryComponent_init_truncates [of "[empty_cell 5, empty_cell 6, empty_cell 7]"
      "Some 2" None
      "\<lparr>component_type = INVENTORY, cells = [empty_cell 5, empty_cell 6], max_cells = 2,
          default_max_stack_size = 1\<rparr>"]
  by (simp add: InventoryComponent_init_def validate_cells_count_def py_slice_to_def)

text \<open>
  \<^verbatim>\<open>clear_all\<close> never raises; it empties every cell in place, so the number
  of cells, their stack sizes and the capacity stay and no kind is counted any more.
\<close>

theorem clear_all_empties:
  "\<exists>iv'. clear_all iv = Inr iv' \<and> list_all is_empty (cells iv') \<and>
    map max_stack_size (cells iv') = map max_stack_size (cells iv) \<and>
    max_cells iv' = max_cells iv \<and> get_item_count iid iv' = 0"
proof -
  let ?cs = "map (\<lambda>c. c\<lparr>quantity := (if 0 > max_stack_size c then max_stack_size c else 0),
                         item_id := None\<rparr>) (cells iv)"
  have "list_all is_empty ?cs" by (simp add: list_all_iff is_empty_def)
  then show ?thesis
    by (simp add: clear_all_eq get_item_count_def item_count_all_empty comp_def)
qed

section \<open>A loop that does not end\<close>

text \<open>
  The second pass relies on the invariant of the cells. An empty cell with quantity and
  stack limit zero takes nothing and stays the first empty cell, so a round leaves the
  remaining quantity and the state as they are (up to the item identity of that cell),
  and the loop has no result.
\<close>

lemma stuck_step:
  assumes "first_index is_empty (cells iv) = Some i" and "quantity (cells iv ! i) = 0"
    and "max_stack_size (cells iv ! i) = 0" and "0 < rem"
  shows "\<exists>iv'. add_to_empty_step iid mss rem iv = Continue rem iv' \<and>
    first_index is_empty (cells iv') = Some i \<and> quantity (cells iv' ! i) = 0 \<and>
    max_stack_size (cells iv' ! i) = 0"
proof -
  from assms(1) have i: "i < length (cells iv)" and e: "is_empty (cells iv ! i)"
    and b: "\<forall>j<i. \<not> is_empty (cells iv ! j)"
    by (simp_all add: first_index_Some_iff)
  let ?c = "(cells iv ! i)\<lparr>item_id := Some iid\<rparr>"
  from assms(2,3,4) e have a: "add_items iid rem (cells iv ! i) = (0, ?c)"
    by (simp add: add_items_def Let_def)
  have "first_index is_empty ((cells iv)[i := ?c]) = Some i"
    using i b assms(2) by (auto simp: first_index_Some_iff nth_list_update is_empty_def)
  with a i assms(2,3) show ?thesis by (simp add: step_fill [OF assms(1)])
qed

lemma add_to_empty_stuck:
  assumes "add_to_empty iid mss rem iv = Some y"
  shows "\<not> (0 < rem \<and> (\<exists>i. first_index is_empty (cells iv) = Some i \<and>
    quantity (cells iv ! i) = 0 \<and> max_stack_size (cells iv ! i) = 0))"
  using assms
proof (induction iid mss rem iv y rule: add_to_empty_induct)
  case (step add_to_empty' iid mss rem iv y)
  show ?case
  proof
    assume s: "0 < rem \<and> (\<exists>i. first_index is_empty (cells iv) = Some i \<and>
      quantity (cells iv ! i) = 0 \<and> max_stack_size (cells iv ! i) = 0)"
    then obtain i where i: "first_index is_empty (cells iv) = Some i"
      "quantity (cells iv ! i) = 0" "max_stack_size (cells iv ! i) = 0" and r: "0 < rem" by blast
    from stuck_step [OF i r, of iid mss]
    obtain iv' where c: "add_to_empty_step iid mss rem iv = Continue rem iv'"
      and i': "first_index is_empty (cells iv') = Some i" "quantity (cells iv' ! i) = 0"
        "max_stack_size (cells iv' ! i) = 0" by blast
    from step(2) r c have "add_to_empty' iid mss rem iv' = Some y" by simp
    from step(1) [OF this] r i' show False by blast
  qed
qed

lemma add_to_matching_no_match:
  "list_all (\<lambda>c. \<not> holds iid c) cs \<Longrightarrow> add_to_matching iid rem cs = (rem, cs)"
  by (induction cs) (simp_all add: atm_skip)

text \<open>
  C35 (the loop needs the invariant). When the first empty cell of an inventory has
  quantity and stack limit zero and no cell holds the kind, \<^verbatim>\<open>add_item\<close> of a positive
  quantity does not end: the \<^verbatim>\<open>while\<close> loop asks the same cell again and again. Such a cell
  violates the invariant; no constructor and no assignment builds it.
\<close>

theorem add_item_diverges:
  assumes "first_index is_empty (cells iv) = Some i" and "quantity (cells iv ! i) = 0"
    and "max_stack_size (cells iv ! i) = 0" and "0 < qty"
    and "list_all (\<lambda>c. \<not> holds iid c) (cells iv)"
  shows "add_item iid qty mss iv = None"
proof -
  have "add_to_empty iid mss qty iv = None"
  proof (cases "add_to_empty iid mss qty iv")
    case (Some y)
    from add_to_empty_stuck [OF this] assms show ?thesis by blast
  qed simp
  with assms(4,5) show ?thesis
    by (simp add: add_item_unfold add_to_matching_no_match)
qed

theorem add_item_diverges_witness:
  "add_item ''potion'' 1 None
     \<lparr>component_type = INVENTORY, cells = [empty_cell 0], max_cells = 2,
      default_max_stack_size = 5\<rparr> = None"
  using add_item_diverges [of
      "\<lparr>component_type = INVENTORY, cells = [empty_cell 0], max_cells = 2,
        default_max_stack_size = 5\<rparr>" 0 1 "''potion''" None]
  by (simp add: empty_cell_def is_empty_def holds_def)

section \<open>Assigning the cells and the capacity\<close>

lemma assign_cells_eq: "assign_cells cs iv = iv\<lparr>cells := truncate_to (max_cells iv) cs\<rparr>"
  by (simp add: assign_cells_def validate_cells_count_eq)

lemma inventory_inv_assign_cells:
  assumes "inventory_inv iv" and "list_all cell_inv cs"
  shows "inventory_inv (assign_cells cs iv)"
  using assms validate_cells_count_inv [of "iv\<lparr>cells := cs\<rparr>"]
  by (simp add: assign_cells_def inventory_inv_def)

lemma inventory_inv_assign_max_cells:
  assumes "inventory_inv iv" and "assign_max_cells v iv = Inr iv'"
  shows "inventory_inv iv'"
proof -
  from assms(2) have v: "1 \<le> v" and iv': "iv' = validate_cells_count (iv\<lparr>max_cells := v\<rparr>)"
    by (auto simp: assign_max_cells_def check_ge_def split: if_splits)
  from assms(1) v show ?thesis unfolding iv'
    by (intro validate_cells_count_inv) (simp_all add: inventory_inv_def)
qed

lemma assign_max_cells_eq:
  "1 \<le> v \<Longrightarrow> assign_max_cells v iv = Inr (iv\<lparr>max_cells := v, cells := truncate_to v (cells iv)\<rparr>)"
  by (simp add: assign_max_cells_def validate_cells_count_eq)

text \<open>
  \<^verbatim>\<open>inventory.max_cells = v\<close> raises for \<open>v\<close> below one and
  otherwise keeps the first \<open>v\<close> cells: the model validator runs after the assignment and
  drops the cells beyond the new capacity with their items. The inventory stays well
  formed.
\<close>

theorem assign_max_cells_truncates:
  assumes "inventory_inv iv"
  shows "assign_max_cells v iv =
      (if 1 \<le> v then Inr (iv\<lparr>max_cells := v, cells := take (nat v) (cells iv)\<rparr>)
       else Inl (ConstraintViolation ''max_cells'')) \<and>
    (1 \<le> v \<longrightarrow> inventory_inv (iv\<lparr>max_cells := v, cells := take (nat v) (cells iv)\<rparr>))"
proof (cases "1 \<le> v")
  case True
  with assms show ?thesis
    by (auto simp: assign_max_cells_eq truncate_to_take inventory_inv_def list_all_length)
next
  case False
  then show ?thesis by (simp add: assign_max_cells_def)
qed

theorem assign_max_cells_truncates_witness:
  "assign_max_cells 1
     \<lparr>component_type = INVENTORY, cells = [empty_cell 5, empty_cell 6], max_cells = 2,
      default_max_stack_size = 5\<rparr> =
   Inr \<lparr>component_type = INVENTORY, cells = [empty_cell 5], max_cells = 1,
        default_max_stack_size = 5\<rparr>"
  using assign_max_cells_truncates [of
      "\<lparr>component_type = INVENTORY, cells = [empty_cell 5, empty_cell 6], max_cells = 2,
        default_max_stack_size = 5\<rparr>" 1]
  by (simp add: inventory_inv_def)

end
