(* ===== verification/AW_FirstFit.thy ===== *)
theory AW_FirstFit
  imports AW_Inventory
begin

text \<open>
  The layout of the cells after \<^verbatim>\<open>InventoryComponent.add_item\<close>. The specification calls the
  allocation two-pass, first-fit and order-preserving (section 4.4): the cells that hold
  the kind take what they have room for, in order; then the empty cells do, in order; then
  cells are created at the end while the capacity allows. The code finds the empty cells
  by a scan from the start in every round of its \<^verbatim>\<open>while\<close> loop. \<open>first_fit\<close> is the same
  allocation as one pass over the cells for each of the two kinds of cell and a list of
  new stacks; the theory shows that \<open>add_item\<close> computes exactly \<open>first_fit\<close>, and reads
  off the reference definition what the order of the cells guarantees.
\<close>

section \<open>The allocation in one pass\<close>

text \<open>
  \<open>pour P iid rem cs\<close>: every cell that satisfies \<open>P\<close>, in order, takes by its own
  \<^verbatim>\<open>add_items\<close> what it accepts of the remaining quantity, while something remains.
\<close>

fun pour :: "(cell \<Rightarrow> bool) \<Rightarrow> string \<Rightarrow> int \<Rightarrow> cell list \<Rightarrow> int \<times> cell list" where
  "pour P iid rem [] = (rem, [])"
| "pour P iid rem (c # cs) =
     (if P c \<and> 0 < rem then
        (case pour P iid (rem - fst (add_items iid rem c)) cs of
           (r, cs') \<Rightarrow> (r, snd (add_items iid rem c) # cs'))
      else (case pour P iid rem cs of (r, cs') \<Rightarrow> (r, c # cs')))"

text \<open>\<open>stacks iid s rem n\<close>: at most \<open>n\<close> new cells of stack size \<open>s\<close>, while something remains.\<close>

fun stacks :: "string \<Rightarrow> int \<Rightarrow> int \<Rightarrow> nat \<Rightarrow> int \<times> cell list" where
  "stacks iid s rem 0 = (rem, [])"
| "stacks iid s rem (Suc n) =
     (if 0 < rem then
        (case stacks iid s (rem - fst (add_items iid rem (empty_cell s))) n of
           (r, cs) \<Rightarrow> (r, snd (add_items iid rem (empty_cell s)) # cs))
      else (rem, []))"

text \<open>The second pass: the empty cells, then the new cells.\<close>

definition overflow :: "string \<Rightarrow> int option \<Rightarrow> int \<Rightarrow> inventory \<Rightarrow> int \<times> cell list" where
  "overflow iid mss rem iv =
     (case pour is_empty iid rem (cells iv) of
        (r, cs) \<Rightarrow>
          (case stacks iid (stack_size_for mss iv) r (nat (max_cells iv - int (length cs))) of
             (r', new_cells) \<Rightarrow> (r', cs @ new_cells)))"

definition first_fit :: "string \<Rightarrow> int \<Rightarrow> int option \<Rightarrow> inventory \<Rightarrow> int \<times> inventory" where
  "first_fit iid qty mss iv =
     (if qty \<le> 0 then (0, iv)
      else
        (case pour (holds iid) iid qty (cells iv) of
           (r1, cs1) \<Rightarrow>
             (case overflow iid mss r1 (iv\<lparr>cells := cs1\<rparr>) of
                (r2, cs2) \<Rightarrow> (qty - r2, iv\<lparr>cells := cs2\<rparr>))))"

section \<open>The order of service\<close>

text \<open>
  The policy in words of the cells before the call: the cells that hold the kind come
  first (\<open>rank\<close> 0), then the empty cells (1), then the cells that the call creates (2),
  each group in the order of the list; a cell of another kind is never served (3).
  \<open>served_before\<close> is that order and \<open>received\<close> says that a position of the list after
  the call is new or holds another cell than before.
\<close>

definition rank :: "string \<Rightarrow> cell list \<Rightarrow> nat \<Rightarrow> nat" where
  "rank iid cs k =
     (if length cs \<le> k then 2 else if holds iid (cs ! k) then 0
      else if is_empty (cs ! k) then 1 else 3)"

definition served_before :: "string \<Rightarrow> cell list \<Rightarrow> nat \<Rightarrow> nat \<Rightarrow> bool" where
  "served_before iid cs i j \<longleftrightarrow>
     rank iid cs i < 3 \<and> (rank iid cs i < rank iid cs j \<or> rank iid cs i = rank iid cs j \<and> i < j)"

definition received :: "cell list \<Rightarrow> cell list \<Rightarrow> nat \<Rightarrow> bool" where
  "received cs cs' j \<longleftrightarrow> j < length cs' \<and> (length cs \<le> j \<or> cs' ! j \<noteq> cs ! j)"

section \<open>One pass over the cells\<close>

lemma pour_done [simp]: "rem \<le> 0 \<Longrightarrow> pour P iid rem cs = (rem, cs)"
  by (induction cs) simp_all

lemma pour_none: "\<forall>c \<in> set cs. \<not> P c \<Longrightarrow> pour P iid rem cs = (rem, cs)"
  by (induction cs) simp_all

lemma length_pour [simp]: "length (snd (pour P iid rem cs)) = length cs"
  by (induction cs arbitrary: rem) (simp_all add: case_prod_unfold)

lemma stacks_done [simp]: "rem \<le> 0 \<Longrightarrow> stacks iid s rem n = (rem, [])"
  by (cases n) simp_all

lemma length_stacks: "length (snd (stacks iid s rem n)) \<le> n"
  by (induction n arbitrary: rem) (simp_all add: case_prod_unfold)

text \<open>The first pass of the code is the pass over the cells that hold the kind.\<close>

lemma add_to_matching_pour: "add_to_matching iid rem cs = pour (holds iid) iid rem cs"
proof (induction cs arbitrary: rem)
  case (Cons c cs)
  show ?case
  proof (cases "0 < rem")
    case True
    with Cons.IH show ?thesis by (auto simp: add_to_matching_Cons Let_def case_prod_unfold)
  next
    case False
    with Cons.IH [of rem] show ?thesis by (simp add: add_to_matching_Cons add_items_def)
  qed
qed simp

text \<open>
  A round of the loop that fills the first empty cell leaves the result of the pass over
  the empty cells as it was.
\<close>

lemma pour_first:
  assumes "first_index P cs = Some i" and "0 < rem"
    and "\<not> P (snd (add_items iid rem (cs ! i)))"
  shows "pour P iid rem cs =
    pour P iid (rem - fst (add_items iid rem (cs ! i))) (cs[i := snd (add_items iid rem (cs ! i))])"
  using assms
proof (induction cs arbitrary: i)
  case (Cons c cs)
  show ?case
  proof (cases "P c")
    case True
    with Cons.prems show ?thesis by simp
  next
    case False
    with Cons.prems(1) obtain j where j: "first_index P cs = Some j" and i: "i = Suc j"
      by (auto split: if_splits)
    from Cons.IH [OF j Cons.prems(2)] Cons.prems(3) False show ?thesis by (simp add: i)
  qed
qed simp

section \<open>What one pass guarantees\<close>

lemma pour_nth_other:
  "i < length cs \<Longrightarrow> \<not> P (cs ! i) \<Longrightarrow> snd (pour P iid rem cs) ! i = cs ! i"
  by (induction cs arbitrary: rem i) (auto simp: case_prod_unfold nth_Cons split: nat.splits)

lemma pour_le:
  "list_all cell_inv cs \<Longrightarrow> fst (pour P iid rem cs) \<le> rem"
proof (induction cs arbitrary: rem)
  case (Cons c cs)
  from Cons.prems have c: "cell_inv c" and cs: "list_all cell_inv cs" by simp_all
  from Cons.IH [OF cs, of "rem - fst (add_items iid rem c)"] Cons.IH [OF cs, of rem]
    add_items_bounds(1) [OF c, of iid rem]
  show ?case by (simp add: case_prod_unfold)
qed simp

lemma pour_inv:
  "list_all cell_inv cs \<Longrightarrow> list_all cell_inv (snd (pour P iid rem cs))"
  by (induction cs arbitrary: rem) (simp_all add: case_prod_unfold add_items_inv)

text \<open>When something is left after the pass, every cell of the pass is full.\<close>

lemma pour_left_full:
  assumes "list_all cell_inv cs" and "\<And>c. P c \<Longrightarrow> holds iid c \<or> is_empty c"
    and "0 < fst (pour P iid rem cs)" and "i < length cs" and "P (cs ! i)"
  shows "is_full (snd (pour P iid rem cs) ! i)"
  using assms(1,3-)
proof (induction cs arbitrary: rem i)
  case (Cons c cs)
  from Cons.prems(1) have c: "cell_inv c" and cs: "list_all cell_inv cs" by simp_all
  from pour_le [OF Cons.prems(1), of P iid rem] Cons.prems(2) have rem: "0 < rem" by simp
  let ?r = "if P c then rem - fst (add_items iid rem c) else rem"
  from rem have p: "pour P iid rem (c # cs) =
      (fst (pour P iid ?r cs), (if P c then snd (add_items iid rem c) else c) # snd (pour P iid ?r cs))"
    by (simp add: case_prod_unfold)
  with Cons.prems(2) have left: "0 < fst (pour P iid ?r cs)" by (simp del: pour.simps)
  show ?case
  proof (cases i)
    case 0
    with Cons.prems(4) have "P c" by simp
    with pour_le [OF cs, of P iid ?r] left have "fst (add_items iid rem c) < rem" by simp
    from add_items_partial_full [OF c assms(2) [OF \<open>P c\<close>] this] \<open>P c\<close> 0 show ?thesis
      by (simp add: p del: pour.simps)
  next
    case (Suc k)
    with Cons.prems(3,4) Cons.IH [OF cs left, of k] show ?thesis by (simp add: p del: pour.simps)
  qed
qed simp

text \<open>A cell of the pass that is served leaves every earlier cell of the pass full.\<close>

lemma pour_first_fit:
  assumes "list_all cell_inv cs" and "\<And>c. P c \<Longrightarrow> holds iid c \<or> is_empty c"
    and "i < j" and "j < length cs" and "P (cs ! i)"
    and "snd (pour P iid rem cs) ! j \<noteq> cs ! j"
  shows "is_full (snd (pour P iid rem cs) ! i)"
  using assms(1,3-)
proof (induction cs arbitrary: rem i j)
  case (Cons c cs)
  from Cons.prems(1) have c: "cell_inv c" and cs: "list_all cell_inv cs" by simp_all
  from Cons.prems(5) have rem: "0 < rem" by (cases "0 < rem") simp_all
  let ?r = "if P c then rem - fst (add_items iid rem c) else rem"
  from rem have p: "pour P iid rem (c # cs) =
      (fst (pour P iid ?r cs), (if P c then snd (add_items iid rem c) else c) # snd (pour P iid ?r cs))"
    by (simp add: case_prod_unfold)
  from Cons.prems(2) obtain j' where j: "j = Suc j'" by (cases j) simp_all
  with Cons.prems(3,5) have j': "j' < length cs" and ch: "snd (pour P iid ?r cs) ! j' \<noteq> cs ! j'"
    by (simp_all add: p del: pour.simps)
  show ?case
  proof (cases i)
    case 0
    with Cons.prems(4) have "P c" by simp
    from ch have "0 < ?r" by (cases "0 < ?r") simp_all
    with \<open>P c\<close> have "fst (add_items iid rem c) < rem" by simp
    from add_items_partial_full [OF c assms(2) [OF \<open>P c\<close>] this] \<open>P c\<close> 0 show ?thesis
      by (simp add: p del: pour.simps)
  next
    case (Suc k)
    with Cons.prems(2,4) j Cons.IH [OF cs _ j' _ ch, of k] show ?thesis by (simp add: p del: pour.simps)
  qed
qed simp

lemma pour_changed:
  assumes "j < length cs" and "snd (pour P iid rem cs) ! j \<noteq> cs ! j"
  shows "P (cs ! j)" and "0 < rem"
  using assms pour_nth_other [of j cs P iid rem] by (auto intro: ccontr)

lemma pour_nth:
  "k < length cs \<Longrightarrow> \<exists>r. snd (pour P iid rem cs) ! k = snd (add_items iid r (cs ! k))"
proof (induction cs arbitrary: rem k)
  case (Cons c cs)
  show ?case
  proof (cases k)
    case 0
    have "\<exists>r. c = snd (add_items iid r c)" by (rule exI [of _ 0]) simp
    then show ?thesis using 0 by (auto simp: case_prod_unfold)
  next
    case (Suc k')
    with Cons.prems Cons.IH [of k'] show ?thesis by (simp add: case_prod_unfold)
  qed
qed simp

lemma pour_holds:
  assumes "list_all cell_inv cs" and "k < length cs"
  shows "holds iid (cs ! k) \<Longrightarrow> holds iid (snd (pour P iid rem cs) ! k)"
    and "snd (pour P iid rem cs) ! k \<noteq> cs ! k \<Longrightarrow> is_empty (cs ! k)
      \<Longrightarrow> holds iid (snd (pour P iid rem cs) ! k)"
proof -
  from assms have c: "cell_inv (cs ! k)" by (simp add: list_all_length)
  from pour_nth [OF assms(2), of P iid rem]
  obtain r where r: "snd (pour P iid rem cs) ! k = snd (add_items iid r (cs ! k))" by blast
  show "holds iid (cs ! k) \<Longrightarrow> holds iid (snd (pour P iid rem cs) ! k)"
    by (simp add: r add_items_holds [OF c])
  show "holds iid (snd (pour P iid rem cs) ! k)"
    if "snd (pour P iid rem cs) ! k \<noteq> cs ! k" and "is_empty (cs ! k)"
  proof -
    from that(1) have "0 < r" unfolding r by (cases "0 < r") simp_all
    with that(2) show ?thesis by (simp add: r add_items_holds [OF c])
  qed
qed

text \<open>The new cells: all hold the kind, and all but the last are full.\<close>

lemma stacks_holds:
  assumes "1 \<le> s" and "i < length (snd (stacks iid s rem n))"
  shows "holds iid (snd (stacks iid s rem n) ! i)"
  using assms(2)
proof (induction n arbitrary: rem i)
  case (Suc n)
  then have rem: "0 < rem" by (cases "0 < rem") simp_all
  note f = add_items_into_empty(3) [OF empty_cell_facts(2) [OF assms(1)] empty_cell_facts(1) rem,
      of iid]
  from Suc rem f show ?case by (cases i) (simp_all add: case_prod_unfold)
qed simp

lemma stacks_first_fit:
  assumes "1 \<le> s" and "i < j" and "j < length (snd (stacks iid s rem n))"
  shows "is_full (snd (stacks iid s rem n) ! i)"
  using assms(2,3)
proof (induction n arbitrary: rem i j)
  case (Suc n)
  then have rem: "0 < rem" by (cases "0 < rem") simp_all
  let ?c = "empty_cell s"
  let ?r = "rem - fst (add_items iid rem ?c)"
  from rem have st: "stacks iid s rem (Suc n) =
      (fst (stacks iid s ?r n), snd (add_items iid rem ?c) # snd (stacks iid s ?r n))"
    by (simp add: case_prod_unfold)
  from Suc.prems(1) obtain j' where j: "j = Suc j'" by (cases j) simp_all
  with Suc.prems(2) have j': "j' < length (snd (stacks iid s ?r n))" by (simp add: st del: stacks.simps)
  show ?case
  proof (cases i)
    case 0
    from j' have "0 < ?r" by (cases "0 < ?r") simp_all
    then have "fst (add_items iid rem ?c) < rem" by simp
    from add_items_partial_full [OF empty_cell_facts(2) [OF assms(1)] _ this] 0 show ?thesis
      by (simp add: st del: stacks.simps)
  next
    case (Suc k)
    with Suc.prems(1) j Suc.IH [OF _ j', of k] show ?thesis by (simp add: st del: stacks.simps)
  qed
qed simp

section \<open>What the two passes guarantee\<close>

text \<open>The two lemmas on one pass, for the two passes of the allocation.\<close>

lemmas holding_left_full = pour_left_full [where P = "holds iid" and iid = iid, simplified] for iid
lemmas empty_left_full = pour_left_full [where P = is_empty, simplified]
lemmas holding_first_fit = pour_first_fit [where P = "holds iid" and iid = iid, simplified] for iid
lemmas empty_first_fit = pour_first_fit [where P = is_empty, simplified]

lemma pass_one:
  assumes ci: "list_all cell_inv cs" and p1: "pour (holds iid) iid qty cs = (r1, cs1)"
  shows "length cs1 = length cs" and "list_all cell_inv cs1"
    and "k < length cs \<Longrightarrow> holds iid (cs ! k) \<Longrightarrow> holds iid (cs1 ! k)"
    and "k < length cs \<Longrightarrow> \<not> holds iid (cs ! k) \<Longrightarrow> cs1 ! k = cs ! k"
    and "0 < r1 \<Longrightarrow> k < length cs \<Longrightarrow> holds iid (cs ! k) \<Longrightarrow> is_full (cs1 ! k)"
    and "i < j \<Longrightarrow> j < length cs \<Longrightarrow> holds iid (cs ! i) \<Longrightarrow> cs1 ! j \<noteq> cs ! j
      \<Longrightarrow> is_full (cs1 ! i)"
proof -
  from p1 have cs1: "cs1 = snd (pour (holds iid) iid qty cs)"
    and r1: "r1 = fst (pour (holds iid) iid qty cs)" by simp_all
  show "length cs1 = length cs" by (simp add: cs1)
  from ci show "list_all cell_inv cs1" unfolding cs1 by (rule pour_inv)
  show "k < length cs \<Longrightarrow> holds iid (cs ! k) \<Longrightarrow> holds iid (cs1 ! k)"
    unfolding cs1 by (rule pour_holds(1) [OF ci])
  show "k < length cs \<Longrightarrow> \<not> holds iid (cs ! k) \<Longrightarrow> cs1 ! k = cs ! k"
    unfolding cs1 by (rule pour_nth_other)
  show "0 < r1 \<Longrightarrow> k < length cs \<Longrightarrow> holds iid (cs ! k) \<Longrightarrow> is_full (cs1 ! k)"
    unfolding cs1 r1 by (rule holding_left_full [OF ci])
  show "i < j \<Longrightarrow> j < length cs \<Longrightarrow> holds iid (cs ! i) \<Longrightarrow> cs1 ! j \<noteq> cs ! j
      \<Longrightarrow> is_full (cs1 ! i)"
    unfolding cs1 by (rule holding_first_fit [OF ci])
qed

lemma pass_two:
  assumes ci: "list_all cell_inv cs1" and p2: "pour is_empty iid r1 cs1 = (r2, cs2)"
  shows "length cs2 = length cs1" and "r2 \<le> r1"
    and "k < length cs1 \<Longrightarrow> \<not> is_empty (cs1 ! k) \<Longrightarrow> cs2 ! k = cs1 ! k"
    and "k < length cs1 \<Longrightarrow> cs2 ! k \<noteq> cs1 ! k \<Longrightarrow> holds iid (cs2 ! k) \<and> 0 < r1"
    and "0 < r2 \<Longrightarrow> k < length cs1 \<Longrightarrow> is_empty (cs1 ! k) \<Longrightarrow> is_full (cs2 ! k)"
    and "i < j \<Longrightarrow> j < length cs1 \<Longrightarrow> is_empty (cs1 ! i) \<Longrightarrow> cs2 ! j \<noteq> cs1 ! j
      \<Longrightarrow> is_full (cs2 ! i)"
proof -
  from p2 have cs2: "cs2 = snd (pour is_empty iid r1 cs1)"
    and r2: "r2 = fst (pour is_empty iid r1 cs1)" by simp_all
  show "length cs2 = length cs1" by (simp add: cs2)
  show "r2 \<le> r1" unfolding r2 using ci by (rule pour_le)
  show "k < length cs1 \<Longrightarrow> \<not> is_empty (cs1 ! k) \<Longrightarrow> cs2 ! k = cs1 ! k"
    unfolding cs2 by (rule pour_nth_other)
  show "k < length cs1 \<Longrightarrow> cs2 ! k \<noteq> cs1 ! k \<Longrightarrow> holds iid (cs2 ! k) \<and> 0 < r1"
    unfolding cs2 using pour_changed [of k cs1 is_empty iid r1] pour_holds(2) [OF ci, of k is_empty iid r1]
    by simp
  show "0 < r2 \<Longrightarrow> k < length cs1 \<Longrightarrow> is_empty (cs1 ! k) \<Longrightarrow> is_full (cs2 ! k)"
    unfolding cs2 r2 by (rule empty_left_full [OF ci])
  show "i < j \<Longrightarrow> j < length cs1 \<Longrightarrow> is_empty (cs1 ! i) \<Longrightarrow> cs2 ! j \<noteq> cs1 ! j
      \<Longrightarrow> is_full (cs2 ! i)"
    unfolding cs2 by (rule empty_first_fit [OF ci])
qed

text \<open>
  The two passes in terms of the cells before the call. A cell that held the kind is not
  empty after the first pass, so the second pass leaves it; an empty cell is left by the
  first pass.
\<close>

lemma two_passes:
  assumes ci: "list_all cell_inv cs"
    and p1: "pour (holds iid) iid qty cs = (r1, cs1)"
    and p2: "pour is_empty iid r1 cs1 = (r2, cs2)"
  shows "length cs2 = length cs" and "r2 \<le> r1"
    and "k < length cs \<Longrightarrow> cs2 ! k \<noteq> cs ! k
      \<Longrightarrow> holds iid (cs2 ! k) \<and> (holds iid (cs ! k) \<or> is_empty (cs ! k))"
    and "0 < r1 \<Longrightarrow> k < length cs \<Longrightarrow> holds iid (cs ! k) \<Longrightarrow> is_full (cs2 ! k)"
    and "0 < r2 \<Longrightarrow> k < length cs \<Longrightarrow> is_empty (cs ! k) \<Longrightarrow> is_full (cs2 ! k)"
    and "i < j \<Longrightarrow> j < length cs \<Longrightarrow> holds iid (cs ! i) \<Longrightarrow> holds iid (cs ! j)
      \<Longrightarrow> cs2 ! j \<noteq> cs ! j \<Longrightarrow> is_full (cs2 ! i)"
    and "i < j \<Longrightarrow> j < length cs \<Longrightarrow> is_empty (cs ! i) \<Longrightarrow> is_empty (cs ! j)
      \<Longrightarrow> cs2 ! j \<noteq> cs ! j \<Longrightarrow> is_full (cs2 ! i)"
    and "j < length cs \<Longrightarrow> is_empty (cs ! j) \<Longrightarrow> cs2 ! j \<noteq> cs ! j \<Longrightarrow> 0 < r1"
proof -
  note one = pass_one [OF ci p1]
  note two = pass_two [OF one(2) p2]
  have kept: "holds iid (cs1 ! k) \<and> cs2 ! k = cs1 ! k" if "k < length cs" "holds iid (cs ! k)" for k
    using that one(3) [of k] two(3) [of k] by (simp add: one(1) holds_def)
  have emp: "is_empty (cs1 ! k) \<and> cs1 ! k = cs ! k" if "k < length cs" "is_empty (cs ! k)" for k
    using that one(4) [of k] by (simp add: holds_def)
  show "length cs2 = length cs" by (simp add: one(1) two(1))
  show "r2 \<le> r1" by (rule two(2))
  show "k < length cs \<Longrightarrow> cs2 ! k \<noteq> cs ! k
      \<Longrightarrow> holds iid (cs2 ! k) \<and> (holds iid (cs ! k) \<or> is_empty (cs ! k))"
    using kept [of k] one(4) [of k] two(3,4) [of k] by (cases "holds iid (cs ! k)") (auto simp: one(1))
  show "0 < r1 \<Longrightarrow> k < length cs \<Longrightarrow> holds iid (cs ! k) \<Longrightarrow> is_full (cs2 ! k)"
    using kept [of k] one(5) [of k] by simp
  show "0 < r2 \<Longrightarrow> k < length cs \<Longrightarrow> is_empty (cs ! k) \<Longrightarrow> is_full (cs2 ! k)"
    using emp [of k] two(5) [of k] by (simp add: one(1))
  show "i < j \<Longrightarrow> j < length cs \<Longrightarrow> holds iid (cs ! i) \<Longrightarrow> holds iid (cs ! j)
      \<Longrightarrow> cs2 ! j \<noteq> cs ! j \<Longrightarrow> is_full (cs2 ! i)"
    using kept [of i] kept [of j] one(6) [of i j] by simp
  show "i < j \<Longrightarrow> j < length cs \<Longrightarrow> is_empty (cs ! i) \<Longrightarrow> is_empty (cs ! j)
      \<Longrightarrow> cs2 ! j \<noteq> cs ! j \<Longrightarrow> is_full (cs2 ! i)"
    using emp [of i] emp [of j] two(6) [of i j] by (simp add: one(1))
  show "j < length cs \<Longrightarrow> is_empty (cs ! j) \<Longrightarrow> cs2 ! j \<noteq> cs ! j \<Longrightarrow> 0 < r1"
    using emp [of j] two(4) [of j] by (simp add: one(1))
qed

section \<open>The loop\<close>

text \<open>When the loop is left, nothing is left to do for the second pass.\<close>

lemma overflow_exit:
  assumes "rem \<le> 0 \<or> add_to_empty_step iid mss rem iv = Break"
  shows "overflow iid mss rem iv = (rem, cells iv)"
proof (cases "rem \<le> 0")
  case True
  then show ?thesis by (simp add: overflow_def)
next
  case False
  with assms have b: "add_to_empty_step iid mss rem iv = Break" by simp
  from step_BreakD [OF b] have "\<forall>c \<in> set (cells iv). \<not> is_empty c"
    and "nat (max_cells iv - int (length (cells iv))) = 0"
    by (simp_all add: filter_empty_conv)
  then show ?thesis by (simp add: overflow_def pour_none)
qed

text \<open>A round that goes on leaves the result of the second pass as it was.\<close>

lemma overflow_step:
  assumes "inventory_inv iv" and "0 < rem" and "1 \<le> stack_size_for mss iv"
    and "add_to_empty_step iid mss rem iv = Continue rem' iv'"
  shows "overflow iid mss rem' iv' = overflow iid mss rem iv"
  using assms(1)
proof (cases rule: step_cases [where iid = iid and mss = mss and rem = rem])
  case (fill i)
  note f = add_items_empty_facts [OF fill(4,3) assms(2), where iid = iid]
  from fill(5) assms(4)
  have "iv' = iv\<lparr>cells := (cells iv)[i := snd (add_items iid rem (cells iv ! i))]\<rparr>"
    and "rem' = rem - fst (add_items iid rem (cells iv ! i))" by simp_all
  with pour_first [OF fill(1) assms(2) f(4)] show ?thesis by (simp add: overflow_def)
next
  case new
  let ?c = "snd (add_items iid rem (empty_cell (stack_size_for mss iv)))"
  note f = add_items_empty_facts [OF empty_cell_facts(2) [OF new(3)] empty_cell_facts(1) assms(2),
      where iid = iid]
  from new(4) assms(4) have iv': "iv' = iv\<lparr>cells := cells iv @ [?c]\<rparr>"
    and rem': "rem' = rem - fst (add_items iid rem (empty_cell (stack_size_for mss iv)))"
    by simp_all
  from new(1) have ne: "\<forall>c \<in> set (cells iv). \<not> is_empty c" by (simp add: filter_empty_conv)
  with f(4) have ne': "\<forall>c \<in> set (cells iv @ [?c]). \<not> is_empty c" by simp
  from new(2) obtain m where m: "nat (max_cells iv - int (length (cells iv))) = Suc m"
    and m': "nat (max_cells iv - (1 + int (length (cells iv)))) = m"
    by (cases "nat (max_cells iv - int (length (cells iv)))") auto
  show ?thesis
    by (simp add: overflow_def iv' rem' pour_none [OF ne] pour_none [OF ne'] m m' assms(2)
        case_prod_unfold)
next
  case full
  with assms(4) show ?thesis by simp
next
  case raise
  with assms(3) show ?thesis by simp
qed

lemma inventory_cells_eq:
  fixes iv iv' :: inventory
  assumes "max_cells iv' = max_cells iv"
    and "default_max_stack_size iv' = default_max_stack_size iv"
    and "component_type iv' = component_type iv"
  shows "iv' = iv\<lparr>cells := cells iv'\<rparr>"
  using assms by (cases iv; cases iv') simp

text \<open>The loop computes the second pass of the reference.\<close>

lemma add_to_empty_overflow:
  assumes "inventory_inv iv" and "1 \<le> stack_size_for mss iv"
  shows "add_to_empty iid mss rem iv =
    Some (None, fst (overflow iid mss rem iv), iv\<lparr>cells := snd (overflow iid mss rem iv)\<rparr>)"
proof -
  let ?I = "\<lambda>r j. 1 \<le> stack_size_for mss j \<and> overflow iid mss r j = overflow iid mss rem iv"
  have "\<exists>err rem' iv'. add_to_empty iid mss rem iv = Some (err, rem', iv') \<and>
    inventory_inv iv' \<and> ?I rem' iv' \<and>
    (case err of
       None \<Rightarrow> rem' \<le> 0 \<or> add_to_empty_step iid mss rem' iv' = Break
     | Some e \<Rightarrow> 0 < rem' \<and> add_to_empty_step iid mss rem' iv' = Raise e)"
  proof (rule add_to_empty_rule [where I = ?I, OF assms(1)])
    show "?I rem iv" using assms(2) by simp
  next
    fix r j r' j'
    assume "inventory_inv j" and "0 < r" and "?I r j"
      and "add_to_empty_step iid mss r j = Continue r' j'"
    then show "?I r' j'" using overflow_step step_continue_frame(4) by simp
  qed
  then obtain err rem' iv' where l: "add_to_empty iid mss rem iv = Some (err, rem', iv')"
    and inv: "inventory_inv iv'" and ss: "1 \<le> stack_size_for mss iv'"
    and o: "overflow iid mss rem' iv' = overflow iid mss rem iv"
    and ex: "case err of
       None \<Rightarrow> rem' \<le> 0 \<or> add_to_empty_step iid mss rem' iv' = Break
     | Some e \<Rightarrow> 0 < rem' \<and> add_to_empty_step iid mss rem' iv' = Raise e"
    by blast
  from ex step_no_raise [OF inv ss] have err: "err = None"
    and "rem' \<le> 0 \<or> add_to_empty_step iid mss rem' iv' = Break"
    by (cases err; simp)+
  from overflow_exit [OF this(2)] o have "overflow iid mss rem iv = (rem', cells iv')" by simp
  moreover from add_to_empty_frame [OF l] have "iv' = iv\<lparr>cells := cells iv'\<rparr>"
    by (intro inventory_cells_eq) simp_all
  ultimately show ?thesis using l err by simp
qed

section \<open>The allocation\<close>

lemma add_item_first_fit:
  assumes "inventory_inv iv" and "1 \<le> stack_size_for mss iv"
  shows "add_item iid qty mss iv =
    Some (Inr (fst (first_fit iid qty mss iv)), snd (first_fit iid qty mss iv))"
proof (cases "0 < qty")
  case False
  then show ?thesis by (simp add: add_item_nonpositive first_fit_def)
next
  case True
  let ?r = "fst (add_to_matching iid qty (cells iv))"
  let ?iv1 = "iv\<lparr>cells := snd (add_to_matching iid qty (cells iv))\<rparr>"
  note fp = first_pass [OF assms(1) True, where iid = iid]
  from assms(2) have "1 \<le> stack_size_for mss ?iv1" by simp
  note o = add_to_empty_overflow [OF fp(2) this, of iid ?r]
  have ff: "first_fit iid qty mss iv =
      (qty - fst (overflow iid mss ?r ?iv1), iv\<lparr>cells := snd (overflow iid mss ?r ?iv1)\<rparr>)"
    using True by (simp add: first_fit_def add_to_matching_pour [symmetric] case_prod_unfold)
  show ?thesis
  proof (cases "?r \<le> 0")
    case True
    with fp(3) overflow_exit [of ?r iid mss ?iv1] \<open>0 < qty\<close> show ?thesis
      by (simp add: ff add_item_unfold)
  next
    case False
    with o \<open>0 < qty\<close> show ?thesis by (simp add: ff add_item_unfold)
  qed
qed

section \<open>The order of service\<close>

lemma first_fit_cells:
  assumes "0 < qty"
  obtains r1 cs1 r2 cs2 where "pour (holds iid) iid qty (cells iv) = (r1, cs1)"
    and "pour is_empty iid r1 cs1 = (r2, cs2)"
    and "cells (snd (first_fit iid qty mss iv)) =
      cs2 @ snd (stacks iid (stack_size_for mss iv) r2 (nat (max_cells iv - int (length cs2))))"
proof -
  obtain r1 cs1 where p1: "pour (holds iid) iid qty (cells iv) = (r1, cs1)"
    by (cases "pour (holds iid) iid qty (cells iv)")
  obtain r2 cs2 where p2: "pour is_empty iid r1 cs1 = (r2, cs2)"
    by (cases "pour is_empty iid r1 cs1")
  from p2 have "length cs2 = length cs1" by (metis length_pour snd_conv)
  with assms p1 p2 have "cells (snd (first_fit iid qty mss iv)) =
      cs2 @ snd (stacks iid (stack_size_for mss iv) r2 (nat (max_cells iv - int (length cs2))))"
    by (simp add: first_fit_def overflow_def case_prod_unfold)
  with p1 p2 show thesis by (rule that)
qed

lemma stacks_nonempty: "snd (stacks iid s rem n) \<noteq> [] \<Longrightarrow> 0 < rem"
  by (cases "0 < rem") simp_all

lemma served_cells:
  assumes ci: "list_all cell_inv cs" and s: "1 \<le> s"
    and p1: "pour (holds iid) iid qty cs = (r1, cs1)"
    and p2: "pour is_empty iid r1 cs1 = (r2, cs2)"
    and cs': "cs' = cs2 @ snd (stacks iid s r2 n)"
    and rc: "received cs cs' j"
  shows "holds iid (cs' ! j) \<and> rank iid cs j < 3"
proof (cases "j < length cs")
  case True
  with rc two_passes(1) [OF ci p1 p2] two_passes(3) [OF ci p1 p2, of j] show ?thesis
    by (auto simp: received_def rank_def cs' nth_append)
next
  case False
  with rc two_passes(1) [OF ci p1 p2] stacks_holds [OF s, where i = "j - length cs" and iid = iid and rem = r2 and n = n]
  show ?thesis by (simp add: received_def rank_def cs' nth_append)
qed

lemma served_in_order:
  assumes ci: "list_all cell_inv cs" and s: "1 \<le> s"
    and p1: "pour (holds iid) iid qty cs = (r1, cs1)"
    and p2: "pour is_empty iid r1 cs1 = (r2, cs2)"
    and cs': "cs' = cs2 @ snd (stacks iid s r2 n)"
    and i: "i < length cs'" and sb: "served_before iid cs i j" and rc: "received cs cs' j"
  shows "is_full (cs' ! i)"
proof (cases "j < length cs")
  case True
  note tp = two_passes [OF ci p1 p2]
  from True rc have ch: "cs2 ! j \<noteq> cs ! j" by (simp add: received_def cs' nth_append tp(1))
  from tp(3) [OF True ch] have j: "holds iid (cs ! j) \<or> is_empty (cs ! j)" by simp
  from sb True j have i': "i < length cs"
    by (auto simp: served_before_def rank_def split: if_splits)
  then have "cs' ! i = cs2 ! i" by (simp add: cs' nth_append tp(1))
  moreover have "is_full (cs2 ! i)"
    using sb True i' j ch tp(4) [of i] tp(6) [of i j] tp(7) [of i j] tp(8) [of j]
    by (auto simp: served_before_def rank_def holds_def split: if_splits)
  ultimately show ?thesis by simp
next
  case False
  note tp = two_passes [OF ci p1 p2]
  let ?new = "snd (stacks iid s r2 n)"
  from False rc have jn: "j - length cs < length ?new" by (simp add: received_def cs' tp(1))
  then have "?new \<noteq> []" by auto
  then have r2: "0 < r2" by (rule stacks_nonempty)
  with tp(2) have r1: "0 < r1" by simp
  show ?thesis
  proof (cases "i < length cs")
    case True
    with sb r1 r2 tp(4,5) [of i] show ?thesis
      by (auto simp: served_before_def rank_def cs' nth_append tp(1) split: if_splits)
  next
    case False
    with sb \<open>\<not> j < length cs\<close> have "i < j" by (simp add: served_before_def rank_def)
    with False jn stacks_first_fit [OF s, where i = "i - length cs" and j = "j - length cs" and iid = iid
        and rem = r2 and n = n]
    show ?thesis by (simp add: cs' nth_append tp(1))
  qed
qed

section \<open>Properties\<close>

text \<open>
  C11 (the allocation is first fit). On a well-formed inventory, with a stack size of at
  least one for the cells to create, \<^verbatim>\<open>add_item\<close> returns what the allocation in one pass
  returns and leaves the inventory that it leaves: the loop that scans for the first
  empty cell in every round computes the pass over the empty cells followed by the new
  stacks, and the amount stored is the smaller of the request and the capacity.
\<close>

theorem add_item_is_first_fit:
  assumes "inventory_inv iv" and "1 \<le> stack_size_for mss iv"
  shows "add_item iid qty mss iv =
      Some (Inr (fst (first_fit iid qty mss iv)), snd (first_fit iid qty mss iv)) \<and>
    (0 < qty \<longrightarrow> fst (first_fit iid qty mss iv) = min qty (capacity_for iid mss iv))"
  using add_item_first_fit [OF assms, of iid qty] add_item_total [OF assms, of qty iid] by auto

theorem add_item_is_first_fit_witness:
  "add_item ''potion'' 9 None
     \<lparr>component_type = INVENTORY,
      cells = [\<lparr>component_type = INVENTORY, item_id = Some ''sword'', quantity = 1,
                max_stack_size = 1, slot_type = None, is_equipped = False\<rparr>,
               \<lparr>component_type = INVENTORY, item_id = None, quantity = 0,
                max_stack_size = 5, slot_type = None, is_equipped = False\<rparr>,
               \<lparr>component_type = INVENTORY, item_id = Some ''potion'', quantity = 3,
                max_stack_size = 5, slot_type = None, is_equipped = False\<rparr>],
      max_cells = 4, default_max_stack_size = 5\<rparr> =
   Some (Inr 9,
     \<lparr>component_type = INVENTORY,
      cells = [\<lparr>component_type = INVENTORY, item_id = Some ''sword'', quantity = 1,
                max_stack_size = 1, slot_type = None, is_equipped = False\<rparr>,
               \<lparr>component_type = INVENTORY, item_id = Some ''potion'', quantity = 5,
                max_stack_size = 5, slot_type = None, is_equipped = False\<rparr>,
               \<lparr>component_type = INVENTORY, item_id = Some ''potion'', quantity = 5,
                max_stack_size = 5, slot_type = None, is_equipped = False\<rparr>,
               \<lparr>component_type = INVENTORY, item_id = Some ''potion'', quantity = 2,
                max_stack_size = 5, slot_type = None, is_equipped = False\<rparr>],
      max_cells = 4, default_max_stack_size = 5\<rparr>)"
proof -
  let ?iv = "\<lparr>component_type = INVENTORY,
      cells = [\<lparr>component_type = INVENTORY, item_id = Some ''sword'', quantity = 1,
                max_stack_size = 1, slot_type = None, is_equipped = False\<rparr>,
               \<lparr>component_type = INVENTORY, item_id = None, quantity = 0,
                max_stack_size = 5, slot_type = None, is_equipped = False\<rparr>,
               \<lparr>component_type = INVENTORY, item_id = Some ''potion'', quantity = 3,
                max_stack_size = 5, slot_type = None, is_equipped = False\<rparr>],
      max_cells = 4, default_max_stack_size = 5\<rparr>"
  have inv: "inventory_inv ?iv" by (simp add: inventory_inv_def cell_inv_def)
  have ss: "1 \<le> stack_size_for None ?iv" by (simp add: stack_size_for_def)
  have "first_fit ''potion'' 9 None ?iv =
    (9, ?iv\<lparr>cells :=
      [\<lparr>component_type = INVENTORY, item_id = Some ''sword'', quantity = 1,
        max_stack_size = 1, slot_type = None, is_equipped = False\<rparr>,
       \<lparr>component_type = INVENTORY, item_id = Some ''potion'', quantity = 5,
        max_stack_size = 5, slot_type = None, is_equipped = False\<rparr>,
       \<lparr>component_type = INVENTORY, item_id = Some ''potion'', quantity = 5,
        max_stack_size = 5, slot_type = None, is_equipped = False\<rparr>,
       \<lparr>component_type = INVENTORY, item_id = Some ''potion'', quantity = 2,
        max_stack_size = 5, slot_type = None, is_equipped = False\<rparr>]\<rparr>)"
    by code_simp
  with add_item_is_first_fit [OF inv ss, of "''potion''" 9] show ?thesis by simp
qed

text \<open>
  C12 (order of service). After a call of \<^verbatim>\<open>add_item\<close> on a well-formed inventory no cell has
  moved; a position that is new or holds another cell than before holds the kind, and
  before the call it held the kind, was empty or did not exist; and whenever such a
  position received items, every cell that is served before it (the cells that held the
  kind, then the empty cells, then the new cells, each in the order of the list) is full.
\<close>

theorem add_item_serves_in_order:
  assumes "inventory_inv iv" and "1 \<le> stack_size_for mss iv"
    and "add_item iid qty mss iv = Some (r, iv')"
  shows "length (cells iv) \<le> length (cells iv') \<and>
    (\<forall>j. received (cells iv) (cells iv') j \<longrightarrow>
       holds iid (cells iv' ! j) \<and> rank iid (cells iv) j < 3) \<and>
    (\<forall>i j. i < length (cells iv') \<and> served_before iid (cells iv) i j \<and>
       received (cells iv) (cells iv') j \<longrightarrow> is_full (cells iv' ! i))"
proof (cases "0 < qty")
  case False
  with assms(3) show ?thesis by (auto simp: add_item_nonpositive received_def)
next
  case True
  from assms(3) add_item_first_fit [OF assms(1,2), of iid qty]
  have iv': "iv' = snd (first_fit iid qty mss iv)" by simp
  from assms(1) have ci: "list_all cell_inv (cells iv)" by (simp add: inventory_inv_def)
  obtain r1 cs1 r2 cs2 where p1: "pour (holds iid) iid qty (cells iv) = (r1, cs1)"
    and p2: "pour is_empty iid r1 cs1 = (r2, cs2)"
    and c: "cells iv' =
      cs2 @ snd (stacks iid (stack_size_for mss iv) r2 (nat (max_cells iv - int (length cs2))))"
    unfolding iv' by (rule first_fit_cells [OF True])
  from two_passes(1) [OF ci p1 p2] c have "length (cells iv) \<le> length (cells iv')" by simp
  with served_cells [OF ci assms(2) p1 p2 c] served_in_order [OF ci assms(2) p1 p2 c]
  show ?thesis by blast
qed

theorem add_item_serves_in_order_witness:
  "\<exists>r iv'. add_item ''potion'' 9 None
     \<lparr>component_type = INVENTORY,
      cells = [\<lparr>component_type = INVENTORY, item_id = Some ''sword'', quantity = 1,
                max_stack_size = 1, slot_type = None, is_equipped = False\<rparr>,
               \<lparr>component_type = INVENTORY, item_id = None, quantity = 0,
                max_stack_size = 5, slot_type = None, is_equipped = False\<rparr>,
               \<lparr>component_type = INVENTORY, item_id = Some ''potion'', quantity = 3,
                max_stack_size = 5, slot_type = None, is_equipped = False\<rparr>],
      max_cells = 4, default_max_stack_size = 5\<rparr> = Some (r, iv') \<and>
     3 \<le> length (cells iv') \<and>
     (\<forall>j. received
        [\<lparr>component_type = INVENTORY, item_id = Some ''sword'', quantity = 1,
          max_stack_size = 1, slot_type = None, is_equipped = False\<rparr>,
         \<lparr>component_type = INVENTORY, item_id = None, quantity = 0,
          max_stack_size = 5, slot_type = None, is_equipped = False\<rparr>,
         \<lparr>component_type = INVENTORY, item_id = Some ''potion'', quantity = 3,
          max_stack_size = 5, slot_type = None, is_equipped = False\<rparr>] (cells iv') j \<longrightarrow>
        holds ''potion'' (cells iv' ! j))"
proof -
  let ?iv = "\<lparr>component_type = INVENTORY,
      cells = [\<lparr>component_type = INVENTORY, item_id = Some ''sword'', quantity = 1,
                max_stack_size = 1, slot_type = None, is_equipped = False\<rparr>,
               \<lparr>component_type = INVENTORY, item_id = None, quantity = 0,
                max_stack_size = 5, slot_type = None, is_equipped = False\<rparr>,
               \<lparr>component_type = INVENTORY, item_id = Some ''potion'', quantity = 3,
                max_stack_size = 5, slot_type = None, is_equipped = False\<rparr>],
      max_cells = 4, default_max_stack_size = 5\<rparr>"
  have inv: "inventory_inv ?iv" by (simp add: inventory_inv_def cell_inv_def)
  have ss: "1 \<le> stack_size_for None ?iv" by (simp add: stack_size_for_def)
  from add_item_first_fit [OF inv ss, of "''potion''" 9]
  obtain r iv' where a: "add_item ''potion'' 9 None ?iv = Some (r, iv')" by blast
  from add_item_serves_in_order [OF inv ss a] a show ?thesis by auto
qed

end
