(* ===== verification/AW_Bag.thy ===== *)
theory AW_Bag
  imports AW_Inventory "HOL-Library.Multiset"
begin

text \<open>
  What an inventory is for its client: a bag of items. \<open>bag_of\<close> forgets the cells and
  keeps how many items of each kind there are; \<open>bag_step\<close> says what each of the three
  mutating calls of \<^verbatim>\<open>InventoryComponent\<close> may do to the bag. The theory shows that the
  cells implement the bag (a forward simulation along every run of calls), bounds the
  size of the bag by the capacity of the cells, and shows that requests for one kind fill
  the inventory up to its capacity.
\<close>

section \<open>The abstract inventory\<close>

text \<open>
  The items of a cell and of an inventory. A cell without an item identity contributes
  nothing, whatever its quantity says.
\<close>

definition bag_of_cell :: "cell \<Rightarrow> string multiset" where
  "bag_of_cell c =
     (case item_id c of None \<Rightarrow> {#} | Some iid \<Rightarrow> replicate_mset (nat (quantity c)) iid)"

definition bag_of :: "inventory \<Rightarrow> string multiset" where
  "bag_of iv = sum_list (map bag_of_cell (cells iv))"

text \<open>
  The abstract calls. The bag knows nothing of cells and stack sizes, so the number of
  items that \<^verbatim>\<open>add_item\<close> stores is any number up to the request; \<^verbatim>\<open>remove_item\<close> is the
  difference of bags, which takes what there is; \<^verbatim>\<open>clear_all\<close> empties the bag.
\<close>

inductive bag_step :: "string multiset \<Rightarrow> inventory_op \<Rightarrow> string multiset \<Rightarrow> bool" where
  add: "k \<le> nat qty \<Longrightarrow> bag_step b (AddItem iid qty mss) (b + replicate_mset k iid)"
| remove: "bag_step b (RemoveItem iid qty) (b - replicate_mset (nat qty) iid)"
| clear: "bag_step b ClearAll {#}"

text \<open>Runs: a list of calls, made one after the other.\<close>

inductive inventory_steps :: "inventory \<Rightarrow> inventory_op list \<Rightarrow> inventory \<Rightarrow> bool" where
  nil: "inventory_steps iv [] iv"
| cons: "inventory_step iv x iv1 \<Longrightarrow> inventory_steps iv1 xs iv' \<Longrightarrow> inventory_steps iv (x # xs) iv'"

inductive bag_steps :: "string multiset \<Rightarrow> inventory_op list \<Rightarrow> string multiset \<Rightarrow> bool" where
  nil: "bag_steps b [] b"
| cons: "bag_step b x b1 \<Longrightarrow> bag_steps b1 xs b' \<Longrightarrow> bag_steps b (x # xs) b'"

text \<open>
  A common bound \<open>M\<close> on the stack sizes: of the cells and of the default of an inventory,
  and of the stack size that a call of \<^verbatim>\<open>add_item\<close> asks for.
\<close>

definition stack_le :: "int \<Rightarrow> inventory \<Rightarrow> bool" where
  "stack_le M iv \<longleftrightarrow>
     list_all (\<lambda>c. max_stack_size c \<le> M) (cells iv) \<and> default_max_stack_size iv \<le> M"

fun op_stack_le :: "int \<Rightarrow> inventory_op \<Rightarrow> bool" where
  "op_stack_le M (AddItem iid qty (Some m)) = (m \<le> M)"
| "op_stack_le M x = True"


inductive_cases inventory_steps_NilE: "inventory_steps iv [] iv'"
inductive_cases inventory_steps_ConsE: "inventory_steps iv (x # xs) iv'"

section \<open>Counting in the bag\<close>

lemma count_bag_of_cell: "cell_inv c \<Longrightarrow> int (count (bag_of_cell c) iid) = count_of iid c"
  by (auto simp: bag_of_cell_def count_of_def holds_def is_empty_def cell_inv_def
      split: option.splits)

lemma count_sum_list: "count (sum_list ms) x = sum_list (map (\<lambda>m. count m x) ms)"
  by (induction ms) simp_all

lemma count_bag_of_cells:
  "list_all cell_inv cs \<Longrightarrow> int (count (sum_list (map bag_of_cell cs)) iid) = item_count iid cs"
  by (induction cs) (simp_all add: item_count_sum count_bag_of_cell)

lemma count_bag_of:
  "inventory_inv iv \<Longrightarrow> int (count (bag_of iv) iid) = get_item_count iid iv"
  by (simp add: bag_of_def get_item_count_def inventory_inv_def count_bag_of_cells)

lemma bag_of_addI:
  assumes "inventory_inv iv" and "inventory_inv iv'" and "0 \<le> k"
    and "item_count iid (cells iv') = item_count iid (cells iv) + k"
    and "\<And>iid'. iid' \<noteq> iid \<Longrightarrow> item_count iid' (cells iv') = item_count iid' (cells iv)"
  shows "bag_of iv' = bag_of iv + replicate_mset (nat k) iid"
proof (rule multiset_eqI)
  fix x
  from assms(1,2) have c: "int (count (bag_of iv') x) = item_count x (cells iv')"
    "int (count (bag_of iv) x) = item_count x (cells iv)"
    by (simp_all add: count_bag_of get_item_count_def)
  show "count (bag_of iv') x = count (bag_of iv + replicate_mset (nat k) iid) x"
  proof (cases "x = iid")
    case True
    with c assms(3,4) show ?thesis by simp
  next
    case False
    with c assms(5) [of x] show ?thesis by simp
  qed
qed

lemma bag_of_subI:
  assumes "inventory_inv iv" and "inventory_inv iv'" and "0 \<le> k"
    and "item_count iid (cells iv') = item_count iid (cells iv) - min k (item_count iid (cells iv))"
    and "\<And>iid'. iid' \<noteq> iid \<Longrightarrow> item_count iid' (cells iv') = item_count iid' (cells iv)"
  shows "bag_of iv' = bag_of iv - replicate_mset (nat k) iid"
proof (rule multiset_eqI)
  fix x
  from assms(1,2) have c: "int (count (bag_of iv') x) = item_count x (cells iv')"
    "int (count (bag_of iv) x) = item_count x (cells iv)"
    by (simp_all add: count_bag_of get_item_count_def)
  show "count (bag_of iv') x = count (bag_of iv - replicate_mset (nat k) iid) x"
  proof (cases "x = iid")
    case True
    with c assms(3,4) show ?thesis by simp
  next
    case False
    with c assms(5) [of x] show ?thesis by simp
  qed
qed

section \<open>What a call of \<^verbatim>\<open>add_item\<close> stores\<close>

lemma add_item_stored:
  assumes "inventory_inv iv"
  shows "\<exists>r iv' k. add_item iid qty mss iv = Some (r, iv') \<and> inventory_inv iv' \<and>
    0 \<le> k \<and> k \<le> max qty 0 \<and> (\<forall>n. r = Inr n \<longrightarrow> n = k) \<and>
    item_count iid (cells iv') = item_count iid (cells iv) + k \<and>
    (\<forall>iid'. iid' \<noteq> iid \<longrightarrow> item_count iid' (cells iv') = item_count iid' (cells iv))"
proof (cases "0 < qty")
  case False
  with assms show ?thesis by (simp add: add_item_nonpositive)
next
  case True
  from add_item_passes [OF assms True, of iid mss]
  obtain err rem' iv' where "add_item iid qty mss iv =
      Some (case err of None \<Rightarrow> Inr (qty - rem') | Some e \<Rightarrow> Inl e, iv')"
    and "inventory_inv iv'" and "rem' \<le> qty" and "pass_inv iid mss qty iv rem' iv'" by blast
  with True show ?thesis
    by (intro exI [of _ "case err of None \<Rightarrow> Inr (qty - rem') | Some e \<Rightarrow> Inl e"] exI [of _ iv']
        exI [of _ "qty - rem'"])
      (cases err; simp add: pass_inv_def)
qed

section \<open>The simulation\<close>

lemma bag_of_all_empty: "list_all (\<lambda>c. item_id c = None) cs \<Longrightarrow> sum_list (map bag_of_cell cs) = {#}"
  by (induction cs) (simp_all add: bag_of_cell_def)

lemma add_item_bag:
  assumes "inventory_inv iv" and "add_item iid qty mss iv = Some (r, iv')"
  shows "\<exists>k. k \<le> nat qty \<and> (\<forall>n. r = Inr n \<longrightarrow> n = int k) \<and>
    bag_of iv' = bag_of iv + replicate_mset k iid"
proof -
  from add_item_stored [OF assms(1), of iid qty mss] assms(2)
  obtain k where inv: "inventory_inv iv'" and k: "0 \<le> k" "k \<le> max qty 0"
    and r: "\<forall>n. r = Inr n \<longrightarrow> n = k"
    and c: "item_count iid (cells iv') = item_count iid (cells iv) + k"
      "\<forall>iid'. iid' \<noteq> iid \<longrightarrow> item_count iid' (cells iv') = item_count iid' (cells iv)"
    by auto
  from assms(1) inv k(1) c have "bag_of iv' = bag_of iv + replicate_mset (nat k) iid"
    by (intro bag_of_addI) simp_all
  with k r show ?thesis by (intro exI [of _ "nat k"]) auto
qed

lemma remove_item_bag:
  assumes "inventory_inv iv"
  shows "bag_of (snd (remove_item iid qty iv)) = bag_of iv - replicate_mset (nat qty) iid"
proof (cases "0 < qty")
  case True
  from assms remove_item_inv [OF assms] True remove_item_spec(2,3) [OF assms True]
  show ?thesis by (intro bag_of_subI) simp_all
next
  case False
  then show ?thesis by (simp add: snd_remove_item)
qed

lemma clear_all_bag:
  assumes "inventory_inv iv" and "clear_all iv = Inr iv'"
  shows "bag_of iv' = {#}"
  using assms(2) by (auto simp: clear_all_eq bag_of_def intro!: bag_of_all_empty simp: list_all_iff)

lemma inventory_step_bag_step:
  assumes "inventory_step iv x iv'" and "inventory_inv iv"
  shows "bag_step (bag_of iv) x (bag_of iv')"
  using assms
proof cases
  case (add iid qty mss r)
  from add_item_bag [OF assms(2) add(2)] show ?thesis
    unfolding add(1) by (auto intro: bag_step.add)
next
  case (remove iid qty n)
  from remove(2) have "iv' = snd (remove_item iid qty iv)" by simp
  with remove_item_bag [OF assms(2), of iid qty] show ?thesis
    unfolding remove(1) by (simp add: bag_step.remove)
next
  case clear
  with clear_all_bag [OF assms(2)] show ?thesis by (simp add: bag_step.clear)
qed

lemma inventory_steps_inv:
  "inventory_steps iv xs iv' \<Longrightarrow> inventory_inv iv \<Longrightarrow> inventory_inv iv'"
  by (induction rule: inventory_steps.induct) (auto intro: inventory_step_inv)

lemma inventory_steps_bag_steps:
  "inventory_steps iv xs iv' \<Longrightarrow> inventory_inv iv \<Longrightarrow> bag_steps (bag_of iv) xs (bag_of iv')"
  by (induction rule: inventory_steps.induct)
    (auto intro: bag_steps.intros inventory_step_bag_step inventory_step_inv)

section \<open>Determinism\<close>

lemma inventory_step_deterministic:
  "inventory_step iv x iv1 \<Longrightarrow> inventory_step iv x iv2 \<Longrightarrow> iv1 = iv2"
  by (cases x) auto

lemma inventory_steps_deterministic:
  "inventory_steps iv xs iv1 \<Longrightarrow> inventory_steps iv xs iv2 \<Longrightarrow> iv1 = iv2"
proof (induction arbitrary: iv2 rule: inventory_steps.induct)
  case (cons iv x iv1 xs iv')
  from cons.prems obtain v where "inventory_step iv x v" and s: "inventory_steps v xs iv2"
    by (auto elim: inventory_steps_ConsE)
  with cons.hyps(1) have "v = iv1" by (simp add: inventory_step_deterministic)
  with s cons.IH show ?case by simp
qed (auto elim: inventory_steps_NilE)

section \<open>The number of items\<close>

lemma size_sum_list: "size (sum_list (ms :: 'a multiset list)) = sum_list (map size ms)"
  by (induction ms) simp_all

lemma size_bag_of_cell: "cell_inv c \<Longrightarrow> int (size (bag_of_cell c)) = quantity c"
  by (auto simp: bag_of_cell_def cell_inv_def split: option.splits)

lemma size_bag_of_cells:
  "list_all cell_inv cs \<Longrightarrow> int (size (sum_list (map bag_of_cell cs))) = sum_list (map quantity cs)"
  by (induction cs) (simp_all add: size_bag_of_cell)

lemma quantity_le_stacks:
  "list_all cell_inv cs \<Longrightarrow> list_all (\<lambda>c. max_stack_size c \<le> M) cs
     \<Longrightarrow> sum_list (map quantity cs) \<le> int (length cs) * M"
  by (induction cs) (auto simp: cell_inv_def algebra_simps)

lemma size_bag_of_le:
  assumes "inventory_inv iv" and "stack_le M iv"
  shows "int (size (bag_of iv)) \<le> max_cells iv * M"
proof -
  from assms have "int (size (bag_of iv)) \<le> int (length (cells iv)) * M"
    by (simp add: bag_of_def size_bag_of_cells quantity_le_stacks inventory_inv_def stack_le_def)
  also from assms have "\<dots> \<le> max_cells iv * M"
    by (intro mult_right_mono) (simp_all add: inventory_inv_def stack_le_def)
  finally show ?thesis .
qed

section \<open>Stack sizes\<close>

lemma add_to_matching_stack_sizes:
  "map max_stack_size (snd (add_to_matching iid rem cs)) = map max_stack_size cs"
  by (induction cs arbitrary: rem) (simp_all add: add_to_matching_Cons add_items_def Let_def)

lemma list_all_stack_sizes:
  assumes "map max_stack_size cs' = map max_stack_size cs"
  shows "list_all (\<lambda>c. max_stack_size c \<le> M) cs' = list_all (\<lambda>c. max_stack_size c \<le> M) cs"
proof -
  from assms have "list_all (\<lambda>m. m \<le> M) (map max_stack_size cs') =
    list_all (\<lambda>m. m \<le> M) (map max_stack_size cs)" by simp
  then show ?thesis by (simp add: list.pred_map comp_def)
qed

lemma max_stack_size_add_items [simp]:
  "max_stack_size (snd (add_items iid rem c)) = max_stack_size c"
  by (simp add: add_items_def Let_def)

lemma step_continue_stack_le:
  assumes "inventory_inv iv" and "add_to_empty_step iid mss rem iv = Continue rem' iv'"
    and "list_all (\<lambda>c. max_stack_size c \<le> M) (cells iv)" and "stack_size_for mss iv \<le> M"
  shows "list_all (\<lambda>c. max_stack_size c \<le> M) (cells iv')"
  using assms(1)
proof (cases rule: step_cases [where iid = iid and mss = mss and rem = rem])
  case (fill i)
  with assms(2,3) show ?thesis
    by (auto simp: list_all_length nth_list_update)
next
  case new
  with assms(2,3,4) show ?thesis by auto
qed (use assms(2) in simp_all)

lemma add_to_empty_stack_le:
  assumes "inventory_inv iv" and "add_to_empty iid mss rem iv = Some (err, rem', iv')"
    and "list_all (\<lambda>c. max_stack_size c \<le> M) (cells iv)" and "stack_size_for mss iv \<le> M"
  shows "list_all (\<lambda>c. max_stack_size c \<le> M) (cells iv')"
proof -
  let ?I = "\<lambda>r v. list_all (\<lambda>c. max_stack_size c \<le> M) (cells v) \<and> stack_size_for mss v \<le> M"
  have "\<exists>err rem' iv'. add_to_empty iid mss rem iv = Some (err, rem', iv') \<and>
    inventory_inv iv' \<and> ?I rem' iv' \<and>
    (case err of
       None \<Rightarrow> rem' \<le> 0 \<or> add_to_empty_step iid mss rem' iv' = Break
     | Some e \<Rightarrow> 0 < rem' \<and> add_to_empty_step iid mss rem' iv' = Raise e)"
    using assms(1)
  proof (rule add_to_empty_rule [where I = ?I])
    show "?I rem iv" using assms(3,4) by simp
  next
    fix rem iv rem' iv'
    assume "inventory_inv iv" "?I rem iv" "add_to_empty_step iid mss rem iv = Continue rem' iv'"
    then show "?I rem' iv'"
      by (simp add: step_continue_stack_le step_continue_frame(4))
  qed
  with assms(2) show ?thesis by auto
qed

lemma add_item_stack_le:
  assumes "inventory_inv iv" and "add_item iid qty mss iv = Some (r, iv')"
    and "list_all (\<lambda>c. max_stack_size c \<le> M) (cells iv)" and "stack_size_for mss iv \<le> M"
  shows "list_all (\<lambda>c. max_stack_size c \<le> M) (cells iv')"
proof (cases "0 < qty")
  case False
  with assms(2,3) show ?thesis by (simp add: add_item_nonpositive)
next
  case True
  let ?r = "fst (add_to_matching iid qty (cells iv))"
  let ?iv1 = "iv\<lparr>cells := snd (add_to_matching iid qty (cells iv))\<rparr>"
  note fp = first_pass [OF assms(1) True, where iid = iid]
  from assms(3) have s1: "list_all (\<lambda>c. max_stack_size c \<le> M) (cells ?iv1)"
    by (simp add: list_all_stack_sizes [OF add_to_matching_stack_sizes])
  show ?thesis
  proof (cases "?r \<le> 0")
    case True
    with \<open>0 < qty\<close> assms(2) s1 show ?thesis by (simp add: add_item_unfold)
  next
    case False
    with \<open>0 < qty\<close> assms(2) obtain err rem' where "add_to_empty iid mss ?r ?iv1 = Some (err, rem', iv')"
      by (auto simp: add_item_unfold split: option.splits)
    from add_to_empty_stack_le [OF fp(2) this s1] assms(4) show ?thesis by simp
  qed
qed

lemma inventory_step_stack_le:
  assumes "inventory_step iv x iv'" and "inventory_inv iv" and "stack_le M iv" and "op_stack_le M x"
  shows "stack_le M iv'"
proof -
  from assms(1) have d: "default_max_stack_size iv' = default_max_stack_size iv"
    by (rule inventory_step_frame)
  from assms(1) have "list_all (\<lambda>c. max_stack_size c \<le> M) (cells iv')"
  proof cases
    case (add iid qty mss r)
    from assms(3,4) add(1) have "stack_size_for mss iv \<le> M"
      by (cases mss) (simp_all add: stack_size_for_def stack_le_def)
    with add_item_stack_le [OF assms(2) add(2)] assms(3) show ?thesis by (simp add: stack_le_def)
  next
    case (remove iid qty n)
    from remove(2) have "iv' = snd (remove_item iid qty iv)" by simp
    with assms(3) show ?thesis
      by (simp add: snd_remove_item stack_le_def
          list_all_stack_sizes [OF remove_from_matching_stack_sizes])
  next
    case clear
    with assms(3) show ?thesis by (auto simp: clear_all_eq stack_le_def list_all_iff)
  qed
  with d assms(3) show ?thesis by (simp add: stack_le_def)
qed

lemma inventory_steps_stack_le:
  "inventory_steps iv xs iv' \<Longrightarrow> inventory_inv iv \<Longrightarrow> stack_le M iv \<Longrightarrow> list_all (op_stack_le M) xs
     \<Longrightarrow> stack_le M iv'"
  by (induction rule: inventory_steps.induct)
    (auto intro: inventory_step_stack_le inventory_step_inv)

lemma inventory_steps_frame:
  "inventory_steps iv xs iv' \<Longrightarrow> max_cells iv' = max_cells iv"
  by (induction rule: inventory_steps.induct) (auto dest: inventory_step_frame(1))

section \<open>Saturation\<close>

lemma sum_list_positive: "list_all (\<lambda>q. 0 < q) qs \<Longrightarrow> 0 \<le> sum_list (qs :: int list)"
  by (induction qs) simp_all

lemma requests_saturate_aux:
  assumes "list_all (\<lambda>q. 0 < q) qs"
  shows "inventory_inv iv \<Longrightarrow> 1 \<le> stack_size_for mss iv \<Longrightarrow> capacity_for iid mss iv \<le> sum_list qs \<Longrightarrow>
    \<exists>iv'. inventory_steps iv (map (\<lambda>q. AddItem iid q mss) qs) iv' \<and> capacity_for iid mss iv' = 0 \<and>
      get_item_count iid iv' = get_item_count iid iv + capacity_for iid mss iv"
  using assms
proof (induction qs arbitrary: iv)
  case Nil
  with capacity_for_nonneg [OF Nil(1,2), of iid] show ?case
    by (auto intro: inventory_steps.nil)
next
  case (Cons q qs)
  let ?m = "min q (capacity_for iid mss iv)"
  from Cons.prems have q: "0 < q" by simp
  from add_item_total [OF Cons.prems(1,2) q, of iid]
  obtain iv1 where a: "add_item iid q mss iv = Some (Inr ?m, iv1)" and inv: "inventory_inv iv1"
    and c: "item_count iid (cells iv1) = item_count iid (cells iv) + ?m"
    and cap: "capacity_for iid mss iv1 = capacity_for iid mss iv - ?m"
    and d: "default_max_stack_size iv1 = default_max_stack_size iv" by blast
  from d Cons.prems(2) have ss: "1 \<le> stack_size_for mss iv1"
    by (simp add: stack_size_for_frame [OF d])
  from cap Cons.prems(3) sum_list_positive [of qs] Cons.prems(4)
  have "capacity_for iid mss iv1 \<le> sum_list qs" by simp
  from Cons.IH [OF inv ss this] Cons.prems(4)
  obtain iv' where s: "inventory_steps iv1 (map (\<lambda>q. AddItem iid q mss) qs) iv'"
    and z: "capacity_for iid mss iv' = 0"
    and g: "get_item_count iid iv' = get_item_count iid iv1 + capacity_for iid mss iv1" by auto
  from a s have "inventory_steps iv (map (\<lambda>q. AddItem iid q mss) (q # qs)) iv'"
    by (auto intro: inventory_steps.cons inventory_step.add)
  moreover from g c cap have "get_item_count iid iv' = get_item_count iid iv + capacity_for iid mss iv"
    by (simp add: get_item_count_def)
  ultimately show ?case using z by blast
qed

section \<open>Properties\<close>

text \<open>
  C13 (the inventory refines a bag of items). Along every run of calls from a well-formed
  inventory, the bags of the inventories form a run of the abstract operations under the
  same calls: a call of \<^verbatim>\<open>add_item\<close> adds at most the requested number of items of its
  kind and nothing else, \<^verbatim>\<open>remove_item\<close> takes the requested number away as far as the bag
  has them, \<^verbatim>\<open>clear_all\<close> leaves the empty bag; and the inventory stays well formed.
\<close>

theorem inventory_refines_bag:
  assumes "inventory_steps iv xs iv'" and "inventory_inv iv"
  shows "bag_steps (bag_of iv) xs (bag_of iv') \<and> inventory_inv iv'"
  using assms by (simp add: inventory_steps_bag_steps inventory_steps_inv)

theorem inventory_refines_bag_witness:
  "\<exists>iv'. inventory_steps
       \<lparr>component_type = INVENTORY, cells = [], max_cells = 2, default_max_stack_size = 5\<rparr>
       [AddItem ''potion'' 7 None, RemoveItem ''potion'' 1] iv' \<and>
     bag_steps
       (bag_of \<lparr>component_type = INVENTORY, cells = [], max_cells = 2, default_max_stack_size = 5\<rparr>)
       [AddItem ''potion'' 7 None, RemoveItem ''potion'' 1] (bag_of iv')"
proof -
  let ?iv = "\<lparr>component_type = INVENTORY, cells = [], max_cells = 2, default_max_stack_size = 5\<rparr>"
  have inv: "inventory_inv ?iv" by (simp add: inventory_inv_def)
  from inventory_step_total [OF inv]
  obtain iv1 where s1: "inventory_step ?iv (AddItem ''potion'' 7 None) iv1" by blast
  from inventory_step_total [OF inventory_step_inv [OF s1 inv]]
  obtain iv2 where s2: "inventory_step iv1 (RemoveItem ''potion'' 1) iv2" by blast
  from s1 s2 have s: "inventory_steps ?iv [AddItem ''potion'' 7 None, RemoveItem ''potion'' 1] iv2"
    by (intro inventory_steps.cons [OF _ inventory_steps.cons [OF _ inventory_steps.nil]])
  from inventory_refines_bag [OF s inv] s show ?thesis by blast
qed

text \<open>
  Whenever \<^verbatim>\<open>add_item\<close> returns
  \<open>n\<close> on a well-formed inventory, whatever the stack size asked for, \<open>n\<close> lies between zero
  and the request and the bag afterwards is the bag before with \<open>n\<close> more items of the
  kind: the return value is exactly what was stored, and no other kind changes.
\<close>

theorem add_item_is_bag_sum:
  assumes "inventory_inv iv" and "add_item iid qty mss iv = Some (Inr n, iv')"
  shows "bag_of iv' = bag_of iv + replicate_mset (nat n) iid \<and> 0 \<le> n \<and> n \<le> max qty 0"
  using add_item_bag [OF assms] by auto

theorem add_item_is_bag_sum_witness:
  "bag_of \<lparr>component_type = INVENTORY, cells = [empty_cell 5\<lparr>item_id := Some ''potion'', quantity := 3\<rparr>],
           max_cells = 1, default_max_stack_size = 5\<rparr> =
     bag_of \<lparr>component_type = INVENTORY, cells = [empty_cell 5], max_cells = 1,
             default_max_stack_size = 5\<rparr> + replicate_mset (nat 3) ''potion''"
proof -
  let ?iv = "\<lparr>component_type = INVENTORY, cells = [empty_cell 5], max_cells = 1,
    default_max_stack_size = 5\<rparr>"
  let ?iv' = "\<lparr>component_type = INVENTORY,
    cells = [empty_cell 5\<lparr>item_id := Some ''potion'', quantity := 3\<rparr>],
    max_cells = 1, default_max_stack_size = 5\<rparr>"
  have inv: "inventory_inv ?iv" by (simp add: inventory_inv_def)
  have "add_item ''potion'' 3 None ?iv = Some (Inr 3, ?iv')"
    by (simp add: add_item_def add_to_empty_unfold add_to_empty_done add_to_empty_step_def
        add_to_matching_Cons holds_def add_items_def is_empty_def empty_cell_def)
  from add_item_is_bag_sum [OF inv this] show ?thesis by simp
qed

text \<open>
  On a well-formed inventory
  \<^verbatim>\<open>remove_item\<close> leaves the bag before without the requested number of items of the kind,
  as far as there are that many, and returns how many it took; a request of zero or less
  takes nothing.
\<close>

theorem remove_item_is_bag_difference:
  assumes "inventory_inv iv"
  shows "bag_of (snd (remove_item iid qty iv)) = bag_of iv - replicate_mset (nat qty) iid \<and>
    fst (remove_item iid qty iv) = int (min (nat qty) (count (bag_of iv) iid))"
proof (cases "0 < qty")
  case True
  from count_bag_of [OF assms, of iid] remove_item_spec(1) [OF assms True, of iid] True
  have "fst (remove_item iid qty iv) = int (min (nat qty) (count (bag_of iv) iid))"
    by (simp add: get_item_count_def)
  with remove_item_bag [OF assms] show ?thesis by simp
next
  case False
  with remove_item_bag [OF assms, of iid qty] show ?thesis by (simp add: remove_item_def)
qed

theorem remove_item_is_bag_difference_witness:
  "bag_of (snd (remove_item ''potion'' 7
      \<lparr>component_type = INVENTORY,
       cells = [empty_cell 5\<lparr>item_id := Some ''potion'', quantity := 3\<rparr>],
       max_cells = 1, default_max_stack_size = 5\<rparr>)) = {#} \<and>
   fst (remove_item ''potion'' 7
      \<lparr>component_type = INVENTORY,
       cells = [empty_cell 5\<lparr>item_id := Some ''potion'', quantity := 3\<rparr>],
       max_cells = 1, default_max_stack_size = 5\<rparr>) = 3"
proof -
  let ?iv = "\<lparr>component_type = INVENTORY,
    cells = [empty_cell 5\<lparr>item_id := Some ''potion'', quantity := 3\<rparr>],
    max_cells = 1, default_max_stack_size = 5\<rparr>"
  have inv: "inventory_inv ?iv" by (simp add: inventory_inv_def cell_inv_def empty_cell_def)
  have b: "bag_of ?iv = replicate_mset 3 ''potion''"
    by (simp add: bag_of_def bag_of_cell_def empty_cell_def)
  have "replicate_mset 3 ''potion'' - replicate_mset 7 ''potion'' = {#}"
    by (simp add: multiset_eq_iff)
  with remove_item_is_bag_difference [OF inv, of "''potion''" 7] show ?thesis
    unfolding b by simp
qed

text \<open>
  C19 (the inventory never holds more than its cells can). From a well-formed inventory
  whose cells and default have a stack size of \<open>M\<close> at most, after every run of calls that
  ask for no larger stack size, the number of items in the inventory, and so the count of
  every kind, is at most \<open>max_cells * M\<close>, and no cell has a larger stack size.
\<close>

theorem inventory_never_exceeds_capacity:
  assumes "inventory_steps iv xs iv'" and "inventory_inv iv" and "stack_le M iv"
    and "list_all (op_stack_le M) xs"
  shows "int (size (bag_of iv')) \<le> max_cells iv * M \<and> 0 \<le> get_item_count iid iv' \<and>
    get_item_count iid iv' \<le> max_cells iv * M \<and> stack_le M iv'"
proof -
  note inv = inventory_steps_inv [OF assms(1,2)]
  note st = inventory_steps_stack_le [OF assms]
  from size_bag_of_le [OF inv st] inventory_steps_frame [OF assms(1)]
  have s: "int (size (bag_of iv')) \<le> max_cells iv * M" by simp
  have "count (bag_of iv') iid \<le> size (bag_of iv')" by (rule count_le_size)
  with s count_bag_of [OF inv, of iid] st show ?thesis by simp
qed

theorem inventory_never_exceeds_capacity_witness:
  "\<exists>iv'. inventory_steps
       \<lparr>component_type = INVENTORY, cells = [], max_cells = 2, default_max_stack_size = 5\<rparr>
       [AddItem ''potion'' 70 None, AddItem ''elixir'' 3 (Some 4)] iv' \<and>
     get_item_count ''potion'' iv' \<le> 2 * 5"
proof -
  let ?iv = "\<lparr>component_type = INVENTORY, cells = [], max_cells = 2, default_max_stack_size = 5\<rparr>"
  have inv: "inventory_inv ?iv" by (simp add: inventory_inv_def)
  have st: "stack_le 5 ?iv" by (simp add: stack_le_def)
  from inventory_step_total [OF inv]
  obtain iv1 where s1: "inventory_step ?iv (AddItem ''potion'' 70 None) iv1" by blast
  from inventory_step_total [OF inventory_step_inv [OF s1 inv]]
  obtain iv2 where s2: "inventory_step iv1 (AddItem ''elixir'' 3 (Some 4)) iv2" by blast
  from s1 s2
  have s: "inventory_steps ?iv [AddItem ''potion'' 70 None, AddItem ''elixir'' 3 (Some 4)] iv2"
    by (intro inventory_steps.cons [OF _ inventory_steps.cons [OF _ inventory_steps.nil]])
  from inventory_never_exceeds_capacity [OF s inv st, of "''potion''"] s show ?thesis
    by (intro exI [of _ iv2]) simp
qed

text \<open>
  C20 (requests for one kind saturate the inventory). On a well-formed inventory, with a
  stack size of at least one for the cells to create, every sequence of positive requests
  for one kind whose total reaches the capacity for that kind runs to its end, in exactly
  one way, and ends in an inventory with no capacity left for the kind, into which the
  whole capacity has gone.
\<close>

theorem requests_saturate:
  assumes "inventory_inv iv" and "1 \<le> stack_size_for mss iv"
    and "list_all (\<lambda>q. 0 < q) qs" and "capacity_for iid mss iv \<le> sum_list qs"
  shows "\<exists>iv'. inventory_steps iv (map (\<lambda>q. AddItem iid q mss) qs) iv' \<and>
    (\<forall>iv''. inventory_steps iv (map (\<lambda>q. AddItem iid q mss) qs) iv'' \<longrightarrow> iv'' = iv') \<and>
    capacity_for iid mss iv' = 0 \<and>
    get_item_count iid iv' = get_item_count iid iv + capacity_for iid mss iv"
proof -
  from requests_saturate_aux [OF assms(3,1,2,4)]
  obtain iv' where s: "inventory_steps iv (map (\<lambda>q. AddItem iid q mss) qs) iv'"
    and r: "capacity_for iid mss iv' = 0"
      "get_item_count iid iv' = get_item_count iid iv + capacity_for iid mss iv" by blast
  from s have "\<forall>iv''. inventory_steps iv (map (\<lambda>q. AddItem iid q mss) qs) iv'' \<longrightarrow> iv'' = iv'"
    by (blast intro: inventory_steps_deterministic)
  with s r show ?thesis by blast
qed

theorem requests_saturate_witness:
  "\<exists>iv'. inventory_steps
       \<lparr>component_type = INVENTORY, cells = [], max_cells = 2, default_max_stack_size = 5\<rparr>
       [AddItem ''potion'' 4 None, AddItem ''potion'' 7 None] iv' \<and>
     capacity_for ''potion'' None iv' = 0 \<and> get_item_count ''potion'' iv' = 10"
proof -
  let ?iv = "\<lparr>component_type = INVENTORY, cells = [], max_cells = 2, default_max_stack_size = 5\<rparr>"
  have inv: "inventory_inv ?iv" by (simp add: inventory_inv_def)
  have ss: "1 \<le> stack_size_for None ?iv" by (simp add: stack_size_for_def)
  have cap: "capacity_for ''potion'' None ?iv = 10"
    by (simp add: capacity_for_def room_in_def stack_size_for_def)
  have c: "get_item_count ''potion'' ?iv = 0" by (simp add: get_item_count_def)
  have "capacity_for ''potion'' None ?iv \<le> sum_list [4, 7]" unfolding cap by simp
  from requests_saturate [OF inv ss _ this] show ?thesis
    unfolding cap c by simp blast
qed

end
