(* ===== verification/AW_Heap.thy ===== *)
theory AW_Heap
  imports AW_Prelude
begin

text \<open>
  Objects and references. A component of the Python source is an object: a variable, a
  list element and a return value hold a reference to it, and a method call changes the
  object for every holder. The component theories work with the values of the objects;
  this theory has the store that says when that is right.

  The store is the list of all objects in the order of their creation, and a reference is
  a position in it. An object is never freed while it is referenced, so the list only
  grows. A collection of the source, \<^verbatim>\<open>List[StatComponent]\<close> or
  \<^verbatim>\<open>List[InventoryCellComponent]\<close>, is a list of references; \<open>derefs\<close> reads its values,
  \<open>owned\<close> says that its references are to objects of the store and pairwise different.
  The lemmas relate a method call through one reference, and a loop of calls over a list
  of references, to the values: over an owned list the call changes one element of the
  list of values and the loop maps over it.
\<close>

section \<open>The store\<close>

type_synonym addr = nat

type_synonym 'o heap = "'o list"

text \<open>The constructor call \<^verbatim>\<open>C(...)\<close>: a new object, and the reference to it.\<close>

definition alloc :: "'o \<Rightarrow> 'o heap \<Rightarrow> addr \<times> 'o heap" where
  "alloc v h = (length h, h @ [v])"

definition deref :: "'o heap \<Rightarrow> addr \<Rightarrow> 'o" where
  "deref h a = h ! a"

definition put :: "addr \<Rightarrow> 'o \<Rightarrow> 'o heap \<Rightarrow> 'o heap" where
  "put a v h = h[a := v]"

text \<open>
  A method call \<^verbatim>\<open>a.m(...)\<close> on the object behind a reference, for a method that is given
  on values as a function to the result and the object after the call; \<open>exec\<close> is the
  call of a method without result.
\<close>

definition call :: "('o \<Rightarrow> 'r \<times> 'o) \<Rightarrow> addr \<Rightarrow> 'o heap \<Rightarrow> 'r \<times> 'o heap" where
  "call m a h = (case m (deref h a) of (r, v) \<Rightarrow> (r, put a v h))"

definition exec :: "('o \<Rightarrow> 'o) \<Rightarrow> addr \<Rightarrow> 'o heap \<Rightarrow> 'o heap" where
  "exec m a h = put a (m (deref h a)) h"

text \<open>The loop \<^verbatim>\<open>for x in xs: x.m()\<close> over a list of references.\<close>

fun exec_all :: "('o \<Rightarrow> 'o) \<Rightarrow> addr list \<Rightarrow> 'o heap \<Rightarrow> 'o heap" where
  "exec_all m [] h = h"
| "exec_all m (a # as) h = exec_all m as (exec m a h)"

section \<open>Lists of references\<close>

definition derefs :: "'o heap \<Rightarrow> addr list \<Rightarrow> 'o list" where
  "derefs h as = map (deref h) as"

definition live :: "'o heap \<Rightarrow> addr list \<Rightarrow> bool" where
  "live h as \<longleftrightarrow> list_all (\<lambda>a. a < length h) as"

definition owned :: "'o heap \<Rightarrow> addr list \<Rightarrow> bool" where
  "owned h as \<longleftrightarrow> distinct as \<and> live h as"

text \<open>
  \<open>frame as h h'\<close>: the store \<open>h'\<close> has the objects of \<open>h\<close> and possibly new ones, and
  every object of \<open>h\<close> that is not behind a reference of \<open>as\<close> has the value that it had.
\<close>

definition frame :: "addr list \<Rightarrow> 'o heap \<Rightarrow> 'o heap \<Rightarrow> bool" where
  "frame as h h' \<longleftrightarrow>
     length h \<le> length h' \<and> list_all (\<lambda>b. b \<in> set as \<or> deref h' b = deref h b) [0..<length h]"

section \<open>Reading and writing\<close>

lemma length_put [simp]: "length (put a v h) = length h"
  by (simp add: put_def)

lemma length_exec [simp]: "length (exec m a h) = length h"
  by (simp add: exec_def)

lemma length_call [simp]: "length (snd (call m a h)) = length h"
  by (simp add: call_def split: prod.split)

lemma deref_put: "a < length h \<Longrightarrow> deref (put a v h) b = (if b = a then v else deref h b)"
  by (simp add: deref_def put_def)

lemma deref_put_other [simp]: "b \<noteq> a \<Longrightarrow> deref (put a v h) b = deref h b"
  by (simp add: deref_def put_def)

lemma deref_put_same [simp]: "a < length h \<Longrightarrow> deref (put a v h) a = v"
  by (simp add: deref_put)

lemma deref_exec: "a < length h \<Longrightarrow> deref (exec m a h) b = (if b = a then m (deref h a) else deref h b)"
  by (simp add: exec_def deref_put)

lemma call_eq: "call m a h = (fst (m (deref h a)), exec (\<lambda>v. snd (m v)) a h)"
  by (simp add: call_def exec_def split: prod.split)

lemma alloc_eq [simp]: "fst (alloc v h) = length h" "snd (alloc v h) = h @ [v]"
  by (simp_all add: alloc_def)

lemma deref_append: "a < length h \<Longrightarrow> deref (h @ k) a = deref h a"
  by (simp add: deref_def nth_append)

lemma deref_new [simp]: "deref (h @ [v]) (length h) = v"
  by (simp add: deref_def)

section \<open>Lists of references: reading\<close>

lemma derefs_simps [simp]:
  "derefs h [] = []" "derefs h (a # as) = deref h a # derefs h as"
  "derefs h (as @ bs) = derefs h as @ derefs h bs"
  by (simp_all add: derefs_def)

lemma length_derefs [simp]: "length (derefs h as) = length as"
  by (simp add: derefs_def)

lemma nth_derefs [simp]: "i < length as \<Longrightarrow> derefs h as ! i = deref h (as ! i)"
  by (simp add: derefs_def)

lemma derefs_take_drop [simp]:
  "derefs h (take n as) = take n (derefs h as)" "derefs h (drop n as) = drop n (derefs h as)"
  by (simp_all add: derefs_def take_map drop_map)

lemma derefs_py_slice_to: "derefs h (py_slice_to n as) = py_slice_to n (derefs h as)"
  by (simp add: py_slice_to_def)

lemma live_simps [simp]:
  "live h []" "live h (a # as) \<longleftrightarrow> a < length h \<and> live h as"
  "live h (as @ bs) \<longleftrightarrow> live h as \<and> live h bs"
  by (simp_all add: live_def)

lemma live_iff: "live h as \<longleftrightarrow> (\<forall>a \<in> set as. a < length h)"
  by (simp add: live_def list_all_iff)

lemma live_mono: "live h as \<Longrightarrow> length h \<le> length h' \<Longrightarrow> live h' as"
  by (auto simp: live_iff)

lemma live_subset: "live h as \<Longrightarrow> set bs \<subseteq> set as \<Longrightarrow> live h bs"
  by (auto simp: live_iff)

lemma live_fresh: "live h as \<Longrightarrow> length h \<notin> set as"
  by (auto simp: live_iff)

lemma owned_simps [simp]:
  "owned h []" "owned h (a # as) \<longleftrightarrow> a \<notin> set as \<and> a < length h \<and> owned h as"
  by (auto simp: owned_def)

lemma owned_distinct: "owned h as \<Longrightarrow> distinct as"
  by (simp add: owned_def)

lemma owned_live: "owned h as \<Longrightarrow> live h as"
  by (simp add: owned_def)

lemma owned_mono: "owned h as \<Longrightarrow> length h \<le> length h' \<Longrightarrow> owned h' as"
  by (auto simp: owned_def intro: live_mono)

lemma owned_alloc: "owned h as \<Longrightarrow> owned (h @ [v]) (as @ [length h])"
  by (auto simp: owned_def live_iff)

lemma owned_take_drop:
  assumes "owned h as"
  shows "owned h (take i as @ drop (Suc i) as)"
proof -
  have "distinct (take i as @ drop (Suc i) as)"
    using assms by (simp add: owned_def set_take_disj_set_drop_if_distinct)
  moreover have "live h (take i as @ drop (Suc i) as)"
    using assms by (auto simp: owned_def live_iff dest: in_set_takeD in_set_dropD)
  ultimately show ?thesis
    by (simp add: owned_def)
qed

lemma owned_prefix: "owned h as \<Longrightarrow> owned h (take n as)"
  by (auto simp: owned_def live_iff dest: in_set_takeD)

section \<open>Lists of references: writing\<close>

lemma derefs_put_notin [simp]: "a \<notin> set as \<Longrightarrow> derefs (put a v h) as = derefs h as"
  by (induction as) auto

lemma derefs_exec_notin [simp]: "a \<notin> set as \<Longrightarrow> derefs (exec m a h) as = derefs h as"
  by (simp add: exec_def)

lemma derefs_append_live [simp]: "live h as \<Longrightarrow> derefs (h @ k) as = derefs h as"
  by (induction as) (simp_all add: deref_append)

text \<open>A write through the reference at position \<open>i\<close> of an owned list changes element \<open>i\<close>.\<close>

lemma derefs_put_nth:
  assumes "owned h as" and "i < length as"
  shows "derefs (put (as ! i) v h) as = (derefs h as)[i := v]"
  using assms
proof (induction as arbitrary: i)
  case (Cons a as)
  show ?case
  proof (cases i)
    case 0
    with Cons.prems show ?thesis
      by simp
  next
    case (Suc j)
    with Cons.prems have "as ! j \<in> set as"
      by simp
    with Cons.prems have "a \<noteq> as ! j"
      by auto
    with Cons Suc show ?thesis
      by simp
  qed
qed simp

lemma derefs_exec_nth:
  assumes "owned h as" and "i < length as"
  shows "derefs (exec m (as ! i) h) as = (derefs h as)[i := m (derefs h as ! i)]"
  using assms by (simp add: exec_def derefs_put_nth)

text \<open>A write through any reference changes every position that holds it.\<close>

lemma derefs_put:
  "live h as \<Longrightarrow> derefs (put a v h) as = map (\<lambda>b. if b = a then v else deref h b) as"
  by (induction as) (auto simp: deref_put)

section \<open>Loops over references\<close>

lemma length_exec_all [simp]: "length (exec_all m as h) = length h"
  by (induction as arbitrary: h) simp_all

lemma deref_exec_all_notin: "b \<notin> set as \<Longrightarrow> deref (exec_all m as h) b = deref h b"
  by (induction as arbitrary: h) (auto simp: exec_def)

lemma derefs_exec_all_disjoint:
  "set as \<inter> set bs = {} \<Longrightarrow> derefs (exec_all m as h) bs = derefs h bs"
  by (induction bs) (auto simp: deref_exec_all_notin)

text \<open>Over an owned list the loop is the map over the values.\<close>

lemma derefs_exec_all:
  "owned h as \<Longrightarrow> derefs (exec_all m as h) as = map m (derefs h as)"
proof (induction as arbitrary: h)
  case (Cons a as)
  then have "owned (exec m a h) as"
    by (simp add: owned_def live_iff)
  with Cons show ?case
    by (simp add: deref_exec_all_notin deref_exec)
qed simp

section \<open>Scans\<close>

lemma first_index_derefs:
  "first_index P (derefs h as) = first_index (\<lambda>a. P (deref h a)) as"
  by (simp add: derefs_def first_index_map comp_def)

lemma find_derefs:
  "map_option (deref h) (find (\<lambda>a. P (deref h a)) as) = find P (derefs h as)"
  by (induction as) simp_all

lemma find_in_set: "find P as = Some a \<Longrightarrow> a \<in> set as"
  by (induction as) (auto split: if_splits)


section \<open>What a call leaves alone\<close>

lemma frame_iff:
  "frame as h h' \<longleftrightarrow>
     length h \<le> length h' \<and> (\<forall>b<length h. b \<notin> set as \<longrightarrow> deref h' b = deref h b)"
  by (auto simp: frame_def list_all_iff)

lemma frame_refl [simp]: "frame as h h"
  by (simp add: frame_iff)

lemma frame_length: "frame as h h' \<Longrightarrow> length h \<le> length h'"
  by (simp add: frame_iff)

lemma frame_deref: "frame as h h' \<Longrightarrow> b < length h \<Longrightarrow> b \<notin> set as \<Longrightarrow> deref h' b = deref h b"
  by (simp add: frame_iff)

lemma frame_trans:
  "frame as h h1 \<Longrightarrow> frame bs h1 h2 \<Longrightarrow> set as \<union> set bs \<subseteq> set cs \<Longrightarrow> frame cs h h2"
  unfolding frame_iff
  by (metis Un_subset_iff le_trans less_le_trans subsetD)

lemma frame_mono: "frame as h h' \<Longrightarrow> set as \<subseteq> set bs \<Longrightarrow> frame bs h h'"
  by (auto simp: frame_iff)

lemma frame_put [simp]: "frame [a] h (put a v h)"
  by (simp add: frame_iff)

lemma frame_exec [simp]: "frame [a] h (exec m a h)"
  by (simp add: exec_def)

lemma frame_append [simp]: "frame as h (h @ k)"
  by (simp add: frame_iff deref_append)

lemma frame_exec_all: "frame as h (exec_all m as h)"
  by (simp add: frame_iff deref_exec_all_notin)

lemma frame_derefs:
  assumes "frame as h h'" and "live h bs" and "set as \<inter> set bs = {}"
  shows "derefs h' bs = derefs h bs"
  unfolding derefs_def
proof (rule map_cong [OF refl])
  fix b assume "b \<in> set bs"
  with assms(2,3) have "b < length h" and "b \<notin> set as"
    by (auto simp: live_iff)
  with assms(1) show "deref h' b = deref h b"
    by (rule frame_deref)
qed

lemma frame_owned: "frame as h h' \<Longrightarrow> owned h bs \<Longrightarrow> owned h' bs"
  by (auto intro: owned_mono frame_length)

lemma frame_live: "frame as h h' \<Longrightarrow> live h bs \<Longrightarrow> live h' bs"
  by (auto intro: live_mono frame_length)

text \<open>
  A call that writes \<open>v\<close> to the object at position \<open>i\<close> of an owned list, and to nothing
  else of the old store, changes element \<open>i\<close> of the values.
\<close>

lemma frame_derefs_nth:
  assumes "owned h as" and "i < length as" and "frame [as ! i] h h'"
    and "deref h' (as ! i) = v"
  shows "derefs h' as = (derefs h as)[i := v]"
proof (rule nth_equalityI)
  fix j assume "j < length (derefs h' as)"
  then have j: "j < length as"
    by simp
  show "derefs h' as ! j = (derefs h as)[i := v] ! j"
  proof (cases "j = i")
    case True
    with assms(2,4) show ?thesis
      by simp
  next
    case False
    with assms(1,2) j have "as ! j \<noteq> as ! i" and "as ! j < length h"
      by (auto simp: owned_def live_iff nth_eq_iff_index_eq)
    with assms(3) have "deref h' (as ! j) = deref h (as ! j)"
      by (simp add: frame_iff)
    with False j show ?thesis
      by simp
  qed
qed simp

end
