(* ===== verification/AW_StatsHeap.thy ===== *)
theory AW_StatsHeap
  imports AW_Heap AW_Stats
begin

text \<open>
  \<^verbatim>\<open>StatsComponent\<close> over the store. The field \<^verbatim>\<open>stats\<close> is a list of references to
  \<^verbatim>\<open>StatComponent\<close> objects: \<^verbatim>\<open>get_stat\<close> and \<^verbatim>\<open>add_stat\<close> return the reference that the list
  holds, the methods that take a name call a method of the object behind it, and the
  constructor and the assignment to \<^verbatim>\<open>stats\<close> keep the objects that they are given. The
  definitions follow the source statement by statement, with the store as an argument and
  a result; \<open>AW_Stats\<close> is the same class with the values in place of the references.

  The theory shows that the two agree while the collection owns its stats, that is, while
  the references of the list are pairwise different and nobody else writes through them:
  \<open>abs_stats\<close> reads the values of the list, and every call on the references is the call
  of \<open>AW_Stats\<close> on the values. Every method keeps the list owned. The constructor does
  not make it so and the references that the methods return let a caller write: the last
  section has what goes wrong then.
\<close>

section \<open>The class\<close>

record StatsComponent_h = ComponentModel +
  stats_h :: "addr list"
  max_stats_h :: "int option"

type_synonym 'a stats_state = "StatsComponent_h \<times> 'a StatComponent heap"

text \<open>The values behind the references: the collection of \<open>AW_Stats\<close>.\<close>

definition abs_stats :: "'a stats_state \<Rightarrow> 'a StatsComponent" where
  "abs_stats w =
     \<lparr>component_type = component_type (fst w), stats = derefs (snd w) (stats_h (fst w)),
      max_stats = max_stats_h (fst w)\<rparr>"

text \<open>The test \<^verbatim>\<open>stat.name == name\<close> of the scans, on a reference.\<close>

definition named_h :: "'a StatComponent heap \<Rightarrow> string \<Rightarrow> addr \<Rightarrow> bool" where
  "named_h h n a \<longleftrightarrow> name (deref h a) = n"

section \<open>Construction and assignment\<close>

definition validate_stats_count_h :: "StatsComponent_h \<Rightarrow> StatsComponent_h" where
  "validate_stats_count_h sc =
     (if max_stats_h sc \<noteq> None \<and> int (length (stats_h sc)) > the (max_stats_h sc)
      then sc\<lparr>stats_h := py_slice_to (the (max_stats_h sc)) (stats_h sc)\<rparr>
      else sc)"

text \<open>
  \<^verbatim>\<open>StatsComponent(stats=[...], max_stats=m)\<close> with stats that exist: the new collection
  holds the references that the caller passed, in a list of its own.
\<close>

definition StatsComponent_init_h :: "addr list \<Rightarrow> int option \<Rightarrow> StatsComponent_h result" where
  "StatsComponent_init_h ss ms =
     bind_result
       (case ms of None \<Rightarrow> Inr None
        | Some m \<Rightarrow> bind_result (check_ge ''max_stats'' 1 m) (\<lambda>m. Inr (Some m)))
       (\<lambda>ms'. Inr (validate_stats_count_h
          \<lparr>component_type = STAT, stats_h = ss, max_stats_h = ms'\<rparr>))"

definition assign_stats_h :: "addr list \<Rightarrow> StatsComponent_h \<Rightarrow> StatsComponent_h" where
  "assign_stats_h ss sc = validate_stats_count_h (sc\<lparr>stats_h := ss\<rparr>)"

text \<open>\<^verbatim>\<open>stat.name = v\<close>: the field has no validator, the assignment stores the string.\<close>

definition assign_name :: "string \<Rightarrow> 'a StatComponent \<Rightarrow> 'a StatComponent" where
  "assign_name v s = s\<lparr>name := v\<rparr>"

section \<open>Methods\<close>

definition get_stat_h :: "string \<Rightarrow> StatsComponent_h \<Rightarrow> 'a StatComponent heap \<Rightarrow> addr option" where
  "get_stat_h n sc h = find (named_h h n) (stats_h sc)"

definition has_stat_h :: "string \<Rightarrow> StatsComponent_h \<Rightarrow> 'a StatComponent heap \<Rightarrow> bool" where
  "has_stat_h n sc h \<longleftrightarrow> get_stat_h n sc h \<noteq> None"

definition get_stat_names_h :: "StatsComponent_h \<Rightarrow> 'a StatComponent heap \<Rightarrow> string list" where
  "get_stat_names_h sc h = map (\<lambda>stat. name (deref h stat)) (stats_h sc)"

text \<open>\<^verbatim>\<open>list(self.stats)\<close>: a new list of the same references.\<close>

definition get_all_stats_h :: "StatsComponent_h \<Rightarrow> addr list" where
  "get_all_stats_h sc = stats_h sc"

definition remove_stat_h ::
  "string \<Rightarrow> StatsComponent_h \<Rightarrow> 'a StatComponent heap \<Rightarrow> bool \<times> StatsComponent_h" where
  "remove_stat_h n sc h =
     (case delete_first (named_h h n) (stats_h sc) of (found, ss) \<Rightarrow> (found, sc\<lparr>stats_h := ss\<rparr>))"

definition append_stat_h ::
  "string \<Rightarrow> 'a \<Rightarrow> 'a option \<Rightarrow> 'a option \<Rightarrow> 'a option \<Rightarrow> string \<Rightarrow> StatsComponent_h
     \<Rightarrow> ('a::{ord,zero}) StatComponent heap \<Rightarrow> addr result \<times> 'a stats_state" where
  "append_stat_h n base cur min_val max_val desc sc h =
     (if max_stats_h sc \<noteq> None \<and> int (length (stats_h sc)) \<ge> the (max_stats_h sc)
      then (Inl (MaxStatsReached (the (max_stats_h sc))), sc, h)
      else
        (case alloc (StatComponent_init n (Some base) cur min_val max_val desc) h of
           (new_stat, h') \<Rightarrow> (Inr new_stat, sc\<lparr>stats_h := stats_h sc @ [new_stat]\<rparr>, h')))"

definition add_stat_h ::
  "string \<Rightarrow> 'a \<Rightarrow> 'a option \<Rightarrow> 'a option \<Rightarrow> 'a option \<Rightarrow> string \<Rightarrow> bool \<Rightarrow> StatsComponent_h
     \<Rightarrow> ('a::{ord,zero}) StatComponent heap \<Rightarrow> addr result \<times> 'a stats_state" where
  "add_stat_h n base cur min_val max_val desc replace_if_exists sc h =
     (let existing_stat = get_stat_h n sc h
      in if existing_stat \<noteq> None then
           (if replace_if_exists
            then append_stat_h n base cur min_val max_val desc (snd (remove_stat_h n sc h)) h
            else (Inl (StatExists n), sc, h))
         else append_stat_h n base cur min_val max_val desc sc h)"

definition clear_all_stats_h :: "StatsComponent_h \<Rightarrow> int \<times> StatsComponent_h" where
  "clear_all_stats_h sc = (int (length (stats_h sc)), sc\<lparr>stats_h := []\<rparr>)"

text \<open>
  The methods that delegate: \<^verbatim>\<open>stat = self.get_stat(name)\<close>, the answer for no stat, and
  the call on the object.
\<close>

definition on_stat ::
  "('a StatComponent \<Rightarrow> 'r \<times> 'a StatComponent) \<Rightarrow> string \<Rightarrow> StatsComponent_h
     \<Rightarrow> 'a StatComponent heap \<Rightarrow> 'r option \<times> 'a StatComponent heap" where
  "on_stat m n sc h =
     (case get_stat_h n sc h of
        None \<Rightarrow> (None, h)
      | Some stat \<Rightarrow> (case call m stat h of (r, h') \<Rightarrow> (Some r, h')))"

definition modify_stat_h ::
  "string \<Rightarrow> 'a \<Rightarrow> StatsComponent_h \<Rightarrow> ('a::{ord,plus}) StatComponent heap
     \<Rightarrow> 'a option \<times> 'a StatComponent heap" where
  "modify_stat_h n modifier sc h = on_stat (modify_value modifier) n sc h"

definition set_stat_base_value_h ::
  "string \<Rightarrow> 'a \<Rightarrow> StatsComponent_h \<Rightarrow> ('a::ord) StatComponent heap
     \<Rightarrow> 'a option \<times> 'a StatComponent heap" where
  "set_stat_base_value_h n new_value sc h = on_stat (set_base_value new_value) n sc h"

definition set_stat_current_value_h ::
  "string \<Rightarrow> 'a \<Rightarrow> StatsComponent_h \<Rightarrow> ('a::ord) StatComponent heap
     \<Rightarrow> 'a option \<times> 'a StatComponent heap" where
  "set_stat_current_value_h n new_value sc h =
     on_stat (\<lambda>s. let s' = assign_current_value new_value s in (current_value s', s')) n sc h"

definition reset_stat_to_base_h ::
  "string \<Rightarrow> StatsComponent_h \<Rightarrow> ('a::ord) StatComponent heap \<Rightarrow> bool \<times> 'a StatComponent heap" where
  "reset_stat_to_base_h n sc h =
     (case get_stat_h n sc h of
        None \<Rightarrow> (False, h)
      | Some stat \<Rightarrow> (True, exec reset_to_base stat h))"

definition reset_all_to_base_h ::
  "StatsComponent_h \<Rightarrow> ('a::ord) StatComponent heap \<Rightarrow> 'a StatComponent heap" where
  "reset_all_to_base_h sc h = exec_all reset_to_base (stats_h sc) h"

section \<open>Sequences of calls\<close>

text \<open>
  The calls of \<open>stats_op\<close> on a collection over the store, and the calls that the holder
  of a reference to a stat can make on the object itself.
\<close>

fun stats_step_h :: "('a::{ord,plus,zero}) stats_state \<Rightarrow> 'a stats_op \<Rightarrow> 'a stats_state" where
  "stats_step_h (sc, h) (AddStat n b c lo hi d r) = snd (add_stat_h n b c lo hi d r sc h)"
| "stats_step_h (sc, h) (RemoveStat n) = (snd (remove_stat_h n sc h), h)"
| "stats_step_h (sc, h) (ModifyStat n m) = (sc, snd (modify_stat_h n m sc h))"
| "stats_step_h (sc, h) (SetStatBase n v) = (sc, snd (set_stat_base_value_h n v sc h))"
| "stats_step_h (sc, h) (SetStatCurrent n v) = (sc, snd (set_stat_current_value_h n v sc h))"
| "stats_step_h (sc, h) (ResetStat n) = (sc, snd (reset_stat_to_base_h n sc h))"
| "stats_step_h (sc, h) ResetAll = (sc, reset_all_to_base_h sc h)"
| "stats_step_h (sc, h) ClearAllStats = (snd (clear_all_stats_h sc), h)"

fun stats_run_h :: "('a::{ord,plus,zero}) stats_state \<Rightarrow> 'a stats_op list \<Rightarrow> 'a stats_state" where
  "stats_run_h w [] = w"
| "stats_run_h w (x # xs) = stats_run_h (stats_step_h w x) xs"

text \<open>The collection owns its stats: the references of its list are pairwise different.\<close>

definition stats_owned :: "'a stats_state \<Rightarrow> bool" where
  "stats_owned w \<longleftrightarrow> owned (snd w) (stats_h (fst w))"


section \<open>Reading\<close>

lemma abs_stats_sel [simp]:
  "component_type (abs_stats (sc, h)) = component_type sc"
  "stats (abs_stats (sc, h)) = derefs h (stats_h sc)"
  "max_stats (abs_stats (sc, h)) = max_stats_h sc"
  by (simp_all add: abs_stats_def)

lemma abs_stats_update [simp]:
  "abs_stats (sc\<lparr>stats_h := ss\<rparr>, h) = (abs_stats (sc, h))\<lparr>stats := derefs h ss\<rparr>"
  by (simp add: abs_stats_def)

lemma abs_stats_record [simp]:
  "abs_stats (\<lparr>component_type = t, stats_h = ss, max_stats_h = ms\<rparr>, h) =
     \<lparr>component_type = t, stats = derefs h ss, max_stats = ms\<rparr>"
  by (simp add: abs_stats_def)

lemma abs_stats_eqI:
  "derefs h' (stats_h sc) = ss \<Longrightarrow> abs_stats (sc, h') = (abs_stats (sc, h))\<lparr>stats := ss\<rparr>"
  by (simp add: abs_stats_def)

lemma stats_owned_iff [simp]: "stats_owned (sc, h) \<longleftrightarrow> owned h (stats_h sc)"
  by (simp add: stats_owned_def)

lemma named_h_eq: "named_h h n = named n \<circ> deref h"
  by (simp add: fun_eq_iff named_h_def named_def)

lemma get_stat_h_abs: "map_option (deref h) (get_stat_h n sc h) = get_stat n (abs_stats (sc, h))"
  by (simp add: get_stat_h_def get_stat_def named_h_eq find_derefs [symmetric] comp_def)

lemma get_stat_h_None: "get_stat_h n sc h = None \<longleftrightarrow> get_stat n (abs_stats (sc, h)) = None"
  using get_stat_h_abs [of h n sc] by (cases "get_stat_h n sc h") (auto dest: sym)

lemma has_stat_h_abs: "has_stat_h n sc h = has_stat n (abs_stats (sc, h))"
  by (simp add: has_stat_h_def has_stat_def get_stat_h_None)

lemma get_stat_names_h_abs: "get_stat_names_h sc h = get_stat_names (abs_stats (sc, h))"
  by (simp add: get_stat_names_h_def get_stat_names_def derefs_def)

lemma get_all_stats_h_abs: "derefs h (get_all_stats_h sc) = get_all_stats (abs_stats (sc, h))"
  by (simp add: get_all_stats_h_def get_all_stats_def)

lemma get_stat_h_in: "get_stat_h n sc h = Some a \<Longrightarrow> a \<in> set (stats_h sc) \<and> name (deref h a) = n"
  by (auto simp: get_stat_h_def named_h_def find_Some_iff)

section \<open>Construction, removal and clearing\<close>

lemma validate_stats_count_h_abs:
  "abs_stats (validate_stats_count_h sc, h) = validate_stats_count (abs_stats (sc, h))"
  by (simp add: validate_stats_count_h_def validate_stats_count_def derefs_py_slice_to)

lemma StatsComponent_init_h_abs:
  "map_sum id (\<lambda>sc. abs_stats (sc, h)) (StatsComponent_init_h ss ms) =
     StatsComponent_init (derefs h ss) ms"
  by (cases ms)
    (simp_all add: StatsComponent_init_h_def StatsComponent_init_def bind_result_def check_ge_def
      validate_stats_count_h_abs)

lemma assign_stats_h_abs:
  "abs_stats (assign_stats_h ss sc, h) = assign_stats (derefs h ss) (abs_stats (sc, h))"
  by (simp add: assign_stats_h_def assign_stats_def validate_stats_count_h_abs)

lemma remove_stat_h_abs:
  "fst (remove_stat_h n sc h) = fst (remove_stat n (abs_stats (sc, h)))"
  "abs_stats (snd (remove_stat_h n sc h), h) = snd (remove_stat n (abs_stats (sc, h)))"
  by (simp_all add: remove_stat_h_def remove_stat_def delete_first_def named_h_eq
      first_index_derefs comp_def split: option.split)

lemma remove_stat_h_owned: "owned h (stats_h sc) \<Longrightarrow> owned h (stats_h (snd (remove_stat_h n sc h)))"
  by (simp add: remove_stat_h_def delete_first_def owned_take_drop split: option.split)

lemma clear_all_stats_h_abs:
  "fst (clear_all_stats_h sc) = fst (clear_all_stats (abs_stats (sc, h)))"
  "abs_stats (snd (clear_all_stats_h sc), h) = snd (clear_all_stats (abs_stats (sc, h)))"
  by (simp_all add: clear_all_stats_h_def clear_all_stats_def)


section \<open>Adding\<close>

lemma append_stat_h_abs:
  assumes "live h (stats_h sc)"
  shows "abs_stats (snd (append_stat_h n b c lo hi d sc h)) =
      snd (append_stat n b c lo hi d (abs_stats (sc, h)))"
    and "map_sum id (deref (snd (snd (append_stat_h n b c lo hi d sc h))))
        (fst (append_stat_h n b c lo hi d sc h)) =
      fst (append_stat n b c lo hi d (abs_stats (sc, h)))"
  using assms by (simp_all add: append_stat_h_def append_stat_def alloc_def Let_def)

lemma append_stat_h_owned:
  "owned h (stats_h sc) \<Longrightarrow> stats_owned (snd (append_stat_h n b c lo hi d sc h))"
  by (simp add: append_stat_h_def alloc_def owned_alloc)

lemma append_stat_h_extends: "length h \<le> length (snd (snd (append_stat_h n b c lo hi d sc h)))"
  by (simp add: append_stat_h_def alloc_def)

lemma add_stat_h_abs:
  assumes "live h (stats_h sc)"
  shows "abs_stats (snd (add_stat_h n b c lo hi d r sc h)) =
      snd (add_stat n b c lo hi d r (abs_stats (sc, h)))"
    and "map_sum id (deref (snd (snd (add_stat_h n b c lo hi d r sc h))))
        (fst (add_stat_h n b c lo hi d r sc h)) =
      fst (add_stat n b c lo hi d r (abs_stats (sc, h)))"
proof -
  have "live h (stats_h (snd (remove_stat_h n sc h)))"
    using assms
    by (auto simp: remove_stat_h_def delete_first_def live_iff split: option.split
        dest: in_set_takeD in_set_dropD)
  note app = append_stat_h_abs [OF this] append_stat_h_abs [OF assms]
  note none = get_stat_h_None [of n sc h]
  show "abs_stats (snd (add_stat_h n b c lo hi d r sc h)) =
      snd (add_stat n b c lo hi d r (abs_stats (sc, h)))"
    using none
    by (cases "get_stat_h n sc h")
      (auto simp: add_stat_h_def add_stat_def Let_def app remove_stat_h_abs)
  show "map_sum id (deref (snd (snd (add_stat_h n b c lo hi d r sc h))))
        (fst (add_stat_h n b c lo hi d r sc h)) =
      fst (add_stat n b c lo hi d r (abs_stats (sc, h)))"
    using none
    by (cases "get_stat_h n sc h")
      (auto simp: add_stat_h_def add_stat_def Let_def app remove_stat_h_abs)
qed

lemma add_stat_h_owned:
  "owned h (stats_h sc) \<Longrightarrow> stats_owned (snd (add_stat_h n b c lo hi d r sc h))"
  by (simp add: add_stat_h_def Let_def append_stat_h_owned remove_stat_h_owned)

section \<open>Calls on a stat of the collection\<close>

lemma on_stat_length [simp]: "length (snd (on_stat m n sc h)) = length h"
  by (simp add: on_stat_def call_eq split: option.split)

lemma on_stat_result:
  "fst (on_stat m n sc h) = map_option fst (update_first (named n) m (derefs h (stats_h sc)))"
proof (cases "first_index (named_h h n) (stats_h sc)")
  case None
  then show ?thesis
    by (simp add: on_stat_def get_stat_h_def find_first_index update_first_def
        first_index_derefs named_h_eq comp_def)
next
  case (Some i)
  then have "i < length (stats_h sc)"
    by (auto dest: first_index_SomeD)
  with Some show ?thesis
    by (simp add: on_stat_def get_stat_h_def find_first_index update_first_def
        first_index_derefs named_h_eq comp_def call_eq split: prod.split)
qed

text \<open>
  The list of values after a call on the first stat of a name: over an owned list, the
  list with that element replaced.
\<close>

lemma on_stat_owned:
  assumes "owned h (stats_h sc)"
  shows "derefs (snd (on_stat m n sc h)) (stats_h sc) =
    (case update_first (named n) m (derefs h (stats_h sc)) of
       None \<Rightarrow> derefs h (stats_h sc) | Some (r, ss) \<Rightarrow> ss)"
proof (cases "first_index (named_h h n) (stats_h sc)")
  case None
  then show ?thesis
    by (simp add: on_stat_def get_stat_h_def find_first_index update_first_def
        first_index_derefs named_h_eq comp_def)
next
  case (Some i)
  then have "i < length (stats_h sc)"
    by (auto dest: first_index_SomeD)
  with Some assms show ?thesis
    by (simp add: on_stat_def get_stat_h_def find_first_index update_first_def
        first_index_derefs named_h_eq comp_def call_eq derefs_exec_nth split: prod.split)
qed

lemma on_stat_abs:
  assumes "owned h (stats_h sc)"
  shows "abs_stats (sc, snd (on_stat m n sc h)) =
    (case update_first (named n) m (stats (abs_stats (sc, h))) of
       None \<Rightarrow> abs_stats (sc, h) | Some (r, ss) \<Rightarrow> (abs_stats (sc, h))\<lparr>stats := ss\<rparr>)"
  using on_stat_owned [OF assms, of m n]
  by (auto simp: abs_stats_def split: option.split)

lemma reset_stat_to_base_h_eq:
  "reset_stat_to_base_h n sc h =
     (fst (on_stat (\<lambda>s. ((), reset_to_base s)) n sc h) \<noteq> None,
      snd (on_stat (\<lambda>s. ((), reset_to_base s)) n sc h))"
  by (simp add: reset_stat_to_base_h_def on_stat_def call_eq split: option.split)

lemma reset_all_to_base_h_abs:
  "owned h (stats_h sc) \<Longrightarrow>
     abs_stats (sc, reset_all_to_base_h sc h) = reset_all_to_base (abs_stats (sc, h))"
  by (simp add: reset_all_to_base_h_def reset_all_to_base_def abs_stats_def derefs_exec_all)

section \<open>One call and a sequence of calls\<close>

lemma stats_step_h_abs:
  assumes "stats_owned w"
  shows "abs_stats (stats_step_h w x) = stats_step (abs_stats w) x"
proof -
  obtain sc h where w: "w = (sc, h)"
    by (cases w)
  with assms have own: "owned h (stats_h sc)"
    by simp
  show ?thesis
    unfolding w
    by (cases x)
      (simp_all add: add_stat_h_abs owned_live [OF own] remove_stat_h_abs clear_all_stats_h_abs
        reset_all_to_base_h_abs [OF own] on_stat_abs [OF own] modify_stat_h_def modify_stat_def
        set_stat_base_value_h_def set_stat_base_value_def set_stat_current_value_h_def
        set_stat_current_value_def reset_stat_to_base_h_eq reset_stat_to_base_def
        split: option.split prod.split)
qed

lemma stats_step_h_owned:
  assumes "stats_owned w"
  shows "stats_owned (stats_step_h w x)"
proof -
  obtain sc h where w: "w = (sc, h)"
    by (cases w)
  with assms have own: "owned h (stats_h sc)"
    by simp
  show ?thesis
    unfolding w
    by (cases x)
      (simp_all add: add_stat_h_owned remove_stat_h_owned own owned_mono [OF own]
        modify_stat_h_def set_stat_base_value_h_def set_stat_current_value_h_def
        reset_stat_to_base_h_eq reset_all_to_base_h_def clear_all_stats_h_def
        split: option.split prod.split)
qed

lemma stats_run_h_abs:
  "stats_owned w \<Longrightarrow>
     abs_stats (stats_run_h w xs) = stats_run (abs_stats w) xs \<and> stats_owned (stats_run_h w xs)"
  by (induction xs arbitrary: w) (simp_all add: stats_step_h_abs stats_step_h_owned)


section \<open>Results\<close>

text \<open>The result of a delegating method is the result on the values, owned or not.\<close>

lemma on_stat_results:
  "fst (modify_stat_h n m sc h) = fst (modify_stat n m (abs_stats (sc, h)))"
  "fst (set_stat_base_value_h n v sc h) = fst (set_stat_base_value n v (abs_stats (sc, h)))"
  "fst (set_stat_current_value_h n v sc h) = fst (set_stat_current_value n v (abs_stats (sc, h)))"
  "fst (reset_stat_to_base_h n sc h) = fst (reset_stat_to_base n (abs_stats (sc, h)))"
  by (simp_all add: modify_stat_h_def modify_stat_def set_stat_base_value_h_def
      set_stat_base_value_def set_stat_current_value_h_def set_stat_current_value_def
      reset_stat_to_base_h_eq reset_stat_to_base_def on_stat_result split: option.split)

section \<open>Frame\<close>

text \<open>A call on a collection writes to the objects of its list and to no other object.\<close>

lemma on_stat_frame:
  assumes "b \<notin> set (stats_h sc)"
  shows "deref (snd (on_stat m n sc h)) b = deref h b"
proof (cases "get_stat_h n sc h")
  case (Some a)
  with assms have "b \<noteq> a"
    by (auto dest: get_stat_h_in)
  with Some show ?thesis
    by (simp add: on_stat_def call_eq exec_def)
qed (simp add: on_stat_def)

lemma stats_step_h_frame:
  assumes "b < length h" and "b \<notin> set (stats_h sc)"
  shows "deref (snd (stats_step_h (sc, h) x)) b = deref h b"
  using assms
  by (cases x)
    (simp_all add: add_stat_h_def append_stat_h_def alloc_def Let_def deref_append
      modify_stat_h_def set_stat_base_value_h_def set_stat_current_value_h_def
      reset_stat_to_base_h_eq reset_all_to_base_h_def on_stat_frame deref_exec_all_notin)

lemma stats_step_h_extends: "length h \<le> length (snd (stats_step_h (sc, h) x))"
  by (cases x)
    (simp_all add: add_stat_h_def append_stat_h_def alloc_def Let_def modify_stat_h_def
      set_stat_base_value_h_def set_stat_current_value_h_def reset_stat_to_base_h_eq
      reset_all_to_base_h_def)

lemma stats_step_h_disjoint:
  assumes "live h bs" and "set (stats_h sc) \<inter> set bs = {}"
  shows "derefs (snd (stats_step_h (sc, h) x)) bs = derefs h bs"
  unfolding derefs_def
proof (rule map_cong [OF refl])
  fix b assume "b \<in> set bs"
  with assms have "b < length h" and "b \<notin> set (stats_h sc)"
    by (auto simp: live_iff)
  then show "deref (snd (stats_step_h (sc, h) x)) b = deref h b"
    by (rule stats_step_h_frame)
qed

section \<open>Sharing\<close>

text \<open>
  A write through a reference of the list changes every position that holds it, and a
  scan for a name sees the new name.
\<close>

lemma get_stat_names_exec:
  assumes "live h (stats_h sc)"
  shows "get_stat_names_h sc (exec f a h) =
    map (\<lambda>b. name (if b = a then f (deref h a) else deref h b)) (stats_h sc)"
  using assms by (auto simp: get_stat_names_h_def live_iff deref_exec exec_def)

lemma renamed_not_distinct:
  assumes live: "live h (stats_h sc)" and a: "get_stat_h n sc h = Some a"
    and k: "has_stat_h k sc h" and kn: "k \<noteq> n"
  shows "\<not> distinct (get_stat_names_h sc (exec (assign_name k) a h))"
proof -
  from a have a_in: "a \<in> set (stats_h sc)" and a_n: "name (deref h a) = n"
    by (auto dest: get_stat_h_in)
  from k obtain b where b_in: "b \<in> set (stats_h sc)" and b_k: "name (deref h b) = k"
    by (auto simp: has_stat_h_def dest: get_stat_h_in)
  from a_n b_k kn have ab: "a \<noteq> b"
    by auto
  let ?g = "\<lambda>b. name (if b = a then assign_name k (deref h a) else deref h b)"
  have "?g a = ?g b"
    using ab b_k by (simp add: assign_name_def)
  with a_in b_in ab have "\<not> inj_on ?g (set (stats_h sc))"
    by (auto simp: inj_on_def)
  then show ?thesis
    by (simp add: get_stat_names_exec [OF live] distinct_map)
qed

lemma modify_shared:
  assumes "a < length h" and "name (deref h a) = n" and "stats_h sc = [a, a]"
  shows "derefs (snd (modify_stat_h n m sc h)) [a, a] =
    [snd (modify_value m (deref h a)), snd (modify_value m (deref h a))]"
  using assms
  by (simp add: modify_stat_h_def on_stat_def call_eq deref_exec get_stat_h_def named_h_def)

section \<open>Properties\<close>

text \<open>
  C16 (refinement). While a collection owns its stats, every sequence of calls on the
  collection over the store gives the values that the same sequence gives on the
  collection of values, and the collection owns its stats afterwards: the model with
  values is the class with references, seen through \<open>abs_stats\<close>.
\<close>

theorem stats_heap_refines:
  assumes "stats_owned w"
  shows "abs_stats (stats_run_h w xs) = stats_run (abs_stats w) xs \<and>
    stats_owned (stats_run_h w xs)"
  using assms by (rule stats_run_h_abs)

theorem stats_heap_refines_witness:
  "abs_stats (stats_run_h
     (\<lparr>component_type = STAT, stats_h = [1, 0], max_stats_h = Some 3\<rparr>,
      [\<lparr>component_type = STAT, name = ''hp'', base_value = 10 :: real, current_value = 10,
         min_value = Some 0, max_value = Some 20, description = ''''\<rparr>,
       \<lparr>component_type = STAT, name = ''mp'', base_value = 5, current_value = 5,
         min_value = None, max_value = None, description = ''''\<rparr>])
     [ModifyStat ''hp'' 50, AddStat ''xp'' 1 None None None '''' False, RemoveStat ''mp'',
      ModifyStat ''xp'' 2, ResetAll]) =
   stats_run
     (abs_stats
       (\<lparr>component_type = STAT, stats_h = [1, 0], max_stats_h = Some 3\<rparr>,
        [\<lparr>component_type = STAT, name = ''hp'', base_value = 10 :: real, current_value = 10,
           min_value = Some 0, max_value = Some 20, description = ''''\<rparr>,
         \<lparr>component_type = STAT, name = ''mp'', base_value = 5, current_value = 5,
           min_value = None, max_value = None, description = ''''\<rparr>]))
     [ModifyStat ''hp'' 50, AddStat ''xp'' 1 None None None '''' False, RemoveStat ''mp'',
      ModifyStat ''xp'' 2, ResetAll]"
  using stats_heap_refines [of
      "(\<lparr>component_type = STAT, stats_h = [1, 0], max_stats_h = Some 3\<rparr>,
        [\<lparr>component_type = STAT, name = ''hp'', base_value = 10 :: real, current_value = 10,
           min_value = Some 0, max_value = Some 20, description = ''''\<rparr>,
         \<lparr>component_type = STAT, name = ''mp'', base_value = 5, current_value = 5,
           min_value = None, max_value = None, description = ''''\<rparr>])"
      "[ModifyStat ''hp'' 50, AddStat ''xp'' 1 None None None '''' False, RemoveStat ''mp'',
        ModifyStat ''xp'' 2, ResetAll]"]
  by (simp add: stats_owned_def)

text \<open>
  Two collections over one store whose lists have no reference in common do
  not interfere: a call on one leaves every value of the other as it was.
\<close>

theorem disjoint_collections_do_not_interfere:
  assumes "live h (stats_h sc2)" and "set (stats_h sc1) \<inter> set (stats_h sc2) = {}"
  shows "abs_stats (sc2, snd (stats_step_h (sc1, h) x)) = abs_stats (sc2, h)"
  using stats_step_h_disjoint [OF assms] by (simp add: abs_stats_def)

theorem disjoint_collections_do_not_interfere_witness:
  "abs_stats
     (\<lparr>component_type = STAT, stats_h = [1], max_stats_h = None\<rparr>,
      snd (stats_step_h
        (\<lparr>component_type = STAT, stats_h = [0], max_stats_h = None\<rparr>,
         [\<lparr>component_type = STAT, name = ''hp'', base_value = 10 :: real, current_value = 10,
            min_value = Some 0, max_value = Some 20, description = ''''\<rparr>,
          \<lparr>component_type = STAT, name = ''hp'', base_value = 5, current_value = 5,
            min_value = None, max_value = None, description = ''''\<rparr>])
        (ModifyStat ''hp'' 3))) =
   abs_stats
     (\<lparr>component_type = STAT, stats_h = [1], max_stats_h = None\<rparr>,
      [\<lparr>component_type = STAT, name = ''hp'', base_value = 10 :: real, current_value = 10,
         min_value = Some 0, max_value = Some 20, description = ''''\<rparr>,
       \<lparr>component_type = STAT, name = ''hp'', base_value = 5, current_value = 5,
         min_value = None, max_value = None, description = ''''\<rparr>])"
  using disjoint_collections_do_not_interfere [of
      "[\<lparr>component_type = STAT, name = ''hp'', base_value = 10 :: real, current_value = 10,
          min_value = Some 0, max_value = Some 20, description = ''''\<rparr>,
        \<lparr>component_type = STAT, name = ''hp'', base_value = 5, current_value = 5,
          min_value = None, max_value = None, description = ''''\<rparr>]"
      "\<lparr>component_type = STAT, stats_h = [1], max_stats_h = None\<rparr>"
      "\<lparr>component_type = STAT, stats_h = [0], max_stats_h = None\<rparr>"
      "ModifyStat ''hp'' 3"]
  by simp

text \<open>
  C32 (safety). The constructor keeps the objects that it is given. A collection made of
  one stat at two positions has both positions changed by one \<^verbatim>\<open>modify_stat\<close>, where the
  collection of values changes the first position only: the model with values is not the
  class when a list holds an object twice (spec 3 has the collection own its entries).
\<close>

theorem shared_stat_changes_twice:
  assumes "a < length h" and "name (deref h a) = n"
  shows "StatsComponent_init_h [a, a] None =
      Inr \<lparr>component_type = STAT, stats_h = [a, a], max_stats_h = None\<rparr> \<and>
    stats (abs_stats (\<lparr>component_type = STAT, stats_h = [a, a], max_stats_h = None\<rparr>,
      snd (modify_stat_h n m \<lparr>component_type = STAT, stats_h = [a, a], max_stats_h = None\<rparr> h))) =
      [snd (modify_value m (deref h a)), snd (modify_value m (deref h a))] \<and>
    stats (snd (modify_stat n m
      (abs_stats (\<lparr>component_type = STAT, stats_h = [a, a], max_stats_h = None\<rparr>, h)))) =
      [snd (modify_value m (deref h a)), deref h a]"
  using assms modify_shared [OF assms, of
      "\<lparr>component_type = STAT, stats_h = [a, a], max_stats_h = None\<rparr>" m]
  by (simp add: StatsComponent_init_h_def bind_result_def validate_stats_count_h_def
      modify_stat_def update_first_def named_def split: prod.split)

theorem shared_stat_changes_twice_witness:
  "stats (abs_stats (\<lparr>component_type = STAT, stats_h = [0, 0], max_stats_h = None\<rparr>,
     snd (modify_stat_h ''hp'' 5 \<lparr>component_type = STAT, stats_h = [0, 0], max_stats_h = None\<rparr>
       [\<lparr>component_type = STAT, name = ''hp'', base_value = 10 :: real, current_value = 10,
          min_value = None, max_value = None, description = ''''\<rparr>]))) =
   [\<lparr>component_type = STAT, name = ''hp'', base_value = 10, current_value = 15,
      min_value = None, max_value = None, description = ''''\<rparr>,
    \<lparr>component_type = STAT, name = ''hp'', base_value = 10, current_value = 15,
      min_value = None, max_value = None, description = ''''\<rparr>]"
  using shared_stat_changes_twice [of 0
      "[\<lparr>component_type = STAT, name = ''hp'', base_value = 10 :: real, current_value = 10,
          min_value = None, max_value = None, description = ''''\<rparr>]" "''hp''" 5]
  by (simp add: deref_def modify_value_def assign_current_value_def Let_def)

text \<open>
  C33 (safety). \<^verbatim>\<open>get_stat\<close> returns the reference that the list holds. The caller who
  assigns the name of another stat of the collection to it leaves the collection with two
  stats of one name, which no method of the collection allows (spec 3: names are unique,
  and a name is set once).
\<close>

theorem exposed_stat_breaks_unique_names:
  assumes "stats_owned (sc, h)" and "get_stat_h n sc h = Some a" and "has_stat_h k sc h"
    and "k \<noteq> n"
  shows "a \<in> set (stats_h sc) \<and>
    \<not> stats_inv (abs_stats (sc, exec (assign_name k) a h))"
proof -
  from assms(1) have "live h (stats_h sc)"
    by (simp add: owned_live)
  then have "\<not> distinct (get_stat_names_h sc (exec (assign_name k) a h))"
    using assms(2-4) by (rule renamed_not_distinct)
  with assms(2) show ?thesis
    by (auto simp: stats_inv_def get_stat_names_h_def derefs_def comp_def dest: get_stat_h_in)
qed

theorem exposed_stat_breaks_unique_names_witness:
  "\<not> stats_inv (abs_stats
     (\<lparr>component_type = STAT, stats_h = [0, 1], max_stats_h = None\<rparr>,
      exec (assign_name ''mp'') 0
        [\<lparr>component_type = STAT, name = ''hp'', base_value = 10 :: real, current_value = 10,
           min_value = None, max_value = None, description = ''''\<rparr>,
         \<lparr>component_type = STAT, name = ''mp'', base_value = 5, current_value = 5,
           min_value = None, max_value = None, description = ''''\<rparr>]))"
  using exposed_stat_breaks_unique_names [of
      "\<lparr>component_type = STAT, stats_h = [0, 1], max_stats_h = None\<rparr>"
      "[\<lparr>component_type = STAT, name = ''hp'', base_value = 10 :: real, current_value = 10,
          min_value = None, max_value = None, description = ''''\<rparr>,
        \<lparr>component_type = STAT, name = ''mp'', base_value = 5, current_value = 5,
          min_value = None, max_value = None, description = ''''\<rparr>]"
      "''hp''" 0 "''mp''"]
  by (simp add: get_stat_h_def has_stat_h_def named_h_def deref_def)

end
