(* ===== verification/AW_FloatStats.thy ===== *)
theory AW_FloatStats
  imports AW_Float AW_StatsHeap
begin

text \<open>
  \<^verbatim>\<open>StatsComponent\<close> with the values that the code gives its stats, Python floats: the
  composition of \<open>AW_Float\<close> with \<open>AW_Stats\<close> and \<open>AW_StatsHeap\<close>. The invariant of a
  collection (unique names, capacity) needs nothing of the values. The bounds of the
  stats of a collection are proved in \<open>AW_Stats\<close> for a linear order, which the floats
  are not; here they are proved for the floats, from what \<open>AW_Float\<close> shows of a single
  stat and from what a call of the collection does to single stats
  (\<open>stats_step_list_all\<close>), for collections as values and for collections of references
  into a store.
\<close>

section \<open>Calls with numbers\<close>

text \<open>
  A call of the collection whose arguments are numbers: the call it makes on a stat is one
  with a number (a finite modifier), and the stat it adds is given numbers, bounds in
  order and values within them.
\<close>

definition number_call :: "pyfloat stats_op \<Rightarrow> bool" where
  "number_call x \<longleftrightarrow>
     (case delegated x of None \<Rightarrow> True | Some y \<Rightarrow> number_op y) \<and>
     (case added x of None \<Rightarrow> True | Some s \<Rightarrow> no_nan s) \<and> add_in_bounds x"

definition number_stats :: "pyfloat StatsComponent \<Rightarrow> bool" where
  "number_stats sc \<longleftrightarrow> list_all number_stat (stats sc)"

section \<open>Lemmas\<close>

lemma number_stat_init:
  assumes "no_nan (StatComponent_init n (Some b) c lo hi d)" and "bounds_ok lo hi"
    and "in_bounds b lo hi" and "case c of None \<Rightarrow> True | Some v \<Rightarrow> in_bounds v lo hi"
  shows "number_stat (StatComponent_init n (Some b) c lo hi d)"
  using assms
  by (cases c) (simp_all add: number_stat_def StatComponent_init_def stat_inv_def Let_def
      validate_base_value_def validate_current_value_def below_min_def above_max_def)

lemma number_call_added:
  assumes "number_call x" and "added x = Some s"
  shows "number_stat s"
  using assms by (cases x) (auto simp: number_call_def intro: number_stat_init)

lemma number_call_delegated:
  assumes "number_call x" and "delegated x = Some y" and "number_stat s"
  shows "number_stat (stat_step s y)"
  using assms by (simp add: number_call_def number_stat_step)

lemma number_stats_run:
  assumes "number_stats sc" and "list_all number_call xs"
  shows "number_stats (stats_run sc xs)"
  using assms unfolding number_stats_def
  by (intro stats_run_list_all)
    (auto simp: list_all_iff intro: number_call_added number_call_delegated)

lemma number_stats_within:
  "number_stats sc \<Longrightarrow> list_all (\<lambda>s. no_nan s \<and> within_bounds s) (stats sc)"
  by (auto simp: number_stats_def list_all_iff number_stat_within number_stat_def)

section \<open>Properties\<close>

text \<open>
  C22 (invariant). In a collection of stats over the floats in which every stat has a number
  in every field, its bounds in order and its values within them, that stays so under every
  sequence of calls of the collection with numbers as arguments, whatever the sums round
  to and also when they overflow: no call stores the value that is not a number, and the
  base and the current value of every stat are at least its minimum and at most its
  maximum. The same holds of a collection of references into a store that owns its stats.
\<close>

theorem float_collection_keeps_bounds:
  assumes "list_all number_call xs"
  shows "(number_stats sc \<longrightarrow>
      number_stats (stats_run sc xs) \<and>
      list_all (\<lambda>s. no_nan s \<and> within_bounds s) (stats (stats_run sc xs))) \<and>
    (stats_owned w \<and> number_stats (abs_stats w) \<longrightarrow>
      list_all (\<lambda>s. no_nan s \<and> within_bounds s) (stats (abs_stats (stats_run_h w xs))))"
  using number_stats_run [OF _ assms, of sc] number_stats_run [OF _ assms, of "abs_stats w"]
    stats_run_h_abs [of w xs]
  by (auto dest: number_stats_within)

theorem float_collection_keeps_bounds_witness:
  "list_all (\<lambda>s. no_nan s \<and> within_bounds s) (stats (stats_run
     \<lparr>component_type = STAT,
      stats = [\<lparr>component_type = STAT, name = ''hp'', base_value = Finite 50,
                current_value = Finite 10, min_value = Some (Finite 0),
                max_value = Some (Finite 100), description = ''''\<rparr>],
      max_stats = None\<rparr>
     [ModifyStat ''hp'' (Finite (1 / 10)),
      AddStat ''mp'' (Finite 5) None (Some (Finite 0)) (Some PosInf) '''' False,
      SetStatBase ''mp'' PosInf, ModifyStat ''mp'' (Finite (2 ^ 1023)), ResetAll]))"
  using float_collection_keeps_bounds [where sc =
     "\<lparr>component_type = STAT,
      stats = [\<lparr>component_type = STAT, name = ''hp'', base_value = Finite 50,
                current_value = Finite 10, min_value = Some (Finite 0),
                max_value = Some (Finite 100), description = ''''\<rparr>],
      max_stats = None\<rparr>"
    and xs = "[ModifyStat ''hp'' (Finite (1 / 10)),
      AddStat ''mp'' (Finite 5) None (Some (Finite 0)) (Some PosInf) '''' False,
      SetStatBase ''mp'' PosInf, ModifyStat ''mp'' (Finite (2 ^ 1023)), ResetAll]"]
  by (simp add: number_call_def number_stats_def number_stat_def no_nan_def is_finite_def
      StatComponent_init_def validate_base_value_def validate_current_value_def bounds_ok_def
      stat_inv_def in_bounds_def below_min_def above_max_def less_eq_pyfloat_iff)

end
