(* ===== verification/AW_InventoryHeap.thy ===== *)
theory AW_InventoryHeap
  imports AW_Heap AW_Bag
begin

text \<open>
  \<^verbatim>\<open>InventoryCellComponent\<close> and \<^verbatim>\<open>InventoryComponent\<close> over the store. The field \<^verbatim>\<open>cells\<close>
  is a list of references to cells; the loops of \<^verbatim>\<open>add_item\<close>, \<^verbatim>\<open>remove_item\<close> and
  \<^verbatim>\<open>clear_all\<close> visit the references in order and call a method of the object behind each,
  and a cell that \<^verbatim>\<open>add_item\<close> creates is a new object whose reference is appended.
  \<^verbatim>\<open>add_items\<close> and \<^verbatim>\<open>remove_items\<close> build the new state of the cell in a copy, made by
  \<^verbatim>\<open>model_copy\<close>, and write its fields back to the cell; the copy stays in the store.

  The theory shows that the inventory of \<open>AW_Inventory\<close>, with the values of the cells in
  place of the references, is this class while the inventory owns its cells: every call
  returns the same result and leaves the same values, the two loops of \<^verbatim>\<open>add_item\<close> end
  together, and the list stays owned. The last section has an inventory that holds one
  cell twice: its count has the cell twice, and \<^verbatim>\<open>add_item\<close> returns less than the count
  grows by.
\<close>

section \<open>A cell behind a reference\<close>

text \<open>
  \<^verbatim>\<open>self.model_copy(update=...)\<close> makes a new object with the fields of \<open>self\<close> and the given
  ones in place of the old; \<^verbatim>\<open>self.__dict__.update(updated.__dict__)\<close> writes the fields of
  the copy to \<open>self\<close>.
\<close>

definition model_copy :: "('o \<Rightarrow> 'o) \<Rightarrow> addr \<Rightarrow> 'o heap \<Rightarrow> addr \<times> 'o heap" where
  "model_copy update self h = alloc (update (deref h self)) h"

definition dict_update :: "addr \<Rightarrow> addr \<Rightarrow> 'o heap \<Rightarrow> 'o heap" where
  "dict_update self updated h = put self (deref h updated) h"

definition add_items_h :: "string \<Rightarrow> int \<Rightarrow> addr \<Rightarrow> cell heap \<Rightarrow> int \<times> cell heap" where
  "add_items_h iid add_quantity self h =
     (if add_quantity \<le> 0 then (0, h)
      else if \<not> is_empty (deref h self) \<and> item_id (deref h self) \<noteq> Some iid then (0, h)
      else
        (let available_space = max_stack_size (deref h self) - quantity (deref h self);
             actual_add = min add_quantity available_space;
             new_quantity = quantity (deref h self) + actual_add
         in case model_copy (\<lambda>c. c\<lparr>item_id := Some iid, quantity := new_quantity\<rparr>) self h of
              (updated, h') \<Rightarrow> (actual_add, dict_update self updated h')))"

definition remove_items_h :: "int \<Rightarrow> addr \<Rightarrow> cell heap \<Rightarrow> int \<times> cell heap" where
  "remove_items_h remove_quantity self h =
     (if remove_quantity \<le> 0 \<or> is_empty (deref h self) then (0, h)
      else
        (let actual_remove = min remove_quantity (quantity (deref h self));
             new_quantity = quantity (deref h self) - actual_remove
         in case model_copy
                (\<lambda>c. if new_quantity = 0 then c\<lparr>quantity := new_quantity, item_id := None\<rparr>
                      else c\<lparr>quantity := new_quantity\<rparr>) self h of
              (updated, h') \<Rightarrow> (actual_remove, dict_update self updated h')))"

text \<open>
  \<^verbatim>\<open>clear_slot\<close> assigns to two fields of the object, one after the other. Neither
  assignment raises, whatever the cell (\<open>clear_slot_eq\<close>), so the two branches for an
  exception are never taken; they hand on the store as the assignments before left it.
\<close>

definition clear_slot_h :: "addr \<Rightarrow> cell heap \<Rightarrow> int result \<times> cell heap" where
  "clear_slot_h self h =
     (let previous_quantity = quantity (deref h self)
      in case assign_quantity 0 (deref h self) of
           Inl e \<Rightarrow> (Inl e, h)
         | Inr c \<Rightarrow>
             (case assign_item_id None c of
                Inl e \<Rightarrow> (Inl e, put self c h)
              | Inr c' \<Rightarrow> (Inr previous_quantity, put self c' h)))"

section \<open>The inventory\<close>

record InventoryComponent_h = ComponentModel +
  cells_h :: "addr list"
  max_cells_h :: int
  default_max_stack_size_h :: int

type_synonym inventory_state = "InventoryComponent_h \<times> cell heap"

text \<open>The values behind the references: the inventory of \<open>AW_Inventory\<close>.\<close>

definition abs_inventory :: "inventory_state \<Rightarrow> inventory" where
  "abs_inventory w =
     \<lparr>component_type = component_type (fst w), cells = derefs (snd w) (cells_h (fst w)),
      max_cells = max_cells_h (fst w),
      default_max_stack_size = default_max_stack_size_h (fst w)\<rparr>"

definition inventory_owned :: "inventory_state \<Rightarrow> bool" where
  "inventory_owned w \<longleftrightarrow> owned (snd w) (cells_h (fst w))"

definition validate_cells_count_h :: "InventoryComponent_h \<Rightarrow> InventoryComponent_h" where
  "validate_cells_count_h iv =
     (if int (length (cells_h iv)) > max_cells_h iv
      then iv\<lparr>cells_h := py_slice_to (max_cells_h iv) (cells_h iv)\<rparr>
      else iv)"

definition InventoryComponent_init_h ::
  "addr list \<Rightarrow> int option \<Rightarrow> int option \<Rightarrow> InventoryComponent_h result" where
  "InventoryComponent_init_h cs mc dmss =
     bind_result (case mc of None \<Rightarrow> Inr 10 | Some m \<Rightarrow> check_ge ''max_cells'' 1 m)
       (\<lambda>mc'. bind_result
          (case dmss of None \<Rightarrow> Inr 1 | Some d \<Rightarrow> check_ge ''default_max_stack_size'' 1 d)
          (\<lambda>dmss'. Inr (validate_cells_count_h
             \<lparr>component_type = INVENTORY, cells_h = cs, max_cells_h = mc',
              default_max_stack_size_h = dmss'\<rparr>)))"

definition assign_cells_h :: "addr list \<Rightarrow> InventoryComponent_h \<Rightarrow> InventoryComponent_h" where
  "assign_cells_h cs iv = validate_cells_count_h (iv\<lparr>cells_h := cs\<rparr>)"

section \<open>The shape of the passes\<close>

text \<open>
  The first loop of \<^verbatim>\<open>add_item\<close> and the loop of \<^verbatim>\<open>remove_item\<close> have one shape: visit the
  cells in order, call a method with the remaining number on every cell that holds the
  item, take what it returns from the remaining number and stop when nothing remains.
  \<open>visit\<close> is that loop over values and \<open>visit_h\<close> over references, for any test and
  method.
\<close>

fun visit :: "('o \<Rightarrow> bool) \<Rightarrow> (int \<Rightarrow> 'o \<Rightarrow> int \<times> 'o) \<Rightarrow> int \<Rightarrow> 'o list \<Rightarrow> int \<times> 'o list" where
  "visit P m remaining [] = (remaining, [])"
| "visit P m remaining (c # cs) =
     (if P c then
        (let remaining' = remaining - fst (m remaining c); c' = snd (m remaining c)
         in if remaining' \<le> 0 then (remaining', c' # cs)
            else (fst (visit P m remaining' cs), c' # snd (visit P m remaining' cs)))
      else (fst (visit P m remaining cs), c # snd (visit P m remaining cs)))"

fun visit_h ::
  "('o \<Rightarrow> bool) \<Rightarrow> (int \<Rightarrow> addr \<Rightarrow> 'o heap \<Rightarrow> int \<times> 'o heap) \<Rightarrow> int \<Rightarrow> addr list \<Rightarrow> 'o heap
     \<Rightarrow> int \<times> 'o heap" where
  "visit_h P m remaining [] h = (remaining, h)"
| "visit_h P m remaining (cell # cs) h =
     (if P (deref h cell) then
        (let remaining' = remaining - fst (m remaining cell h); h' = snd (m remaining cell h)
         in if remaining' \<le> 0 then (remaining', h') else visit_h P m remaining' cs h')
      else visit_h P m remaining cs h)"

section \<open>add_item\<close>

fun add_to_matching_h :: "string \<Rightarrow> int \<Rightarrow> addr list \<Rightarrow> cell heap \<Rightarrow> int \<times> cell heap" where
  "add_to_matching_h iid remaining [] h = (remaining, h)"
| "add_to_matching_h iid remaining (cell # cs) h =
     (if \<not> is_empty (deref h cell) \<and> item_id (deref h cell) = Some iid then
        (case add_items_h iid remaining cell h of
           (added, h') \<Rightarrow>
             (let remaining' = remaining - added
              in if remaining' \<le> 0 then (remaining', h')
                 else add_to_matching_h iid remaining' cs h'))
      else add_to_matching_h iid remaining cs h)"

datatype loop_step_h = Continue_h int inventory_state | Break_h | Raise_h error

definition add_to_empty_step_h ::
  "string \<Rightarrow> int option \<Rightarrow> int \<Rightarrow> InventoryComponent_h \<Rightarrow> cell heap \<Rightarrow> loop_step_h" where
  "add_to_empty_step_h iid mss remaining iv h =
     (case find (\<lambda>cell. is_empty (deref h cell)) (cells_h iv) of
        Some cell \<Rightarrow>
          (case add_items_h iid remaining cell h of
             (added, h') \<Rightarrow> Continue_h (remaining - added) (iv, h'))
      | None \<Rightarrow>
          if int (length (cells_h iv)) < max_cells_h iv then
            (let stack_size = (case mss of Some m \<Rightarrow> m | None \<Rightarrow> default_max_stack_size_h iv)
             in case InventoryCellComponent_init None None (Some stack_size) None None of
                  Inl e \<Rightarrow> Raise_h e
                | Inr c \<Rightarrow>
                    (case alloc c h of
                       (new_cell, h1) \<Rightarrow>
                         (case add_items_h iid remaining new_cell h1 of
                            (added, h2) \<Rightarrow>
                              Continue_h (remaining - added)
                                (iv\<lparr>cells_h := cells_h iv @ [new_cell]\<rparr>, h2))))
          else Break_h)"

partial_function (option) add_to_empty_h ::
  "string \<Rightarrow> int option \<Rightarrow> int \<Rightarrow> InventoryComponent_h \<Rightarrow> cell heap
     \<Rightarrow> (error option \<times> int \<times> inventory_state) option" where
  "add_to_empty_h iid mss remaining iv h =
     (if remaining > 0 then
        (case add_to_empty_step_h iid mss remaining iv h of
           Continue_h remaining' w \<Rightarrow> add_to_empty_h iid mss remaining' (fst w) (snd w)
         | Break_h \<Rightarrow> Some (None, remaining, iv, h)
         | Raise_h e \<Rightarrow> Some (Some e, remaining, iv, h))
      else Some (None, remaining, iv, h))"

declare add_to_empty_h.simps [code]

definition add_item_h ::
  "string \<Rightarrow> int \<Rightarrow> int option \<Rightarrow> InventoryComponent_h \<Rightarrow> cell heap
     \<Rightarrow> (int result \<times> inventory_state) option" where
  "add_item_h iid qty mss iv h =
     (if qty \<le> 0 then Some (Inr 0, iv, h)
      else
        (case add_to_matching_h iid qty (cells_h iv) h of
           (remaining, h') \<Rightarrow>
             if remaining \<le> 0 then Some (Inr qty, iv, h')
             else
               (case add_to_empty_h iid mss remaining iv h' of
                  None \<Rightarrow> None
                | Some (Some e, remaining', w) \<Rightarrow> Some (Inl e, w)
                | Some (None, remaining', w) \<Rightarrow> Some (Inr (qty - remaining'), w))))"

section \<open>remove_item, the counts and clear_all\<close>

fun remove_from_matching_h :: "string \<Rightarrow> int \<Rightarrow> addr list \<Rightarrow> cell heap \<Rightarrow> int \<times> cell heap" where
  "remove_from_matching_h iid remaining [] h = (remaining, h)"
| "remove_from_matching_h iid remaining (cell # cs) h =
     (if \<not> is_empty (deref h cell) \<and> item_id (deref h cell) = Some iid then
        (case remove_items_h remaining cell h of
           (removed, h') \<Rightarrow>
             (let remaining' = remaining - removed
              in if remaining' \<le> 0 then (remaining', h')
                 else remove_from_matching_h iid remaining' cs h'))
      else remove_from_matching_h iid remaining cs h)"

definition remove_item_h ::
  "string \<Rightarrow> int \<Rightarrow> InventoryComponent_h \<Rightarrow> cell heap \<Rightarrow> int \<times> cell heap" where
  "remove_item_h iid qty iv h =
     (if qty \<le> 0 then (0, h)
      else
        (case remove_from_matching_h iid qty (cells_h iv) h of
           (remaining, h') \<Rightarrow>
             if remaining \<le> 0 then (qty, h') else (qty - remaining, h')))"

text \<open>The methods that read: the loop over the references sees the values.\<close>

definition has_item_h :: "string \<Rightarrow> int \<Rightarrow> InventoryComponent_h \<Rightarrow> cell heap \<Rightarrow> bool" where
  "has_item_h iid qty iv h =
     (if qty \<le> 0 then True else has_from iid qty 0 (derefs h (cells_h iv)))"

definition get_item_count_h :: "string \<Rightarrow> InventoryComponent_h \<Rightarrow> cell heap \<Rightarrow> int" where
  "get_item_count_h iid iv h = item_count iid (derefs h (cells_h iv))"

definition get_empty_cells_count_h :: "InventoryComponent_h \<Rightarrow> cell heap \<Rightarrow> int" where
  "get_empty_cells_count_h iv h = int (length (filter (\<lambda>cell. is_empty (deref h cell)) (cells_h iv)))"

definition is_full_inventory_h :: "InventoryComponent_h \<Rightarrow> cell heap \<Rightarrow> bool" where
  "is_full_inventory_h iv h =
     (if int (length (cells_h iv)) < max_cells_h iv then False
      else list_all (\<lambda>cell. is_full (deref h cell)) (cells_h iv))"

fun clear_cells_h :: "addr list \<Rightarrow> cell heap \<Rightarrow> error option \<times> cell heap" where
  "clear_cells_h [] h = (None, h)"
| "clear_cells_h (cell # cs) h =
     (case clear_slot_h cell h of
        (Inl e, h') \<Rightarrow> (Some e, h')
      | (Inr n, h') \<Rightarrow> clear_cells_h cs h')"

definition clear_all_h :: "InventoryComponent_h \<Rightarrow> cell heap \<Rightarrow> error option \<times> cell heap" where
  "clear_all_h iv h = clear_cells_h (cells_h iv) h"

section \<open>Sequences of calls\<close>

inductive inventory_step_h :: "inventory_state \<Rightarrow> inventory_op \<Rightarrow> inventory_state \<Rightarrow> bool" where
  add_h: "add_item_h iid qty mss iv h = Some (r, w') \<Longrightarrow> inventory_step_h (iv, h) (AddItem iid qty mss) w'"
| remove_h: "remove_item_h iid qty iv h = (n, h') \<Longrightarrow> inventory_step_h (iv, h) (RemoveItem iid qty) (iv, h')"
| clear_h: "clear_all_h iv h = (None, h') \<Longrightarrow> inventory_step_h (iv, h) ClearAll (iv, h')"

inductive_cases inventory_step_hE [elim!]:
  "inventory_step_h w (AddItem iid qty mss) w'"
  "inventory_step_h w (RemoveItem iid qty) w'"
  "inventory_step_h w ClearAll w'"

inductive inventory_steps_h :: "inventory_state \<Rightarrow> inventory_op list \<Rightarrow> inventory_state \<Rightarrow> bool" where
  done_h: "inventory_steps_h w [] w"
| more_h: "inventory_step_h w x w' \<Longrightarrow> inventory_steps_h w' xs w'' \<Longrightarrow> inventory_steps_h w (x # xs) w''"

text \<open>The result of a round of the loop, read as a result on values.\<close>

fun abs_step :: "loop_step_h \<Rightarrow> loop_step" where
  "abs_step (Continue_h r w) = Continue r (abs_inventory w)"
| "abs_step Break_h = Break"
| "abs_step (Raise_h e) = Raise e"

fun abs_exit :: "error option \<times> int \<times> inventory_state \<Rightarrow> error option \<times> int \<times> inventory" where
  "abs_exit (e, r, w) = (e, r, abs_inventory w)"


section \<open>A cell behind a reference and its value\<close>

lemma add_items_h_effect:
  assumes "self < length h"
  shows "fst (add_items_h iid n self h) = fst (add_items iid n (deref h self))"
    and "deref (snd (add_items_h iid n self h)) self = snd (add_items iid n (deref h self))"
    and "frame [self] h (snd (add_items_h iid n self h))"
  using assms
  by (simp_all add: add_items_h_def add_items_def model_copy_def dict_update_def alloc_def
      Let_def deref_put deref_append frame_iff)

lemma remove_items_h_effect:
  assumes "self < length h"
  shows "fst (remove_items_h n self h) = fst (remove_items n (deref h self))"
    and "deref (snd (remove_items_h n self h)) self = snd (remove_items n (deref h self))"
    and "frame [self] h (snd (remove_items_h n self h))"
  using assms
  by (simp_all add: remove_items_h_def remove_items_def model_copy_def dict_update_def alloc_def
      Let_def deref_put deref_append frame_iff)

lemma clear_slot_h_effect:
  assumes "self < length h"
  shows "clear_slot (deref h self) =
      Inr (quantity (deref h self), deref (snd (clear_slot_h self h)) self)"
    and "fst (clear_slot_h self h) = Inr (quantity (deref h self))"
    and "frame [self] h (snd (clear_slot_h self h))"
  using assms
  by (simp_all add: clear_slot_h_def clear_slot_def assign_quantity_def assign_item_id_def
      validate_quantity_def validate_item_id_and_quantity_def bind_result_def check_ge_def
      Let_def)

section \<open>Reading\<close>

lemma abs_inventory_sel [simp]:
  "component_type (abs_inventory (iv, h)) = component_type iv"
  "cells (abs_inventory (iv, h)) = derefs h (cells_h iv)"
  "max_cells (abs_inventory (iv, h)) = max_cells_h iv"
  "default_max_stack_size (abs_inventory (iv, h)) = default_max_stack_size_h iv"
  by (simp_all add: abs_inventory_def)

lemma abs_inventory_update [simp]:
  "abs_inventory (iv\<lparr>cells_h := cs\<rparr>, h) = (abs_inventory (iv, h))\<lparr>cells := derefs h cs\<rparr>"
  by (simp add: abs_inventory_def)

lemma abs_inventory_record [simp]:
  "abs_inventory (\<lparr>component_type = t, cells_h = cs, max_cells_h = m,
      default_max_stack_size_h = d\<rparr>, h) =
     \<lparr>component_type = t, cells = derefs h cs, max_cells = m, default_max_stack_size = d\<rparr>"
  by (simp add: abs_inventory_def)

lemma abs_inventory_cells:
  "derefs h' (cells_h iv) = cs \<Longrightarrow> abs_inventory (iv, h') = (abs_inventory (iv, h))\<lparr>cells := cs\<rparr>"
  by (simp add: abs_inventory_def)

lemma inventory_owned_iff [simp]: "inventory_owned (iv, h) \<longleftrightarrow> owned h (cells_h iv)"
  by (simp add: inventory_owned_def)

lemma reads_abs:
  "has_item_h iid qty iv h = has_item iid qty (abs_inventory (iv, h))"
  "get_item_count_h iid iv h = get_item_count iid (abs_inventory (iv, h))"
  "get_empty_cells_count_h iv h = get_empty_cells_count (abs_inventory (iv, h))"
  "is_full_inventory_h iv h = is_full_inventory (abs_inventory (iv, h))"
  by (simp_all add: has_item_h_def has_item_def get_item_count_h_def get_item_count_def
      get_empty_cells_count_h_def get_empty_cells_count_def is_full_inventory_h_def
      is_full_inventory_def derefs_def filter_map comp_def list_all_iff)

lemma validate_cells_count_h_abs:
  "abs_inventory (validate_cells_count_h iv, h) = validate_cells_count (abs_inventory (iv, h))"
  by (simp add: validate_cells_count_h_def validate_cells_count_def derefs_py_slice_to)

lemma InventoryComponent_init_h_abs:
  "map_sum id (\<lambda>iv. abs_inventory (iv, h)) (InventoryComponent_init_h cs mc dmss) =
     InventoryComponent_init (derefs h cs) mc dmss"
  by (cases mc; cases dmss)
    (simp_all add: InventoryComponent_init_h_def InventoryComponent_init_def bind_result_def
      check_ge_def validate_cells_count_h_abs)

lemma assign_cells_h_abs:
  "abs_inventory (assign_cells_h cs iv, h) = assign_cells (derefs h cs) (abs_inventory (iv, h))"
  by (simp add: assign_cells_h_def assign_cells_def validate_cells_count_h_abs)


section \<open>The loops over the cells\<close>

text \<open>
  What a loop knows after the call on the first cell of an owned list: the other cells
  have their values, and they are still owned.
\<close>

lemma visited:
  assumes "owned h (a # as)" and "frame [a] h h1"
  shows "owned h1 as" and "derefs h1 as = derefs h as" and "a \<notin> set as" and "a < length h1"
proof -
  from assms(1) have a: "a \<notin> set as" "a < length h" and as: "owned h as"
    by simp_all
  from assms(2) as show "owned h1 as"
    by (rule frame_owned)
  from assms(2) as a show "derefs h1 as = derefs h as"
    by (intro frame_derefs [of "[a]"]) (simp_all add: owned_live)
  from a assms(2) show "a \<notin> set as" and "a < length h1"
    by (auto dest: frame_length)
qed

lemma cons_frame:
  assumes "frame [a] h h1" and "frame as h1 h2"
  shows "frame (a # as) h h2"
  using assms by (rule frame_trans) auto

text \<open>
  A method on references implements a method on values: it returns the same number, leaves
  the value after the call behind the reference, and writes to no other object.
\<close>

lemma visit_h_abs:
  assumes impl: "\<And>rem a h. a < length h \<Longrightarrow>
      fst (m_h rem a h) = fst (m rem (deref h a)) \<and>
      deref (snd (m_h rem a h)) a = snd (m rem (deref h a)) \<and> frame [a] h (snd (m_h rem a h))"
    and own: "owned h as"
  shows "fst (visit_h P m_h rem as h) = fst (visit P m rem (derefs h as)) \<and>
    derefs (snd (visit_h P m_h rem as h)) as = snd (visit P m rem (derefs h as)) \<and>
    frame as h (snd (visit_h P m_h rem as h))"
  using own
proof (induction as arbitrary: h rem)
  case (Cons a as)
  then have a: "a < length h" "a \<notin> set as" and as: "owned h as"
    by simp_all
  show ?case
  proof (cases "P (deref h a)")
    case False
    from Cons.IH [OF as, of rem] a have "deref (snd (visit_h P m_h rem as h)) a = deref h a"
      by (auto dest: frame_deref)
    with False Cons.IH [OF as, of rem] show ?thesis
      by (auto intro: frame_mono)
  next
    case True
    let ?h1 = "snd (m_h rem a h)"
    let ?r = "rem - fst (m rem (deref h a))"
    from impl [OF a(1), of rem] have eff: "fst (m_h rem a h) = fst (m rem (deref h a))"
      "deref ?h1 a = snd (m rem (deref h a))" "frame [a] h ?h1"
      by simp_all
    note v = visited [OF Cons.prems eff(3)]
    note ih = Cons.IH [OF v(1), of ?r]
    from ih v(3,4) eff(2) have "deref (snd (visit_h P m_h ?r as ?h1)) a = snd (m rem (deref h a))"
      by (auto dest: frame_deref)
    moreover from eff(3) ih have "frame (a # as) h (snd (visit_h P m_h ?r as ?h1))"
      by (auto intro: cons_frame)
    moreover from eff(3) have "frame (a # as) h ?h1"
      by (auto intro: frame_mono)
    ultimately show ?thesis
      using True eff(1,2) ih v(2) by (simp add: Let_def)
  qed
qed simp

lemma passes_visit:
  "add_to_matching iid rem cs = visit (holds iid) (add_items iid) rem cs"
  "remove_from_matching iid rem cs = visit (holds iid) (\<lambda>n. remove_items n) rem cs"
  by (induction cs arbitrary: rem)
    (simp_all add: add_to_matching_Cons remove_from_matching_Cons Let_def)

lemma passes_h_visit:
  "add_to_matching_h iid rem as h = visit_h (holds iid) (add_items_h iid) rem as h"
  "remove_from_matching_h iid rem as h = visit_h (holds iid) (\<lambda>n. remove_items_h n) rem as h"
  by (induction as arbitrary: rem h) (simp_all add: holds_def Let_def split: prod.splits)

lemma add_to_matching_h_Cons:
  "add_to_matching_h iid rem (a # as) h =
     (if holds iid (deref h a) then
        (let r = rem - fst (add_items_h iid rem a h); h1 = snd (add_items_h iid rem a h)
         in if r \<le> 0 then (r, h1) else add_to_matching_h iid r as h1)
      else add_to_matching_h iid rem as h)"
  by (simp add: holds_def Let_def split: prod.splits)

lemma add_to_matching_h_abs:
  assumes "owned h as"
  shows "fst (add_to_matching_h iid rem as h) = fst (add_to_matching iid rem (derefs h as)) \<and>
    derefs (snd (add_to_matching_h iid rem as h)) as =
      snd (add_to_matching iid rem (derefs h as)) \<and>
    frame as h (snd (add_to_matching_h iid rem as h))"
  unfolding passes_visit passes_h_visit using _ assms
  by (rule visit_h_abs) (simp add: add_items_h_effect)

lemma remove_from_matching_h_abs:
  assumes "owned h as"
  shows "fst (remove_from_matching_h iid rem as h) =
      fst (remove_from_matching iid rem (derefs h as)) \<and>
    derefs (snd (remove_from_matching_h iid rem as h)) as =
      snd (remove_from_matching iid rem (derefs h as)) \<and>
    frame as h (snd (remove_from_matching_h iid rem as h))"
  unfolding passes_visit passes_h_visit using _ assms
  by (rule visit_h_abs) (simp add: remove_items_h_effect)

lemma clear_cells_h_abs:
  assumes "owned h as"
  shows "fst (clear_cells_h as h) = None \<and>
    clear_cells (derefs h as) = Inr (derefs (snd (clear_cells_h as h)) as) \<and>
    frame as h (snd (clear_cells_h as h))"
  using assms
proof (induction as arbitrary: h)
  case (Cons a as)
  then have a: "a < length h"
    by simp
  let ?h1 = "snd (clear_slot_h a h)"
  note eff = clear_slot_h_effect [OF a]
  note v = visited [OF Cons.prems eff(3)]
  note ih = Cons.IH [OF v(1)]
  from ih v(3,4) have "deref (snd (clear_cells_h as ?h1)) a = deref ?h1 a"
    by (auto dest: frame_deref)
  moreover from eff(3) ih have "frame (a # as) h (snd (clear_cells_h as ?h1))"
    by (auto intro: cons_frame)
  ultimately show ?case
    using eff(1,2) ih v(2)
    by (cases "clear_slot_h a h") (simp add: bind_result_def)
qed simp


section \<open>A round of the second loop\<close>

lemma step_h_found:
  assumes own: "owned h (cells_h iv)"
    and i: "first_index (\<lambda>cell. is_empty (deref h cell)) (cells_h iv) = Some i"
  shows "add_to_empty_step_h iid mss rem iv h =
      Continue_h (rem - fst (add_items iid rem (derefs h (cells_h iv) ! i)))
        (iv, snd (add_items_h iid rem (cells_h iv ! i) h))"
    and "derefs (snd (add_items_h iid rem (cells_h iv ! i) h)) (cells_h iv) =
      (derefs h (cells_h iv))[i := snd (add_items iid rem (derefs h (cells_h iv) ! i))]"
    and "frame (cells_h iv) h (snd (add_items_h iid rem (cells_h iv ! i) h))"
proof -
  from i have len: "i < length (cells_h iv)"
    by (auto dest: first_index_SomeD)
  with own have a: "cells_h iv ! i < length h"
    by (auto simp: owned_def live_iff)
  note eff = add_items_h_effect [OF a, of iid rem]
  from i have "find (\<lambda>cell. is_empty (deref h cell)) (cells_h iv) = Some (cells_h iv ! i)"
    by (simp add: find_first_index)
  with len eff(1) show "add_to_empty_step_h iid mss rem iv h =
      Continue_h (rem - fst (add_items iid rem (derefs h (cells_h iv) ! i)))
        (iv, snd (add_items_h iid rem (cells_h iv ! i) h))"
    by (simp add: add_to_empty_step_h_def case_prod_unfold)
  from own len eff(3,2) show "derefs (snd (add_items_h iid rem (cells_h iv ! i) h)) (cells_h iv) =
      (derefs h (cells_h iv))[i := snd (add_items iid rem (derefs h (cells_h iv) ! i))]"
    by (intro frame_derefs_nth) simp_all
  from eff(3) len show "frame (cells_h iv) h (snd (add_items_h iid rem (cells_h iv ! i) h))"
    by (auto intro: frame_mono)
qed

lemma step_h_new:
  assumes own: "owned h (cells_h iv)"
    and none: "first_index (\<lambda>cell. is_empty (deref h cell)) (cells_h iv) = None"
    and room: "int (length (cells_h iv)) < max_cells_h iv"
    and c: "InventoryCellComponent_init None None
        (Some (case mss of Some m \<Rightarrow> m | None \<Rightarrow> default_max_stack_size_h iv)) None None = Inr c"
  shows "add_to_empty_step_h iid mss rem iv h =
      Continue_h (rem - fst (add_items iid rem c))
        (iv\<lparr>cells_h := cells_h iv @ [length h]\<rparr>, snd (add_items_h iid rem (length h) (h @ [c])))"
    and "derefs (snd (add_items_h iid rem (length h) (h @ [c]))) (cells_h iv @ [length h]) =
      derefs h (cells_h iv) @ [snd (add_items iid rem c)]"
    and "owned (snd (add_items_h iid rem (length h) (h @ [c]))) (cells_h iv @ [length h])"
    and "frame [] h (snd (add_items_h iid rem (length h) (h @ [c])))"
proof -
  let ?h2 = "snd (add_items_h iid rem (length h) (h @ [c]))"
  have new: "length h < length (h @ [c])"
    by simp
  note eff = add_items_h_effect [OF new, of iid rem]
  from own have fresh: "length h \<notin> set (cells_h iv)" and live: "live h (cells_h iv)"
    by (auto simp: owned_def dest: live_fresh)
  from none have "find (\<lambda>cell. is_empty (deref h cell)) (cells_h iv) = None"
    by (simp add: find_first_index)
  with room c eff(1) show "add_to_empty_step_h iid mss rem iv h =
      Continue_h (rem - fst (add_items iid rem c)) (iv\<lparr>cells_h := cells_h iv @ [length h]\<rparr>, ?h2)"
    by (simp add: add_to_empty_step_h_def alloc_def Let_def case_prod_unfold)
  from live have "live (h @ [c]) (cells_h iv)"
    by (auto intro: live_mono)
  with eff(3) fresh have "derefs ?h2 (cells_h iv) = derefs (h @ [c]) (cells_h iv)"
    by (intro frame_derefs [of "[length h]"]) simp_all
  with live eff(2) show "derefs ?h2 (cells_h iv @ [length h]) =
      derefs h (cells_h iv) @ [snd (add_items iid rem c)]"
    by simp
  from own have "owned (h @ [c]) (cells_h iv @ [length h])"
    by (rule owned_alloc)
  with eff(3) show "owned ?h2 (cells_h iv @ [length h])"
    by (rule frame_owned)
  from eff(3) show "frame [] h ?h2"
    by (auto simp: frame_iff deref_append)
qed

lemma add_to_empty_step_h_abs:
  assumes "owned h (cells_h iv)"
  shows "abs_step (add_to_empty_step_h iid mss rem iv h) =
    add_to_empty_step iid mss rem (abs_inventory (iv, h))"
proof (cases "first_index (\<lambda>cell. is_empty (deref h cell)) (cells_h iv)")
  case (Some i)
  from step_h_found(1) [OF assms Some, of iid mss rem] step_h_found(2) [OF assms Some, of iid rem]
    Some show ?thesis
    by (simp add: add_to_empty_step_def first_index_derefs abs_inventory_def split: prod.split)
next
  case None
  let ?m = "case mss of Some m \<Rightarrow> m | None \<Rightarrow> default_max_stack_size_h iv"
  have m: "(case mss of Some m \<Rightarrow> m | None \<Rightarrow> default_max_stack_size (abs_inventory (iv, h))) = ?m"
    by (cases mss) simp_all
  show ?thesis
  proof (cases "int (length (cells_h iv)) < max_cells_h iv")
    case False
    with None show ?thesis
      by (simp add: add_to_empty_step_h_def add_to_empty_step_def find_first_index
          first_index_derefs)
  next
    case True
    show ?thesis
    proof (cases "InventoryCellComponent_init None None (Some ?m) None None")
      case (Inl e)
      with None True show ?thesis
        by (simp add: add_to_empty_step_h_def add_to_empty_step_def find_first_index
            first_index_derefs Let_def m)
    next
      case (Inr c)
      from step_h_new(1,2) [OF assms None True Inr, of iid rem] None True Inr show ?thesis
        by (simp add: add_to_empty_step_def first_index_derefs Let_def m split: prod.split)
    qed
  qed
qed

lemma add_to_empty_step_h_owned:
  assumes "owned h (cells_h iv)" and "add_to_empty_step_h iid mss rem iv h = Continue_h r w"
  shows "inventory_owned w" and "frame (cells_h iv) h (snd w)"
proof -
  have "inventory_owned w \<and> frame (cells_h iv) h (snd w)"
  proof (cases "first_index (\<lambda>cell. is_empty (deref h cell)) (cells_h iv)")
    case (Some i)
    from step_h_found(1) [OF assms(1) Some, of iid mss rem]
      step_h_found(3) [OF assms(1) Some, of iid rem] assms show ?thesis
      by (auto intro: frame_owned)
  next
    case None
    let ?m = "case mss of Some m \<Rightarrow> m | None \<Rightarrow> default_max_stack_size_h iv"
    show ?thesis
    proof (cases "int (length (cells_h iv)) < max_cells_h iv")
      case False
      with None assms(2) show ?thesis
        by (simp add: add_to_empty_step_h_def find_first_index)
    next
      case True
      show ?thesis
      proof (cases "InventoryCellComponent_init None None (Some ?m) None None")
        case (Inl e)
        with None True assms(2) show ?thesis
          by (simp add: add_to_empty_step_h_def find_first_index Let_def)
      next
        case (Inr c)
        from step_h_new(1,3,4) [OF assms(1) None True Inr, of iid rem] assms(2) show ?thesis
          by (auto intro: frame_mono)
      qed
    qed
  qed
  then show "inventory_owned w" and "frame (cells_h iv) h (snd w)"
    by simp_all
qed


section \<open>The second loop\<close>

lemma add_to_empty_h_done:
  "rem \<le> 0 \<Longrightarrow> add_to_empty_h iid mss rem iv h = Some (None, rem, iv, h)"
  by (subst add_to_empty_h.simps) simp

lemma add_to_empty_h_unfold:
  "0 < rem \<Longrightarrow> add_to_empty_h iid mss rem iv h =
     (case add_to_empty_step_h iid mss rem iv h of
        Continue_h rem' w \<Rightarrow> add_to_empty_h iid mss rem' (fst w) (snd w)
      | Break_h \<Rightarrow> Some (None, rem, iv, h)
      | Raise_h e \<Rightarrow> Some (Some e, rem, iv, h))"
  by (subst add_to_empty_h.simps) simp

lemmas add_to_empty_h_induct [consumes 1, case_names step] = add_to_empty_h.raw_induct [rotated]

text \<open>
  The loop over the store and the loop over the values end together, with the same result:
  each returns whenever the other does.
\<close>

lemma add_to_empty_h_sound:
  assumes "add_to_empty_h iid mss rem iv h = Some y" and "owned h (cells_h iv)"
  shows "add_to_empty iid mss rem (abs_inventory (iv, h)) = Some (abs_exit y) \<and>
    inventory_owned (snd (snd y))"
  using assms
proof (induction iid mss rem iv h y rule: add_to_empty_h_induct)
  case (step loop iid mss rem iv h y)
  note abs = add_to_empty_step_h_abs [OF step.prems, of iid mss rem]
  show ?case
  proof (cases "0 < rem")
    case False
    with step(2) step.prems show ?thesis
      by (auto simp: add_to_empty_done)
  next
    case True
    show ?thesis
    proof (cases "add_to_empty_step_h iid mss rem iv h")
      case (Continue_h rem1 w)
      with True step(2) have "loop iid mss rem1 (fst w) (snd w) = Some y"
        by simp
      moreover from add_to_empty_step_h_owned(1) [OF step.prems Continue_h]
      have "owned (snd w) (cells_h (fst w))"
        by (simp add: inventory_owned_def)
      ultimately have "add_to_empty iid mss rem1 (abs_inventory (fst w, snd w)) = Some (abs_exit y) \<and>
          inventory_owned (snd (snd y))"
        by (rule step(1))
      with True abs Continue_h show ?thesis
        by (simp add: add_to_empty_unfold flip: abs)
    qed (use True step(2) step.prems abs in \<open>auto simp: add_to_empty_unfold simp flip: abs\<close>)
  qed
qed

lemma add_to_empty_h_complete:
  assumes "add_to_empty iid mss rem iv0 = Some y0"
    and "owned h (cells_h iv)" and "abs_inventory (iv, h) = iv0"
  shows "\<exists>y. add_to_empty_h iid mss rem iv h = Some y \<and> abs_exit y = y0"
  using assms
proof (induction iid mss rem iv0 y0 arbitrary: iv h rule: add_to_empty_induct)
  case (step loop iid mss rem iv0 y0)
  note abs = add_to_empty_step_h_abs [OF step.prems(1), of iid mss rem, unfolded step.prems(2)]
  show ?case
  proof (cases "0 < rem")
    case False
    with step(2) step.prems show ?thesis
      by (auto simp: add_to_empty_h_done)
  next
    case True
    show ?thesis
    proof (cases "add_to_empty_step_h iid mss rem iv h")
      case (Continue_h rem1 w)
      with abs have c: "add_to_empty_step iid mss rem iv0 = Continue rem1 (abs_inventory w)"
        by simp
      with True step(2) have "loop iid mss rem1 (abs_inventory w) = Some y0"
        by simp
      moreover from add_to_empty_step_h_owned(1) [OF step.prems(1) Continue_h]
      have "owned (snd w) (cells_h (fst w))"
        by (simp add: inventory_owned_def)
      ultimately have "\<exists>y. add_to_empty_h iid mss rem1 (fst w) (snd w) = Some y \<and> abs_exit y = y0"
        by (rule step(1)) simp
      with True Continue_h show ?thesis
        by (simp add: add_to_empty_h_unfold)
    qed (use abs True step(2) step.prems(2) in \<open>auto simp: add_to_empty_h_unfold dest: sym\<close>)
  qed
qed

lemma add_to_empty_h_abs:
  assumes "owned h (cells_h iv)"
  shows "map_option abs_exit (add_to_empty_h iid mss rem iv h) =
    add_to_empty iid mss rem (abs_inventory (iv, h))"
proof (cases "add_to_empty_h iid mss rem iv h")
  case None
  show ?thesis
  proof (cases "add_to_empty iid mss rem (abs_inventory (iv, h))")
    case (Some y0)
    from add_to_empty_h_complete [OF this assms refl] None show ?thesis
      by simp
  qed (simp add: None)
next
  case (Some y)
  from add_to_empty_h_sound [OF this assms] Some show ?thesis
    by simp
qed

lemma add_to_empty_h_owned:
  "add_to_empty_h iid mss rem iv h = Some y \<Longrightarrow> owned h (cells_h iv) \<Longrightarrow>
     inventory_owned (snd (snd y))"
  by (simp add: add_to_empty_h_sound)


section \<open>The calls on the inventory\<close>

lemma first_pass_h:
  assumes "owned h (cells_h iv)"
  shows "fst (add_to_matching_h iid qty (cells_h iv) h) =
      fst (add_to_matching iid qty (cells (abs_inventory (iv, h))))"
    and "abs_inventory (iv, snd (add_to_matching_h iid qty (cells_h iv) h)) =
      (abs_inventory (iv, h))\<lparr>cells := snd (add_to_matching iid qty (cells (abs_inventory (iv, h))))\<rparr>"
    and "owned (snd (add_to_matching_h iid qty (cells_h iv) h)) (cells_h iv)"
  using add_to_matching_h_abs [OF assms, of iid qty] assms
  by (auto simp: abs_inventory_def intro: frame_owned)

lemma add_item_h_abs:
  assumes "owned h (cells_h iv)"
  shows "map_option (apsnd abs_inventory) (add_item_h iid qty mss iv h) =
    add_item iid qty mss (abs_inventory (iv, h))"
proof (cases "0 < qty")
  case False
  then show ?thesis
    by (simp add: add_item_h_def add_item_nonpositive)
next
  case True
  note p = first_pass_h [OF assms, of iid qty]
  let ?h1 = "snd (add_to_matching_h iid qty (cells_h iv) h)"
  let ?r = "fst (add_to_matching_h iid qty (cells_h iv) h)"
  have unfold: "add_item_h iid qty mss iv h =
      (if ?r \<le> 0 then Some (Inr qty, iv, ?h1)
       else (case add_to_empty_h iid mss ?r iv ?h1 of
               None \<Rightarrow> None
             | Some (Some e, remaining', w) \<Rightarrow> Some (Inl e, w)
             | Some (None, remaining', w) \<Rightarrow> Some (Inr (qty - remaining'), w)))"
    using True by (simp add: add_item_h_def case_prod_unfold)
  show ?thesis
  proof (cases "?r \<le> 0")
    case le: True
    with True p(1,2) show ?thesis
      by (simp add: unfold add_item_unfold)
  next
    case gt: False
    from add_to_empty_h_abs [OF p(3), of iid mss ?r] gt True p(1,2) show ?thesis
      by (cases "add_to_empty_h iid mss ?r iv ?h1")
        (auto simp: unfold add_item_unfold split: option.splits)
  qed
qed

lemma add_item_h_owned:
  assumes "owned h (cells_h iv)" and "add_item_h iid qty mss iv h = Some (r, w)"
  shows "inventory_owned w"
proof (cases "0 < qty")
  case False
  with assms show ?thesis
    by (auto simp: add_item_h_def)
next
  case True
  note p = first_pass_h(3) [OF assms(1), of iid qty]
  let ?h1 = "snd (add_to_matching_h iid qty (cells_h iv) h)"
  let ?r = "fst (add_to_matching_h iid qty (cells_h iv) h)"
  show ?thesis
  proof (cases "?r \<le> 0")
    case le: True
    with True assms(2) p show ?thesis
      by (auto simp: add_item_h_def case_prod_unfold)
  next
    case gt: False
    with True assms(2) obtain y where y: "add_to_empty_h iid mss ?r iv ?h1 = Some y"
      and w: "w = snd (snd y)"
      by (auto simp: add_item_h_def case_prod_unfold split: option.splits)
    from add_to_empty_h_owned [OF y p] w show ?thesis
      by simp
  qed
qed

lemma remove_item_h_abs:
  assumes "owned h (cells_h iv)"
  shows "fst (remove_item_h iid qty iv h) = fst (remove_item iid qty (abs_inventory (iv, h)))"
    and "abs_inventory (iv, snd (remove_item_h iid qty iv h)) =
      snd (remove_item iid qty (abs_inventory (iv, h)))"
    and "owned (snd (remove_item_h iid qty iv h)) (cells_h iv)"
  using remove_from_matching_h_abs [OF assms, of iid qty] assms
  by (auto simp: remove_item_h_def remove_item_def abs_inventory_def case_prod_unfold
      intro: frame_owned)

lemma clear_all_h_abs:
  assumes "owned h (cells_h iv)"
  shows "fst (clear_all_h iv h) = None"
    and "clear_all (abs_inventory (iv, h)) = Inr (abs_inventory (iv, snd (clear_all_h iv h)))"
    and "owned (snd (clear_all_h iv h)) (cells_h iv)"
  using clear_cells_h_abs [OF assms] assms
  by (auto simp: clear_all_h_def clear_all_def abs_inventory_def bind_result_def
      intro: frame_owned)

section \<open>One call and a sequence of calls\<close>

lemma inventory_step_h_sound:
  assumes "inventory_step_h w x w'" and "inventory_owned w"
  shows "inventory_step (abs_inventory w) x (abs_inventory w') \<and> inventory_owned w'"
  using assms
proof (induction rule: inventory_step_h.induct)
  case (add_h iid qty mss iv h r w')
  then have own: "owned h (cells_h iv)"
    by simp
  from add_item_h_abs [OF own, of iid qty mss] add_h(1)
  have "add_item iid qty mss (abs_inventory (iv, h)) = Some (r, abs_inventory w')"
    by simp
  with add_item_h_owned [OF own add_h(1)] show ?case
    by (auto intro: inventory_step.add)
next
  case (remove_h iid qty iv h n h')
  then have own: "owned h (cells_h iv)"
    by simp
  from remove_item_h_abs [OF own, of iid qty] remove_h(1) show ?case
    by (auto intro!: inventory_step.remove [where n = n] simp: prod_eq_iff)
next
  case (clear_h iv h h')
  then have own: "owned h (cells_h iv)"
    by simp
  from clear_all_h_abs [OF own] clear_h(1) show ?case
    by (auto intro!: inventory_step.clear)
qed

lemma inventory_step_h_complete:
  assumes "inventory_step (abs_inventory (iv, h)) x iv'" and own: "owned h (cells_h iv)"
  shows "\<exists>w'. inventory_step_h (iv, h) x w' \<and> abs_inventory w' = iv'"
  using assms(1)
proof (cases rule: inventory_step.cases)
  case (add iid qty mss r)
  with add_item_h_abs [OF own, of iid qty mss]
  obtain w' where "add_item_h iid qty mss iv h = Some (r, w')" and "abs_inventory w' = iv'"
    by (cases "add_item_h iid qty mss iv h") auto
  with add show ?thesis
    by (blast intro: inventory_step_h.add_h)
next
  case (remove iid qty n)
  have "inventory_step_h (iv, h) (RemoveItem iid qty) (iv, snd (remove_item_h iid qty iv h))"
    by (rule inventory_step_h.remove_h [where n = "fst (remove_item_h iid qty iv h)"]) simp
  moreover from remove remove_item_h_abs(2) [OF own, of iid qty]
  have "abs_inventory (iv, snd (remove_item_h iid qty iv h)) = iv'"
    by simp
  ultimately show ?thesis
    unfolding remove(1) by (intro exI [of _ "(iv, snd (remove_item_h iid qty iv h))"] conjI)
next
  case clear
  have "inventory_step_h (iv, h) ClearAll (iv, snd (clear_all_h iv h))"
    using clear_all_h_abs(1) [OF own] by (intro inventory_step_h.clear_h) (simp add: prod_eq_iff)
  moreover from clear clear_all_h_abs(2) [OF own]
  have "abs_inventory (iv, snd (clear_all_h iv h)) = iv'"
    by simp
  ultimately show ?thesis
    unfolding clear(1) by (intro exI [of _ "(iv, snd (clear_all_h iv h))"] conjI)
qed

lemma inventory_steps_h_sound:
  assumes "inventory_steps_h w xs w'" and "inventory_owned w"
  shows "inventory_steps (abs_inventory w) xs (abs_inventory w') \<and> inventory_owned w'"
  using assms
proof (induction rule: inventory_steps_h.induct)
  case (more_h w x w' xs w'')
  from inventory_step_h_sound [OF more_h(1,4)] more_h(3) show ?case
    by (auto intro: inventory_steps.intros)
qed (auto intro: inventory_steps.intros)

lemma inventory_steps_h_complete:
  assumes "inventory_steps iv0 xs iv'" and "abs_inventory w = iv0" and "inventory_owned w"
  shows "\<exists>w'. inventory_steps_h w xs w' \<and> abs_inventory w' = iv'"
  using assms
proof (induction arbitrary: w rule: inventory_steps.induct)
  case (nil iv)
  then show ?case
    by (blast intro: inventory_steps_h.intros)
next
  case (cons iv x iv1 xs iv2)
  obtain i h where w: "w = (i, h)"
    by (cases w)
  with cons(1,4,5) inventory_step_h_complete [of i h x iv1]
  obtain w1 where s: "inventory_step_h w x w1" and a: "abs_inventory w1 = iv1"
    by auto
  from inventory_step_h_sound [OF s cons(5)] have "inventory_owned w1"
    by simp
  with cons(3) [OF a] s show ?case
    by (blast intro: inventory_steps_h.intros)
qed

section \<open>A cell that is held twice\<close>

lemma add_items_h_twice:
  assumes a: "a < length h" and c: "holds iid (deref h a)"
    and n: "0 < n" "n \<le> max_stack_size (deref h a) - quantity (deref h a)"
  shows "add_to_matching_h iid n [a, a] h = (0, snd (add_items_h iid n a h))"
    and "derefs (snd (add_items_h iid n a h)) [a, a] =
      [(deref h a)\<lparr>quantity := quantity (deref h a) + n\<rparr>,
       (deref h a)\<lparr>quantity := quantity (deref h a) + n\<rparr>]"
proof -
  from c n have "add_items iid n (deref h a) =
      (n, (deref h a)\<lparr>quantity := quantity (deref h a) + n\<rparr>)"
    by (simp add: add_items_def holds_def Let_def)
  with add_items_h_effect(1,2) [OF a, of iid n]
  have r: "fst (add_items_h iid n a h) = n"
    and v: "deref (snd (add_items_h iid n a h)) a = (deref h a)\<lparr>quantity := quantity (deref h a) + n\<rparr>"
    by simp_all
  from c r show "add_to_matching_h iid n [a, a] h = (0, snd (add_items_h iid n a h))"
    by (simp add: add_to_matching_h_Cons Let_def del: add_to_matching_h.simps)
  from v show "derefs (snd (add_items_h iid n a h)) [a, a] =
      [(deref h a)\<lparr>quantity := quantity (deref h a) + n\<rparr>,
       (deref h a)\<lparr>quantity := quantity (deref h a) + n\<rparr>]"
    by simp
qed

section \<open>Properties\<close>

text \<open>
  C15 (refinement). While an inventory owns its cells, \<^verbatim>\<open>add_item\<close> over the store and
  \<^verbatim>\<open>add_item\<close> over the values agree in everything: one returns exactly when the other
  does, with the same result and the same values of the cells; and the inventory owns its
  cells afterwards. The copies that \<^verbatim>\<open>model_copy\<close> leaves in the store and the order in
  which the two loops visit the references make no difference.
\<close>

theorem add_item_heap_agrees:
  assumes "inventory_owned (iv, h)"
  shows "map_option (apsnd abs_inventory) (add_item_h iid qty mss iv h) =
      add_item iid qty mss (abs_inventory (iv, h)) \<and>
    (\<forall>r w. add_item_h iid qty mss iv h = Some (r, w) \<longrightarrow> inventory_owned w)"
proof -
  from assms have own: "owned h (cells_h iv)"
    by simp
  then show ?thesis
    using add_item_h_owned [OF own, of iid qty mss] by (simp add: add_item_h_abs)
qed

theorem add_item_heap_agrees_witness:
  "map_option (apsnd abs_inventory)
     (add_item_h ''potion'' 7 None
        \<lparr>component_type = INVENTORY, cells_h = [1, 0], max_cells_h = 3,
         default_max_stack_size_h = 5\<rparr>
        [empty_cell 5, empty_cell 5\<lparr>item_id := Some ''potion'', quantity := 3\<rparr>]) =
   add_item ''potion'' 7 None
     (abs_inventory
        (\<lparr>component_type = INVENTORY, cells_h = [1, 0], max_cells_h = 3,
          default_max_stack_size_h = 5\<rparr>,
         [empty_cell 5, empty_cell 5\<lparr>item_id := Some ''potion'', quantity := 3\<rparr>]))"
  using add_item_heap_agrees [of
      "\<lparr>component_type = INVENTORY, cells_h = [1, 0], max_cells_h = 3,
        default_max_stack_size_h = 5\<rparr>"
      "[empty_cell 5, empty_cell 5\<lparr>item_id := Some ''potion'', quantity := 3\<rparr>]"
      "''potion''" 7 None]
  by simp

text \<open>
  Runs of calls on an inventory that owns its cells: every run over the
  store is a run over the values, between the values of its ends, and every run over the
  values from the values of a store is the image of a run over the store.
\<close>

theorem inventory_heap_refines:
  assumes "inventory_owned w"
  shows "(inventory_steps_h w xs w' \<longrightarrow>
      inventory_steps (abs_inventory w) xs (abs_inventory w') \<and> inventory_owned w') \<and>
    (inventory_steps (abs_inventory w) xs iv' \<longrightarrow>
      (\<exists>w'. inventory_steps_h w xs w' \<and> abs_inventory w' = iv'))"
  using assms inventory_steps_h_sound [of w xs w'] inventory_steps_h_complete [of _ xs iv' w]
  by blast

theorem inventory_heap_refines_witness:
  "inventory_steps_h
     (\<lparr>component_type = INVENTORY, cells_h = [0], max_cells_h = 1, default_max_stack_size_h = 5\<rparr>,
      [empty_cell 5\<lparr>item_id := Some ''potion'', quantity := 3\<rparr>])
     [RemoveItem ''potion'' 1]
     (\<lparr>component_type = INVENTORY, cells_h = [0], max_cells_h = 1, default_max_stack_size_h = 5\<rparr>,
      [empty_cell 5\<lparr>item_id := Some ''potion'', quantity := 2\<rparr>,
       empty_cell 5\<lparr>item_id := Some ''potion'', quantity := 2\<rparr>]) \<and>
   inventory_steps
     (abs_inventory
       (\<lparr>component_type = INVENTORY, cells_h = [0], max_cells_h = 1, default_max_stack_size_h = 5\<rparr>,
        [empty_cell 5\<lparr>item_id := Some ''potion'', quantity := 3\<rparr>]))
     [RemoveItem ''potion'' 1]
     (abs_inventory
       (\<lparr>component_type = INVENTORY, cells_h = [0], max_cells_h = 1, default_max_stack_size_h = 5\<rparr>,
        [empty_cell 5\<lparr>item_id := Some ''potion'', quantity := 2\<rparr>,
         empty_cell 5\<lparr>item_id := Some ''potion'', quantity := 2\<rparr>]))"
proof -
  let ?iv = "\<lparr>component_type = INVENTORY, cells_h = [0], max_cells_h = 1,
    default_max_stack_size_h = 5\<rparr>"
  let ?h = "[empty_cell 5\<lparr>item_id := Some ''potion'', quantity := 3\<rparr>]"
  let ?h' = "[empty_cell 5\<lparr>item_id := Some ''potion'', quantity := 2\<rparr>,
    empty_cell 5\<lparr>item_id := Some ''potion'', quantity := 2\<rparr>]"
  have "remove_item_h ''potion'' 1 ?iv ?h = (1, ?h')"
    by (simp add: remove_item_h_def remove_items_h_def model_copy_def dict_update_def
        alloc_def put_def deref_def is_empty_def empty_cell_def Let_def)
  then have "inventory_step_h (?iv, ?h) (RemoveItem ''potion'' 1) (?iv, ?h')"
    by (rule inventory_step_h.remove_h)
  then have s: "inventory_steps_h (?iv, ?h) [RemoveItem ''potion'' 1] (?iv, ?h')"
    by (intro inventory_steps_h.more_h [OF _ inventory_steps_h.done_h])
  have "inventory_owned (?iv, ?h)"
    by simp
  from inventory_heap_refines [OF this, of "[RemoveItem ''potion'' 1]" "(?iv, ?h')"] s
  show ?thesis
    by simp
qed

text \<open>
  C31 (safety). The constructor keeps the cells that it is given. An inventory made of one
  cell at two positions counts the items of the cell twice, and \<^verbatim>\<open>add_item\<close> with a number
  that the cell has room for returns that number while the count of the inventory grows by
  twice as much (spec 3 has the inventory own its slots, spec 8 has the count grow by what
  \<^verbatim>\<open>add_item\<close> returns).
\<close>

theorem shared_cell_counts_twice:
  assumes "a < length h" and "holds iid (deref h a)" and "0 < n"
    and "n \<le> max_stack_size (deref h a) - quantity (deref h a)"
  shows "InventoryComponent_init_h [a, a] (Some 2) None =
      Inr \<lparr>component_type = INVENTORY, cells_h = [a, a], max_cells_h = 2,
           default_max_stack_size_h = 1\<rparr> \<and>
    get_item_count_h iid \<lparr>component_type = INVENTORY, cells_h = [a, a], max_cells_h = 2,
      default_max_stack_size_h = 1\<rparr> h = 2 * quantity (deref h a) \<and>
    (\<exists>h'. add_item_h iid n None \<lparr>component_type = INVENTORY, cells_h = [a, a], max_cells_h = 2,
        default_max_stack_size_h = 1\<rparr> h =
        Some (Inr n, \<lparr>component_type = INVENTORY, cells_h = [a, a], max_cells_h = 2,
          default_max_stack_size_h = 1\<rparr>, h') \<and>
      get_item_count_h iid \<lparr>component_type = INVENTORY, cells_h = [a, a], max_cells_h = 2,
        default_max_stack_size_h = 1\<rparr> h' = 2 * quantity (deref h a) + 2 * n)"
  using assms add_items_h_twice [OF assms]
  by (simp add: InventoryComponent_init_h_def bind_result_def check_ge_def
      validate_cells_count_h_def get_item_count_h_def add_item_h_def holds_def is_empty_def
      del: add_to_matching_h.simps)

theorem shared_cell_counts_twice_witness:
  "get_item_count_h ''potion''
     \<lparr>component_type = INVENTORY, cells_h = [0, 0], max_cells_h = 2, default_max_stack_size_h = 1\<rparr>
     [empty_cell 5\<lparr>item_id := Some ''potion'', quantity := 2\<rparr>] = 4 \<and>
   (\<exists>h'. add_item_h ''potion'' 3 None
       \<lparr>component_type = INVENTORY, cells_h = [0, 0], max_cells_h = 2,
        default_max_stack_size_h = 1\<rparr>
       [empty_cell 5\<lparr>item_id := Some ''potion'', quantity := 2\<rparr>] =
       Some (Inr 3, \<lparr>component_type = INVENTORY, cells_h = [0, 0], max_cells_h = 2,
         default_max_stack_size_h = 1\<rparr>, h') \<and>
     get_item_count_h ''potion''
       \<lparr>component_type = INVENTORY, cells_h = [0, 0], max_cells_h = 2,
        default_max_stack_size_h = 1\<rparr> h' = 10)"
  using shared_cell_counts_twice [of 0
      "[empty_cell 5\<lparr>item_id := Some ''potion'', quantity := 2\<rparr>]" "''potion''" 3]
  by (simp add: deref_def holds_def is_empty_def empty_cell_def)

end
