(* ===== verification/AW_Editor.thy ===== *)
theory AW_Editor
  imports AW_Component "HOL-Library.AList"
begin

text \<open>
  The description of a component for an editor: \<^verbatim>\<open>ComponentModel.get_editor_config\<close> and
  its helpers \<^verbatim>\<open>_infer_field_type\<close>, \<^verbatim>\<open>_infer_value_type\<close> and \<^verbatim>\<open>_get_field_constraints\<close>.

  The methods read two things that the library keeps: the declared fields of the class,
  \<^verbatim>\<open>type(self).model_fields\<close>, a mapping from names to \<^verbatim>\<open>FieldInfo\<close> objects in the order of
  declaration, and the extra attributes of the object, \<^verbatim>\<open>self.model_extra\<close>. Both are
  arguments of the model. A \<^verbatim>\<open>FieldInfo\<close> is a record of what the methods look at; a type
  annotation is a term of the datatype \<open>annotation\<close>, a Python value a term of \<open>pyvalue\<close>,
  and a dictionary an association list with the order of insertion. The tables of the
  five classes are written down from their field declarations, with \<open>Field\<close> for what the
  library stores of a declaration.
\<close>

section \<open>Annotations and values\<close>

datatype annotation =
    TInt | TFloat | TStr | TBool | TList | TDict | TNone
  | ListOf annotation
  | DictOf annotation annotation
  | UnionOf "annotation list"
  | ClassOf string

text \<open>\<^verbatim>\<open>typing.get_origin\<close> and \<^verbatim>\<open>typing.get_args\<close> on the annotations above.\<close>

datatype origin = OList | ODict | OUnion

fun get_origin :: "annotation \<Rightarrow> origin option" where
  "get_origin (ListOf a) = Some OList"
| "get_origin (DictOf k v) = Some ODict"
| "get_origin (UnionOf as) = Some OUnion"
| "get_origin a = None"

fun get_args :: "annotation \<Rightarrow> annotation list" where
  "get_args (ListOf a) = [a]"
| "get_args (DictOf k v) = [k, v]"
| "get_args (UnionOf as) = as"
| "get_args a = []"

text \<open>\<^verbatim>\<open>Optional[T]\<close> is \<^verbatim>\<open>Union[T, None]\<close>.\<close>

definition OptionalOf :: "annotation \<Rightarrow> annotation" where
  "OptionalOf a = UnionOf [a, TNone]"

datatype pyvalue =
    VNone
  | VBool bool
  | VInt int
  | VFloat real
  | VStr string
  | VList "pyvalue list"
  | VDict "(string \<times> pyvalue) list"
  | VObject string

type_synonym pydict = "(string \<times> pyvalue) list"

section \<open>Field information\<close>

text \<open>
  An entry of \<^verbatim>\<open>FieldInfo.metadata\<close> is a dictionary or some other object; \<open>MetaObject c v\<close>
  is an object of class \<open>c\<close> that carries the value \<open>v\<close>, such as \<^verbatim>\<open>Ge(ge=0)\<close>.
  \<open>constraints\<close> is the attribute of that name, \<open>None\<close> when the object has none.
\<close>

datatype meta_item = MetaDict pydict | MetaObject string pyvalue

record FieldInfo =
  annotation :: annotation
  field_description :: "string option"
  is_required :: bool
  constraints :: "pydict option"
  metadata :: "meta_item list"

text \<open>
  What the library stores of a declaration \<^verbatim>\<open>name: T = Field(default, description=d, ge=b)\<close>:
  the bounds become objects in \<^verbatim>\<open>metadata\<close>, and there is no attribute \<^verbatim>\<open>constraints\<close>.
\<close>

definition Field :: "annotation \<Rightarrow> bool \<Rightarrow> string \<Rightarrow> (string \<times> pyvalue) list \<Rightarrow> FieldInfo" where
  "Field a req d bounds =
     \<lparr>annotation = a, field_description = Some d, is_required = req, constraints = None,
      metadata = map (\<lambda>(c, v). MetaObject c v) bounds\<rparr>"

section \<open>Inference of the field type\<close>

definition infer_field_type :: "FieldInfo \<Rightarrow> FieldType" where
  "infer_field_type field_info =
     (let a = annotation field_info
      in if a = TInt \<or> a = TFloat then NUMBER
         else if a = TStr then TEXT
         else if a = TBool then CHECKBOX
         else if a = TList then LIST
         else if a = TDict then OBJECT
         else
           (case get_origin a of
              Some OList \<Rightarrow> LIST
            | Some ODict \<Rightarrow> OBJECT
            | Some OUnion \<Rightarrow>
                (let args = get_args a
                 in if args \<noteq> [] then
                      (let non_none_args = filter (\<lambda>arg. arg \<noteq> TNone) args
                       in if non_none_args \<noteq> [] then
                            (let inner_annotation = hd non_none_args
                             in if inner_annotation = TInt \<or> inner_annotation = TFloat then NUMBER
                                else if inner_annotation = TStr then TEXT
                                else if inner_annotation = TBool then CHECKBOX
                                else TEXT)
                          else TEXT)
                    else TEXT)
            | None \<Rightarrow> TEXT))"

fun infer_value_type :: "pyvalue \<Rightarrow> FieldType" where
  "infer_value_type (VBool b) = CHECKBOX"
| "infer_value_type (VInt i) = NUMBER"
| "infer_value_type (VFloat x) = NUMBER"
| "infer_value_type (VStr s) = TEXT"
| "infer_value_type (VList xs) = LIST"
| "infer_value_type (VDict d) = OBJECT"
| "infer_value_type v = TEXT"

section \<open>Constraints\<close>

text \<open>\<^verbatim>\<open>if k in d: c[k'] = d[k]\<close>, and the same with the flag of a strict bound.\<close>

definition copy_key :: "string \<Rightarrow> string \<Rightarrow> pydict \<Rightarrow> pydict \<Rightarrow> pydict" where
  "copy_key k k' d c = (case map_of d k of None \<Rightarrow> c | Some v \<Rightarrow> AList.update k' v c)"

definition copy_key_strict :: "string \<Rightarrow> string \<Rightarrow> string \<Rightarrow> pydict \<Rightarrow> pydict \<Rightarrow> pydict" where
  "copy_key_strict k k' flag d c =
     (case map_of d k of
        None \<Rightarrow> c
      | Some v \<Rightarrow> AList.update flag (VBool True) (AList.update k' v c))"

definition from_constraints :: "pydict \<Rightarrow> pydict" where
  "from_constraints constraints_dict =
     (copy_key ''max_length'' ''maxLength'' constraints_dict \<circ>
      copy_key ''min_length'' ''minLength'' constraints_dict \<circ>
      copy_key_strict ''lt'' ''max'' ''exclusiveMax'' constraints_dict \<circ>
      copy_key ''le'' ''max'' constraints_dict \<circ>
      copy_key_strict ''gt'' ''min'' ''exclusiveMin'' constraints_dict \<circ>
      copy_key ''ge'' ''min'' constraints_dict) []"

definition from_meta_item :: "pydict \<Rightarrow> meta_item \<Rightarrow> pydict" where
  "from_meta_item c meta_item =
     (case meta_item of
        MetaDict d \<Rightarrow>
          (copy_key_strict ''lt'' ''max'' ''exclusiveMax'' d \<circ>
           copy_key_strict ''gt'' ''min'' ''exclusiveMin'' d \<circ>
           copy_key ''le'' ''max'' d \<circ>
           copy_key ''ge'' ''min'' d) c
      | MetaObject cls v \<Rightarrow> c)"

definition get_field_constraints :: "FieldInfo \<Rightarrow> pydict" where
  "get_field_constraints field_info =
     (let c = (case constraints field_info of
                 None \<Rightarrow> []
               | Some constraints_dict \<Rightarrow>
                   if constraints_dict \<noteq> [] then from_constraints constraints_dict else [])
      in if c = [] then foldl from_meta_item [] (metadata field_info) else c)"

section \<open>Labels\<close>

text \<open>
  \<^verbatim>\<open>field_name.replace("_", " ").title()\<close> on ASCII names: \<^verbatim>\<open>title\<close> puts the first letter of
  every run of letters in upper case and the other letters in lower case.
\<close>

definition is_upper :: "char \<Rightarrow> bool" where
  "is_upper c \<longleftrightarrow> (65 :: nat) \<le> of_char c \<and> of_char c \<le> (90 :: nat)"

definition is_lower :: "char \<Rightarrow> bool" where
  "is_lower c \<longleftrightarrow> (97 :: nat) \<le> of_char c \<and> of_char c \<le> (122 :: nat)"

definition to_upper :: "char \<Rightarrow> char" where
  "to_upper c = (if is_lower c then char_of (of_char c - (32 :: nat)) else c)"

definition to_lower :: "char \<Rightarrow> char" where
  "to_lower c = (if is_upper c then char_of (of_char c + (32 :: nat)) else c)"

fun title_from :: "bool \<Rightarrow> string \<Rightarrow> string" where
  "title_from in_word [] = []"
| "title_from in_word (c # cs) =
     (if is_upper c \<or> is_lower c
      then (if in_word then to_lower c else to_upper c) # title_from True cs
      else c # title_from False cs)"

definition label_of :: "string \<Rightarrow> string" where
  "label_of field_name =
     title_from False (map (\<lambda>c. if c = CHR ''_'' then CHR '' '' else c) field_name)"

section \<open>The configuration\<close>

record field_config =
  field_type :: FieldType
  label :: string
  config_description :: string
  config_required :: bool
  config_constraints :: pydict

definition field_entry :: "string \<Rightarrow> FieldInfo \<Rightarrow> field_config" where
  "field_entry field_name field_info =
     \<lparr>field_type = infer_field_type field_info,
      label = label_of field_name,
      config_description = (case field_description field_info of None \<Rightarrow> [] | Some d \<Rightarrow> d),
      config_required = is_required field_info,
      config_constraints = get_field_constraints field_info\<rparr>"

definition extra_entry :: "string \<Rightarrow> pyvalue \<Rightarrow> field_config" where
  "extra_entry field_name field_value =
     \<lparr>field_type = infer_value_type field_value,
      label = label_of field_name,
      config_description = ''Dynamic attribute: '' @ field_name,
      config_required = False,
      config_constraints = []\<rparr>"

definition add_field :: "(string \<times> field_config) list \<Rightarrow> string \<times> FieldInfo \<Rightarrow> (string \<times> field_config) list" where
  "add_field config nf =
     (if fst nf = ''component_type'' then config
      else AList.update (fst nf) (field_entry (fst nf) (snd nf)) config)"

definition add_extra :: "(string \<times> field_config) list \<Rightarrow> string \<times> pyvalue \<Rightarrow> (string \<times> field_config) list" where
  "add_extra config nv = AList.update (fst nv) (extra_entry (fst nv) (snd nv)) config"

definition get_editor_config ::
  "(string \<times> FieldInfo) list \<Rightarrow> pydict \<Rightarrow> (string \<times> field_config) list" where
  "get_editor_config model_fields model_extra =
     (let config = foldl add_field [] model_fields
      in if model_extra \<noteq> [] then foldl add_extra config model_extra else config)"

section \<open>The declared fields of the five classes\<close>

definition ComponentModel_fields :: "(string \<times> FieldInfo) list" where
  "ComponentModel_fields =
     [(''component_type'', Field (ClassOf ''ComponentType'') False ''Component category'' [])]"

definition StatComponent_fields :: "(string \<times> FieldInfo) list" where
  "StatComponent_fields =
     [(''component_type'', Field (ClassOf ''ComponentType'') False ''Component category'' []),
      (''name'', Field TStr True ''Unique identifier for the statistic'' []),
      (''base_value'', Field TFloat False ''Base value of the statistic'' []),
      (''current_value'', Field TFloat False ''Current modified value'' []),
      (''min_value'', Field (OptionalOf TFloat) False ''Minimum allowed value'' []),
      (''max_value'', Field (OptionalOf TFloat) False ''Maximum allowed value'' []),
      (''description'', Field TStr False ''Description of what this statistic represents'' [])]"

definition StatsComponent_fields :: "(string \<times> FieldInfo) list" where
  "StatsComponent_fields =
     [(''component_type'', Field (ClassOf ''ComponentType'') False ''Component category'' []),
      (''stats'', Field (ListOf (ClassOf ''StatComponent'')) False ''List of statistics'' []),
      (''max_stats'', Field (OptionalOf TInt) False
         ''Maximum number of stats (None for unlimited)'' [(''Ge'', VInt 1)])]"

definition InventoryCellComponent_fields :: "(string \<times> FieldInfo) list" where
  "InventoryCellComponent_fields =
     [(''component_type'', Field (ClassOf ''ComponentType'') False ''Component category'' []),
      (''item_id'', Field (OptionalOf TStr) False ''Unique identifier of the contained item'' []),
      (''quantity'', Field TInt False ''Current quantity of items in stack'' [(''Ge'', VInt 0)]),
      (''max_stack_size'', Field TInt False ''Maximum stack size'' [(''Ge'', VInt 1)]),
      (''slot_type'', Field (OptionalOf TStr) False ''Allowed item type for this slot'' []),
      (''is_equipped'', Field TBool False ''Whether this item is equipped'' [])]"

definition InventoryComponent_fields :: "(string \<times> FieldInfo) list" where
  "InventoryComponent_fields =
     [(''component_type'', Field (ClassOf ''ComponentType'') False ''Component category'' []),
      (''cells'', Field (ListOf (ClassOf ''InventoryCellComponent'')) False
         ''List of inventory cells'' []),
      (''max_cells'', Field TInt False ''Maximum number of cells in inventory'' [(''Ge'', VInt 1)]),
      (''default_max_stack_size'', Field TInt False
         ''Default max stack size for new cells'' [(''Ge'', VInt 1)])]"

lemmas editor_defs [aw_defs] =
  OptionalOf_def Field_def infer_field_type_def copy_key_def copy_key_strict_def
  from_constraints_def from_meta_item_def get_field_constraints_def label_of_def
  field_entry_def extra_entry_def add_field_def add_extra_def get_editor_config_def

lemmas class_fields_defs =
  ComponentModel_fields_def StatComponent_fields_def StatsComponent_fields_def
  InventoryCellComponent_fields_def InventoryComponent_fields_def

section \<open>Dictionaries in insertion order\<close>

lemma update_new: "k \<notin> fst ` set al \<Longrightarrow> AList.update k v al = al @ [(k, v)]"
  by (induction al) auto

lemma map_of_update_same [simp]: "map_of (AList.update k v al) k = Some v"
  by (simp add: AList.update_conv')

lemma map_of_update_other [simp]: "k' \<noteq> k \<Longrightarrow> map_of (AList.update k v al) k' = map_of al k'"
  by (simp add: AList.update_conv')

section \<open>The declared fields\<close>

lemma keys_add_field:
  "fst ` set (foldl add_field config mf) =
     fst ` set config \<union> (fst ` set mf - {''component_type''})"
  by (induction mf arbitrary: config) (auto simp: add_field_def AList.dom_update)

lemma fields_in_order:
  assumes "distinct (map fst mf)" and "fst ` set config \<inter> fst ` set mf = {}"
  shows "map fst (foldl add_field config mf) =
    map fst config @ filter (\<lambda>n. n \<noteq> ''component_type'') (map fst mf)"
  using assms
proof (induction mf arbitrary: config)
  case (Cons nf mf)
  show ?case
  proof (cases "fst nf = ''component_type''")
    case True
    with Cons.prems Cons.IH [of config] show ?thesis by (auto simp: add_field_def)
  next
    case False
    from Cons.prems have new: "fst nf \<notin> fst ` set config" by auto
    let ?c = "config @ [(fst nf, field_entry (fst nf) (snd nf))]"
    from Cons.prems have "fst ` set ?c \<inter> fst ` set mf = {}" by auto
    with Cons.prems Cons.IH [of ?c] False new show ?thesis
      by (simp add: add_field_def update_new)
  qed
qed simp

lemma entry_add_field:
  assumes "distinct (map fst mf)" and "(n, fi) \<in> set mf" and "n \<noteq> ''component_type''"
  shows "map_of (foldl add_field config mf) n = Some (field_entry n fi)"
  using assms
proof (induction mf arbitrary: config)
  case (Cons nf mf)
  show ?case
  proof (cases "nf = (n, fi)")
    case True
    from Cons.prems(1) True have "n \<notin> fst ` set mf" by auto
    then have "n \<notin> fst ` set mf - {''component_type''}" by simp
    have keep: "map_of (foldl add_field c mf) n = map_of c n" for c
      using \<open>n \<notin> fst ` set mf\<close>
    proof (induction mf arbitrary: c)
      case (Cons a mf)
      then show ?case by (auto simp: add_field_def)
    qed simp
    from True Cons.prems(3) show ?thesis by (simp add: keep) (simp add: add_field_def)
  next
    case False
    with Cons.prems Cons.IH [of "add_field config nf"] show ?thesis by auto
  qed
qed simp

section \<open>The extra attributes\<close>

lemma keys_add_extra:
  "fst ` set (foldl add_extra config ex) = fst ` set config \<union> fst ` set ex"
  by (induction ex arbitrary: config) (auto simp: add_extra_def AList.dom_update)

lemma extras_in_order:
  assumes "distinct (map fst ex)" and "fst ` set config \<inter> fst ` set ex = {}"
  shows "map fst (foldl add_extra config ex) = map fst config @ map fst ex"
  using assms
proof (induction ex arbitrary: config)
  case (Cons nv ex)
  from Cons.prems have new: "fst nv \<notin> fst ` set config" by auto
  let ?c = "config @ [(fst nv, extra_entry (fst nv) (snd nv))]"
  from Cons.prems have "fst ` set ?c \<inter> fst ` set ex = {}" by auto
  with Cons.prems Cons.IH [of ?c] new show ?case by (simp add: add_extra_def update_new)
qed simp

lemma entry_add_extra_other:
  "n \<notin> fst ` set ex \<Longrightarrow> map_of (foldl add_extra config ex) n = map_of config n"
  by (induction ex arbitrary: config) (auto simp: add_extra_def)

lemma entry_add_extra:
  assumes "distinct (map fst ex)" and "(n, v) \<in> set ex"
  shows "map_of (foldl add_extra config ex) n = Some (extra_entry n v)"
  using assms
proof (induction ex arbitrary: config)
  case (Cons nv ex)
  show ?case
  proof (cases "nv = (n, v)")
    case True
    from Cons.prems(1) True have "n \<notin> fst ` set ex" by auto
    with True show ?thesis by (simp add: entry_add_extra_other) (simp add: add_extra_def)
  next
    case False
    with Cons.prems Cons.IH [of "add_extra config nv"] show ?thesis by auto
  qed
qed simp

text \<open>The test \<^verbatim>\<open>if self.model_extra\<close> only skips a loop over nothing.\<close>

lemma get_editor_config_eq:
  "get_editor_config mf ex = foldl add_extra (foldl add_field [] mf) ex"
  by (cases ex) (simp_all add: get_editor_config_def)

lemma editor_config_keys:
  assumes "distinct (map fst mf)" and "distinct (map fst ex)"
    and "fst ` set mf \<inter> fst ` set ex = {}"
  shows "map fst (get_editor_config mf ex) =
    filter (\<lambda>n. n \<noteq> ''component_type'') (map fst mf) @ map fst ex"
proof -
  from assms(3) have "fst ` set (foldl add_field [] mf) \<inter> fst ` set ex = {}"
    by (auto simp: keys_add_field)
  from extras_in_order [OF assms(2) this] fields_in_order [OF assms(1), of "[]"]
  show ?thesis by (simp add: get_editor_config_eq)
qed

section \<open>Constraints\<close>

lemma copy_key_simps:
  "map_of (copy_key k k' d c) j = (if j = k' \<and> map_of d k \<noteq> None then map_of d k else map_of c j)"
  "map_of (copy_key_strict k k' flag d c) j =
     (if map_of d k = None then map_of c j
      else if j = flag then Some (VBool True)
      else if j = k' then map_of d k else map_of c j)"
  by (auto simp: copy_key_def copy_key_strict_def split: option.splits)

lemma from_meta_item_object [simp]: "from_meta_item c (MetaObject cls v) = c"
  by (simp add: from_meta_item_def)

lemma foldl_meta_objects:
  "foldl from_meta_item c (map (\<lambda>(cls, v). MetaObject cls v) bounds) = c"
  by (induction bounds arbitrary: c) (simp_all split: prod.splits)

section \<open>Properties\<close>

text \<open>
  C38 (what the configuration contains). For declared fields with distinct names and extra
  attributes with distinct names that are not names of declared fields, the configuration
  has one entry for every declared field but \<^verbatim>\<open>component_type\<close>, in the order of
  declaration, then one entry for every extra attribute, in their order, and never an
  entry for \<^verbatim>\<open>component_type\<close>; the entry of a declared field is built from its field
  information and the entry of an extra attribute from its value.
\<close>

theorem editor_config_entries:
  assumes "distinct (map fst mf)" and "distinct (map fst ex)"
    and "fst ` set mf \<inter> fst ` set ex = {}" and "''component_type'' \<in> fst ` set mf"
  shows "map fst (get_editor_config mf ex) =
      filter (\<lambda>n. n \<noteq> ''component_type'') (map fst mf) @ map fst ex \<and>
    ''component_type'' \<notin> fst ` set (get_editor_config mf ex) \<and>
    (\<forall>n fi. (n, fi) \<in> set mf \<and> n \<noteq> ''component_type'' \<longrightarrow>
       map_of (get_editor_config mf ex) n = Some (field_entry n fi)) \<and>
    (\<forall>n v. (n, v) \<in> set ex \<longrightarrow> map_of (get_editor_config mf ex) n = Some (extra_entry n v))"
proof -
  let ?c = "foldl add_field [] mf"
  have cfg: "get_editor_config mf ex = foldl add_extra ?c ex"
    by (rule get_editor_config_eq)
  note keys = editor_config_keys [OF assms(1-3)]
  from assms(3,4) have "''component_type'' \<notin> fst ` set ex" by auto
  moreover have "fst ` set (get_editor_config mf ex) = set (map fst (get_editor_config mf ex))"
    by simp
  ultimately have no: "''component_type'' \<notin> fst ` set (get_editor_config mf ex)"
    unfolding keys by auto
  have f: "map_of (get_editor_config mf ex) n = Some (field_entry n fi)"
    if "(n, fi) \<in> set mf" and "n \<noteq> ''component_type''" for n fi
  proof -
    from that(1) assms(3) have "n \<notin> fst ` set ex" by force
    with entry_add_field [OF assms(1) that, of "[]"] show ?thesis
      by (simp add: cfg entry_add_extra_other)
  qed
  have e: "map_of (get_editor_config mf ex) n = Some (extra_entry n v)" if "(n, v) \<in> set ex" for n v
    using entry_add_extra [OF assms(2) that] by (simp add: cfg)
  from keys no f e show ?thesis by blast
qed

theorem editor_config_entries_witness:
  "map fst (get_editor_config InventoryCellComponent_fields [(''glow'', VBool True)]) =
     [''item_id'', ''quantity'', ''max_stack_size'', ''slot_type'', ''is_equipped'', ''glow'']"
  using editor_config_entries [of InventoryCellComponent_fields "[(''glow'', VBool True)]"]
  by (simp add: InventoryCellComponent_fields_def)

text \<open>
  From a dictionary of
  constraints \<^verbatim>\<open>_get_field_constraints\<close> reports \<^verbatim>\<open>min\<close> as the bound \<^verbatim>\<open>gt\<close> when there is
  one and else as the bound \<^verbatim>\<open>ge\<close>, with the flag \<^verbatim>\<open>exclusiveMin\<close> exactly when there is a
  bound \<^verbatim>\<open>gt\<close>; the same for \<^verbatim>\<open>max\<close> with \<^verbatim>\<open>lt\<close> and \<^verbatim>\<open>le\<close>; and the two length bounds.
\<close>

theorem get_field_constraints_of_dict:
  assumes "constraints fi = Some d" and "metadata fi = []"
  shows "map_of (get_field_constraints fi) ''min'' =
      (case map_of d ''gt'' of Some v \<Rightarrow> Some v | None \<Rightarrow> map_of d ''ge'') \<and>
    map_of (get_field_constraints fi) ''exclusiveMin'' =
      (case map_of d ''gt'' of Some v \<Rightarrow> Some (VBool True) | None \<Rightarrow> None) \<and>
    map_of (get_field_constraints fi) ''max'' =
      (case map_of d ''lt'' of Some v \<Rightarrow> Some v | None \<Rightarrow> map_of d ''le'') \<and>
    map_of (get_field_constraints fi) ''exclusiveMax'' =
      (case map_of d ''lt'' of Some v \<Rightarrow> Some (VBool True) | None \<Rightarrow> None) \<and>
    map_of (get_field_constraints fi) ''minLength'' = map_of d ''min_length'' \<and>
    map_of (get_field_constraints fi) ''maxLength'' = map_of d ''max_length''"
proof -
  have m: "map_of (from_constraints d) ''min'' =
      (case map_of d ''gt'' of Some v \<Rightarrow> Some v | None \<Rightarrow> map_of d ''ge'')"
    and em: "map_of (from_constraints d) ''exclusiveMin'' =
      (case map_of d ''gt'' of Some v \<Rightarrow> Some (VBool True) | None \<Rightarrow> None)"
    and x: "map_of (from_constraints d) ''max'' =
      (case map_of d ''lt'' of Some v \<Rightarrow> Some v | None \<Rightarrow> map_of d ''le'')"
    and ex: "map_of (from_constraints d) ''exclusiveMax'' =
      (case map_of d ''lt'' of Some v \<Rightarrow> Some (VBool True) | None \<Rightarrow> None)"
    and ml: "map_of (from_constraints d) ''minLength'' = map_of d ''min_length''"
    and xl: "map_of (from_constraints d) ''maxLength'' = map_of d ''max_length''"
    by (simp_all add: from_constraints_def copy_key_simps split: option.splits)
  have "map_of (get_field_constraints fi) k = map_of (from_constraints d) k" for k
  proof (cases "d = []")
    case True
    with assms show ?thesis
      by (simp add: get_field_constraints_def from_constraints_def copy_key_def copy_key_strict_def)
  next
    case False
    with assms show ?thesis by (simp add: get_field_constraints_def Let_def)
  qed
  with m em x ex ml xl show ?thesis by simp
qed

theorem get_field_constraints_of_dict_witness:
  "map_of (get_field_constraints
      \<lparr>annotation = TInt, field_description = None, is_required = False,
       constraints = Some [(''ge'', VInt 0), (''lt'', VInt 10)], metadata = []\<rparr>) ''max'' =
     Some (VInt 10)"
  using get_field_constraints_of_dict [of
      "\<lparr>annotation = TInt, field_description = None, is_required = False,
       constraints = Some [(''ge'', VInt 0), (''lt'', VInt 10)], metadata = []\<rparr>"
      "[(''ge'', VInt 0), (''lt'', VInt 10)]"]
  by simp

text \<open>
  C39 (declared bounds are not reported). For a field as the library stores its declaration,
  with the bounds as objects in \<^verbatim>\<open>metadata\<close> and no attribute \<^verbatim>\<open>constraints\<close>,
  \<^verbatim>\<open>_get_field_constraints\<close> returns the empty dictionary: the configuration of a cell
  reports no \<^verbatim>\<open>min\<close> for \<^verbatim>\<open>quantity\<close>, declared with \<^verbatim>\<open>ge=0\<close>.
\<close>

theorem declared_bounds_not_reported:
  "get_field_constraints (Field a req d bounds) = [] \<and>
   map_option config_constraints
     (map_of (get_editor_config InventoryCellComponent_fields []) ''quantity'') = Some []"
proof -
  have "get_field_constraints (Field a req d bounds) = []" for a req d bounds
    by (simp add: get_field_constraints_def Field_def foldl_meta_objects)
  then show ?thesis
    by (simp add: get_editor_config_def InventoryCellComponent_fields_def add_field_def
        field_entry_def)
qed

text \<open>
  For \<^verbatim>\<open>Optional[T]\<close> the type is that of \<^verbatim>\<open>T\<close> when \<^verbatim>\<open>T\<close> is
  \<^verbatim>\<open>int\<close>, \<^verbatim>\<open>float\<close>, \<^verbatim>\<open>str\<close> or \<^verbatim>\<open>bool\<close>, and text for every other \<^verbatim>\<open>T\<close>: an optional list
  is a text field, while a list is a list field.
\<close>

theorem infer_field_type_optional:
  assumes "a \<noteq> TNone"
  shows "infer_field_type (fi\<lparr>annotation := OptionalOf a\<rparr>) =
      (if a = TInt \<or> a = TFloat then NUMBER else if a = TBool then CHECKBOX else TEXT) \<and>
    infer_field_type (fi\<lparr>annotation := ListOf a\<rparr>) = LIST \<and>
    infer_field_type (fi\<lparr>annotation := OptionalOf (ListOf a)\<rparr>) = TEXT"
  using assms by (simp add: infer_field_type_def OptionalOf_def)

theorem infer_field_type_optional_witness:
  "infer_field_type (Field (OptionalOf TFloat) False ''Minimum allowed value'' []) = NUMBER"
  using infer_field_type_optional [of TFloat
      "Field (OptionalOf TFloat) False ''Minimum allowed value'' []"]
  by (simp add: Field_def)

text \<open>
  The entries of the configuration of a
  \<^verbatim>\<open>StatComponent\<close> and of an \<^verbatim>\<open>InventoryCellComponent\<close>, with their types and labels.
\<close>

theorem editor_config_of_components:
  "map (\<lambda>(n, c). (n, field_type c, label c)) (get_editor_config StatComponent_fields []) =
     [(''name'', TEXT, ''Name''), (''base_value'', NUMBER, ''Base Value''),
      (''current_value'', NUMBER, ''Current Value''), (''min_value'', NUMBER, ''Min Value''),
      (''max_value'', NUMBER, ''Max Value''), (''description'', TEXT, ''Description'')] \<and>
   map (\<lambda>(n, c). (n, field_type c, label c)) (get_editor_config InventoryCellComponent_fields []) =
     [(''item_id'', TEXT, ''Item Id''), (''quantity'', NUMBER, ''Quantity''),
      (''max_stack_size'', NUMBER, ''Max Stack Size''), (''slot_type'', TEXT, ''Slot Type''),
      (''is_equipped'', CHECKBOX, ''Is Equipped'')]"
  by code_simp

end
