(* ===== verification/AW_Serial.thy ===== *)
theory AW_Serial
  imports AW_Stats AW_Inventory AW_Editor
begin

text \<open>
  The conversion of a component to and from a structured record (spec sections 6 and 8),
  which the classes inherit from the library: \<^verbatim>\<open>model_dump()\<close> writes a component as a
  dictionary from field names to values, and the constructor called on such a dictionary,
  \<^verbatim>\<open>Class(**data)\<close> or \<^verbatim>\<open>Class.model_validate(data)\<close>, reads it back. A dictionary is a
  \<open>pydict\<close> of \<open>AW_Editor\<close>.

  Writing lists the declared fields in the order of declaration, a nested component as
  the dictionary of that component. Reading checks the value of every field that the
  dictionary has against the declared type, takes the declared default for a field it
  has not, and then constructs the component with the constructor of its theory, so that
  the validators run as they do in every construction. The library reports every
  failure of a record in one \<^verbatim>\<open>ValidationError\<close>; the model returns the first in the order
  of declaration. The library also converts some values of another type (a numeric string
  to a number); the functions here accept the values that writing produces, an integer
  for a float and the value of an enumeration member for the member, and answer
  \<open>WrongType\<close> otherwise. The functions here write and read the declared fields; the
  extra attributes of a component are added in \<open>AW_Extra\<close>.
\<close>

section \<open>Writing a component\<close>

definition dump_component_type :: "ComponentType \<Rightarrow> pyvalue" where
  "dump_component_type t =
     VObject (case t of STAT \<Rightarrow> ''ComponentType.STAT''
              | INVENTORY \<Rightarrow> ''ComponentType.INVENTORY''
              | CUSTOM \<Rightarrow> ''ComponentType.CUSTOM'')"

definition dump_optional :: "('a \<Rightarrow> pyvalue) \<Rightarrow> 'a option \<Rightarrow> pyvalue" where
  "dump_optional f v = (case v of None \<Rightarrow> VNone | Some x \<Rightarrow> f x)"

definition StatComponent_dump :: "real StatComponent \<Rightarrow> pydict" where
  "StatComponent_dump s =
     [(''component_type'', dump_component_type (component_type s)),
      (''name'', VStr (name s)),
      (''base_value'', VFloat (base_value s)),
      (''current_value'', VFloat (current_value s)),
      (''min_value'', dump_optional VFloat (min_value s)),
      (''max_value'', dump_optional VFloat (max_value s)),
      (''description'', VStr (description s))]"

definition StatsComponent_dump :: "real StatsComponent \<Rightarrow> pydict" where
  "StatsComponent_dump sc =
     [(''component_type'', dump_component_type (component_type sc)),
      (''stats'', VList (map (\<lambda>s. VDict (StatComponent_dump s)) (stats sc))),
      (''max_stats'', dump_optional VInt (max_stats sc))]"

definition InventoryCellComponent_dump :: "cell \<Rightarrow> pydict" where
  "InventoryCellComponent_dump c =
     [(''component_type'', dump_component_type (component_type c)),
      (''item_id'', dump_optional VStr (item_id c)),
      (''quantity'', VInt (quantity c)),
      (''max_stack_size'', VInt (max_stack_size c)),
      (''slot_type'', dump_optional VStr (slot_type c)),
      (''is_equipped'', VBool (is_equipped c))]"

definition InventoryComponent_dump :: "inventory \<Rightarrow> pydict" where
  "InventoryComponent_dump iv =
     [(''component_type'', dump_component_type (component_type iv)),
      (''cells'', VList (map (\<lambda>c. VDict (InventoryCellComponent_dump c)) (cells iv))),
      (''max_cells'', VInt (max_cells iv)),
      (''default_max_stack_size'', VInt (default_max_stack_size iv))]"

section \<open>Reading a value\<close>

text \<open>
  One function for each declared type; the first argument is the name of the field, for
  the error. \<open>load_items\<close> reads the elements of a list in order and stops at the first
  that fails. \<open>read_field\<close> answers \<open>None\<close> for a field that the dictionary has not, so
  that the constructor takes the default; \<open>read_optional\<close> does the same for a field of
  type \<^verbatim>\<open>Optional[T]\<close>, whose default is \<^verbatim>\<open>None\<close>; \<open>read_required\<close> is for a field without
  default.
\<close>

fun load_str :: "string \<Rightarrow> pyvalue \<Rightarrow> string result" where
  "load_str f (VStr s) = Inr s"
| "load_str f v = Inl (WrongType f)"

fun load_int :: "string \<Rightarrow> pyvalue \<Rightarrow> int result" where
  "load_int f (VInt i) = Inr i"
| "load_int f v = Inl (WrongType f)"

fun load_bool :: "string \<Rightarrow> pyvalue \<Rightarrow> bool result" where
  "load_bool f (VBool b) = Inr b"
| "load_bool f v = Inl (WrongType f)"

fun load_float :: "string \<Rightarrow> pyvalue \<Rightarrow> real result" where
  "load_float f (VFloat x) = Inr x"
| "load_float f (VInt i) = Inr (of_int i)"
| "load_float f v = Inl (WrongType f)"

definition load_component_type :: "string \<Rightarrow> pyvalue \<Rightarrow> ComponentType result" where
  "load_component_type f v =
     (if v = VObject ''ComponentType.STAT'' \<or> v = VStr ''stat'' then Inr STAT
      else if v = VObject ''ComponentType.INVENTORY'' \<or> v = VStr ''inventory'' then Inr INVENTORY
      else if v = VObject ''ComponentType.CUSTOM'' \<or> v = VStr ''custom'' then Inr CUSTOM
      else Inl (WrongType f))"

definition load_optional ::
  "(string \<Rightarrow> pyvalue \<Rightarrow> 'a result) \<Rightarrow> string \<Rightarrow> pyvalue \<Rightarrow> 'a option result" where
  "load_optional rd f v =
     (if v = VNone then Inr None else bind_result (rd f v) (\<lambda>x. Inr (Some x)))"

fun load_items :: "(pyvalue \<Rightarrow> 'a result) \<Rightarrow> pyvalue list \<Rightarrow> 'a list result" where
  "load_items rd [] = Inr []"
| "load_items rd (v # vs) =
     bind_result (rd v) (\<lambda>x. bind_result (load_items rd vs) (\<lambda>xs. Inr (x # xs)))"

definition load_list :: "(pydict \<Rightarrow> 'a result) \<Rightarrow> string \<Rightarrow> pyvalue \<Rightarrow> 'a list result" where
  "load_list rd f v =
     (case v of
        VList vs \<Rightarrow> load_items (\<lambda>v. case v of VDict d \<Rightarrow> rd d | _ \<Rightarrow> Inl (WrongType f)) vs
      | _ \<Rightarrow> Inl (WrongType f))"

definition read_field :: "pydict \<Rightarrow> string \<Rightarrow> (string \<Rightarrow> pyvalue \<Rightarrow> 'a result) \<Rightarrow> 'a option result" where
  "read_field d f rd =
     (case map_of d f of None \<Rightarrow> Inr None | Some v \<Rightarrow> bind_result (rd f v) (\<lambda>x. Inr (Some x)))"

definition read_optional ::
  "pydict \<Rightarrow> string \<Rightarrow> (string \<Rightarrow> pyvalue \<Rightarrow> 'a result) \<Rightarrow> 'a option result" where
  "read_optional d f rd =
     (case map_of d f of None \<Rightarrow> Inr None | Some v \<Rightarrow> load_optional rd f v)"

definition read_required :: "pydict \<Rightarrow> string \<Rightarrow> (string \<Rightarrow> pyvalue \<Rightarrow> 'a result) \<Rightarrow> 'a result" where
  "read_required d f rd =
     (case map_of d f of None \<Rightarrow> Inl (MissingField f) | Some v \<Rightarrow> rd f v)"

section \<open>Reading a component\<close>

definition StatComponent_load :: "pydict \<Rightarrow> real StatComponent result" where
  "StatComponent_load d =
     bind_result (read_field d ''component_type'' load_component_type) (\<lambda>ct.
     bind_result (read_required d ''name'' load_str) (\<lambda>n.
     bind_result (read_field d ''base_value'' load_float) (\<lambda>base.
     bind_result (read_field d ''current_value'' load_float) (\<lambda>cur.
     bind_result (read_optional d ''min_value'' load_float) (\<lambda>lo.
     bind_result (read_optional d ''max_value'' load_float) (\<lambda>hi.
     bind_result (read_field d ''description'' load_str) (\<lambda>desc.
       Inr ((StatComponent_init n base cur lo hi
               (case desc of None \<Rightarrow> [] | Some x \<Rightarrow> x))
            \<lparr>component_type := (case ct of None \<Rightarrow> STAT | Some t \<Rightarrow> t)\<rparr>))))))))"

definition StatsComponent_load :: "pydict \<Rightarrow> real StatsComponent result" where
  "StatsComponent_load d =
     bind_result (read_field d ''component_type'' load_component_type) (\<lambda>ct.
     bind_result (read_field d ''stats'' (load_list StatComponent_load)) (\<lambda>ss.
     bind_result (read_optional d ''max_stats'' load_int) (\<lambda>ms.
     bind_result
       (StatsComponent_init (case ss of None \<Rightarrow> [] | Some xs \<Rightarrow> xs) ms)
       (\<lambda>sc. Inr (sc\<lparr>component_type := (case ct of None \<Rightarrow> STAT | Some t \<Rightarrow> t)\<rparr>)))))"

definition InventoryCellComponent_load :: "pydict \<Rightarrow> cell result" where
  "InventoryCellComponent_load d =
     bind_result (read_field d ''component_type'' load_component_type) (\<lambda>ct.
     bind_result (read_optional d ''item_id'' load_str) (\<lambda>iid.
     bind_result (read_field d ''quantity'' load_int) (\<lambda>q.
     bind_result (read_field d ''max_stack_size'' load_int) (\<lambda>mss.
     bind_result (read_optional d ''slot_type'' load_str) (\<lambda>st.
     bind_result (read_field d ''is_equipped'' load_bool) (\<lambda>eq.
     bind_result (InventoryCellComponent_init iid q mss st eq)
       (\<lambda>c. Inr (c\<lparr>component_type := (case ct of None \<Rightarrow> INVENTORY | Some t \<Rightarrow> t)\<rparr>))))))))"

definition InventoryComponent_load :: "pydict \<Rightarrow> inventory result" where
  "InventoryComponent_load d =
     bind_result (read_field d ''component_type'' load_component_type) (\<lambda>ct.
     bind_result (read_field d ''cells'' (load_list InventoryCellComponent_load)) (\<lambda>cs.
     bind_result (read_field d ''max_cells'' load_int) (\<lambda>mc.
     bind_result (read_field d ''default_max_stack_size'' load_int) (\<lambda>dmss.
     bind_result (InventoryComponent_init (case cs of None \<Rightarrow> [] | Some xs \<Rightarrow> xs) mc dmss)
       (\<lambda>iv. Inr (iv\<lparr>component_type := (case ct of None \<Rightarrow> INVENTORY | Some t \<Rightarrow> t)\<rparr>))))))"

section \<open>Types of values\<close>

text \<open>
  \<open>has_type cls a v\<close>: the value \<open>v\<close> is accepted for the annotation \<open>a\<close>, where \<open>cls\<close>
  says which values a class accepts. \<open>record_has_type\<close> is that for the fields of a class:
  every declared field has a value of its type or, unless it is required, is absent.
  \<open>enum_type\<close> is the class \<^verbatim>\<open>ComponentType\<close>, \<open>class_type\<close> adds the two classes of
  components that occur as elements of a list.
\<close>

fun has_type :: "(string \<Rightarrow> pyvalue \<Rightarrow> bool) \<Rightarrow> annotation \<Rightarrow> pyvalue \<Rightarrow> bool" where
  "has_type cls TInt v = (case v of VInt i \<Rightarrow> True | _ \<Rightarrow> False)"
| "has_type cls TFloat v = (case v of VFloat x \<Rightarrow> True | VInt i \<Rightarrow> True | _ \<Rightarrow> False)"
| "has_type cls TStr v = (case v of VStr s \<Rightarrow> True | _ \<Rightarrow> False)"
| "has_type cls TBool v = (case v of VBool b \<Rightarrow> True | _ \<Rightarrow> False)"
| "has_type cls TList v = (case v of VList vs \<Rightarrow> True | _ \<Rightarrow> False)"
| "has_type cls TDict v = (case v of VDict d \<Rightarrow> True | _ \<Rightarrow> False)"
| "has_type cls TNone v = (v = VNone)"
| "has_type cls (ListOf a) v = (case v of VList vs \<Rightarrow> list_all (has_type cls a) vs | _ \<Rightarrow> False)"
| "has_type cls (DictOf k a) v =
     (case v of VDict d \<Rightarrow> list_all (\<lambda>kv. has_type cls a (snd kv)) d | _ \<Rightarrow> False)"
| "has_type cls (UnionOf as) v = list_ex (\<lambda>a. has_type cls a v) as"
| "has_type cls (ClassOf c) v = cls c v"

definition record_has_type ::
  "(string \<Rightarrow> pyvalue \<Rightarrow> bool) \<Rightarrow> (string \<times> FieldInfo) list \<Rightarrow> pydict \<Rightarrow> bool" where
  "record_has_type cls fs d =
     list_all (\<lambda>(f, fi). case map_of d f of None \<Rightarrow> \<not> is_required fi
                          | Some v \<Rightarrow> has_type cls (annotation fi) v) fs"

definition enum_type :: "string \<Rightarrow> pyvalue \<Rightarrow> bool" where
  "enum_type c v \<longleftrightarrow>
     c = ''ComponentType'' \<and>
     v \<in> set [VObject ''ComponentType.STAT'', VStr ''stat'',
              VObject ''ComponentType.INVENTORY'', VStr ''inventory'',
              VObject ''ComponentType.CUSTOM'', VStr ''custom'']"

definition class_type :: "string \<Rightarrow> pyvalue \<Rightarrow> bool" where
  "class_type c v =
     (if c = ''StatComponent'' then
        (case v of VDict d \<Rightarrow> record_has_type enum_type StatComponent_fields d | _ \<Rightarrow> False)
      else if c = ''InventoryCellComponent'' then
        (case v of VDict d \<Rightarrow> record_has_type enum_type InventoryCellComponent_fields d | _ \<Rightarrow> False)
      else enum_type c v)"

text \<open>What a cell is after a round trip.\<close>

definition reloaded :: "cell \<Rightarrow> cell" where
  "reloaded c = c\<lparr>quantity := min (quantity c) 1\<rparr>"


lemmas load_defs =
  load_component_type_def load_optional_def load_list_def read_field_def read_optional_def read_required_def

section \<open>Reading what was written\<close>

lemma load_component_type_dump [simp]:
  "load_component_type f (dump_component_type t) = Inr t"
  by (cases t) (simp_all add: load_component_type_def dump_component_type_def)

lemma load_component_type_value [simp]:
  "load_component_type f (VStr (ComponentType_value t)) = Inr t"
  by (cases t) (simp_all add: load_component_type_def)

lemma load_optional_dump [simp]:
  "load_optional load_float f (dump_optional VFloat x) = Inr x"
  "load_optional load_int f (dump_optional VInt i) = Inr i"
  "load_optional load_str f (dump_optional VStr s) = Inr s"
  by (cases x; cases i; cases s; simp add: load_optional_def dump_optional_def)+

lemma load_items_map:
  assumes "\<And>x. x \<in> set xs \<Longrightarrow> rd (g x) = Inr (h x)"
  shows "load_items rd (map g xs) = Inr (map h xs)"
  using assms by (induction xs) simp_all

lemma StatComponent_load_dump: "StatComponent_load (StatComponent_dump s) = Inr s"
  by (cases s)
    (simp add: StatComponent_load_def StatComponent_dump_def read_field_def read_required_def read_optional_def
      StatComponent_init_def validate_base_value_def validate_current_value_def)

lemma StatsComponent_load_dump:
  assumes "within_capacity sc"
  shows "StatsComponent_load (StatsComponent_dump sc) = Inr sc"
proof -
  have "load_items (\<lambda>v. case v of VDict d \<Rightarrow> StatComponent_load d | _ \<Rightarrow> Inl (WrongType ''stats''))
      (map (\<lambda>s. VDict (StatComponent_dump s)) (stats sc)) = Inr (map (\<lambda>s. s) (stats sc))"
    by (rule load_items_map) (simp add: StatComponent_load_dump)
  with assms show ?thesis
    by (cases sc)
      (auto simp: StatsComponent_load_def StatsComponent_dump_def read_field_def read_optional_def
        load_list_def StatsComponent_init_def validate_stats_count_def within_capacity_def
        split: option.splits)
qed

lemma reloaded_eq_iff: "reloaded c = c \<longleftrightarrow> quantity c \<le> 1"
  by (cases c) (auto simp: reloaded_def min_def)

lemma InventoryCellComponent_load_dump:
  assumes "cell_inv c"
  shows "InventoryCellComponent_load (InventoryCellComponent_dump c) = Inr (reloaded c)"
  using assms
  by (cases c)
    (auto simp: InventoryCellComponent_load_def InventoryCellComponent_dump_def read_field_def
      read_optional_def InventoryCellComponent_init_eq cell_inv_def reloaded_def Let_def)

lemma cell_inv_reloaded: "cell_inv c \<Longrightarrow> cell_inv (reloaded c)"
  by (auto simp: cell_inv_def reloaded_def min_def)

lemma InventoryComponent_load_dump:
  assumes "inventory_inv iv"
  shows "InventoryComponent_load (InventoryComponent_dump iv) =
    Inr (iv\<lparr>cells := map reloaded (cells iv)\<rparr>)"
proof -
  from assms have "load_items
      (\<lambda>v. case v of VDict d \<Rightarrow> InventoryCellComponent_load d | _ \<Rightarrow> Inl (WrongType ''cells''))
      (map (\<lambda>c. VDict (InventoryCellComponent_dump c)) (cells iv)) = Inr (map reloaded (cells iv))"
    by (intro load_items_map)
      (simp add: InventoryCellComponent_load_dump inventory_inv_def list_all_iff)
  with assms show ?thesis
    by (cases iv)
      (auto simp: InventoryComponent_load_def InventoryComponent_dump_def read_field_def
        load_list_def InventoryComponent_init_def validate_cells_count_def inventory_inv_def)
qed

lemma item_count_reloaded:
  "list_all cell_inv cs \<Longrightarrow> item_count iid (map reloaded cs) = int (length (filter (holds iid) cs))"
  by (induction cs) (auto simp: reloaded_def holds_def is_empty_def cell_inv_def)

lemma holds_le_item_count:
  "list_all cell_inv cs \<Longrightarrow> int (length (filter (holds iid) cs)) \<le> item_count iid cs"
  by (induction cs) (auto simp: holds_def is_empty_def cell_inv_def)

section \<open>Well-typed records\<close>

lemma read_field_ok:
  "(\<exists>x. read_field d f rd = Inr x) \<longleftrightarrow> (\<forall>v. map_of d f = Some v \<longrightarrow> (\<exists>x. rd f v = Inr x))"
  by (auto simp: read_field_def bind_result_Inr_iff split: option.splits)

lemma read_optional_ok:
  "(\<exists>x. read_optional d f rd = Inr x) \<longleftrightarrow>
     (\<forall>v. map_of d f = Some v \<longrightarrow> v = VNone \<or> (\<exists>x. rd f v = Inr x))"
  by (auto simp: read_optional_def load_optional_def bind_result_Inr_iff split: option.splits)

lemma read_required_ok:
  "(\<exists>x. read_required d f rd = Inr x) \<longleftrightarrow> (\<exists>v. map_of d f = Some v \<and> (\<exists>x. rd f v = Inr x))"
  by (auto simp: read_required_def split: option.splits)

lemma load_ok:
  "(\<exists>x. load_float f v = Inr x) \<longleftrightarrow> has_type cls TFloat v"
  "(\<exists>i. load_int f v = Inr i) \<longleftrightarrow> has_type cls TInt v"
  "(\<exists>s. load_str f v = Inr s) \<longleftrightarrow> has_type cls TStr v"
  "(\<exists>b. load_bool f v = Inr b) \<longleftrightarrow> has_type cls TBool v"
  by (cases v; simp)+

lemma load_component_type_ok:
  "(\<exists>t. load_component_type f v = Inr t) \<longleftrightarrow> enum_type ''ComponentType'' v"
  by (auto simp: load_component_type_def enum_type_def)

lemma StatComponent_load_ok:
  "(\<exists>s. StatComponent_load d = Inr s) \<longleftrightarrow>
     (\<exists>x. read_field d ''component_type'' load_component_type = Inr x) \<and>
     (\<exists>x. read_required d ''name'' load_str = Inr x) \<and>
     (\<exists>x. read_field d ''base_value'' load_float = Inr x) \<and>
     (\<exists>x. read_field d ''current_value'' load_float = Inr x) \<and>
     (\<exists>x. read_optional d ''min_value'' load_float = Inr x) \<and>
     (\<exists>x. read_optional d ''max_value'' load_float = Inr x) \<and>
     (\<exists>x. read_field d ''description'' load_str = Inr x)"
  unfolding StatComponent_load_def bind_result_Inr_iff by blast

lemma StatComponent_typed_iff:
  "record_has_type enum_type StatComponent_fields d \<longleftrightarrow>
     (\<exists>x. read_field d ''component_type'' load_component_type = Inr x) \<and>
     (\<exists>x. read_required d ''name'' load_str = Inr x) \<and>
     (\<exists>x. read_field d ''base_value'' load_float = Inr x) \<and>
     (\<exists>x. read_field d ''current_value'' load_float = Inr x) \<and>
     (\<exists>x. read_optional d ''min_value'' load_float = Inr x) \<and>
     (\<exists>x. read_optional d ''max_value'' load_float = Inr x) \<and>
     (\<exists>x. read_field d ''description'' load_str = Inr x)"
  unfolding read_field_ok read_optional_ok read_required_ok load_component_type_ok
    load_ok [where cls = enum_type]
  by (simp add: record_has_type_def StatComponent_fields_def Field_def OptionalOf_def
      split: option.splits) blast

section \<open>What is written has the declared types\<close>



lemma class_type_simps [simp]:
  "class_type ''ComponentType'' v = enum_type ''ComponentType'' v"
  "class_type ''StatComponent'' (VDict d) = record_has_type enum_type StatComponent_fields d"
  "class_type ''InventoryCellComponent'' (VDict d) =
     record_has_type enum_type InventoryCellComponent_fields d"
  by (simp_all add: class_type_def)




section \<open>Properties\<close>

text \<open>
  C27 (round trip of a stat and of a collection). Reading back the record written for a
  stat gives the stat, whatever its values and bounds: construction clamps nothing, so
  nothing is changed either. Reading back the record of a collection that is within its
  capacity gives the collection.
\<close>

theorem stat_roundtrip:
  "StatComponent_load (StatComponent_dump s) = Inr s \<and>
   (within_capacity sc \<longrightarrow> StatsComponent_load (StatsComponent_dump sc) = Inr sc)"
  by (simp add: StatComponent_load_dump StatsComponent_load_dump)

theorem stat_roundtrip_witness:
  "StatsComponent_load (StatsComponent_dump
     \<lparr>component_type = STAT,
      stats = [\<lparr>component_type = STAT, name = ''health'', base_value = 100, current_value = 120,
                min_value = Some 0, max_value = Some 100, description = []\<rparr>],
      max_stats = Some 2\<rparr>) =
   Inr \<lparr>component_type = STAT,
      stats = [\<lparr>component_type = STAT, name = ''health'', base_value = 100, current_value = 120,
                min_value = Some 0, max_value = Some 100, description = []\<rparr>],
      max_stats = Some 2\<rparr>"
  using stat_roundtrip [where sc = "\<lparr>component_type = STAT,
      stats = [\<lparr>component_type = STAT, name = ''health'', base_value = 100, current_value = 120,
                min_value = Some 0, max_value = Some 100, description = []\<rparr>],
      max_stats = Some 2\<rparr>"]
  by (simp add: within_capacity_def)

text \<open>
  Reading back the record written for a well-formed cell gives
  the cell with a quantity of one at most: the quantity is validated before the stack
  size is known and is cut to the default stack size. The round trip returns the cell
  exactly when it holds one item or none.
\<close>

theorem cell_roundtrip:
  assumes "cell_inv c"
  shows "InventoryCellComponent_load (InventoryCellComponent_dump c) =
      Inr (c\<lparr>quantity := min (quantity c) 1\<rparr>) \<and>
    (InventoryCellComponent_load (InventoryCellComponent_dump c) = Inr c \<longleftrightarrow> quantity c \<le> 1)"
  using InventoryCellComponent_load_dump [OF assms] reloaded_eq_iff [of c]
  by (auto simp: reloaded_def)

theorem cell_roundtrip_witness:
  "InventoryCellComponent_load (InventoryCellComponent_dump
     \<lparr>component_type = INVENTORY, item_id = Some ''potion'', quantity = 3, max_stack_size = 5,
      slot_type = None, is_equipped = False\<rparr>) =
   Inr \<lparr>component_type = INVENTORY, item_id = Some ''potion'', quantity = 1, max_stack_size = 5,
      slot_type = None, is_equipped = False\<rparr>"
  using cell_roundtrip [of
      "\<lparr>component_type = INVENTORY, item_id = Some ''potion'', quantity = 3, max_stack_size = 5,
        slot_type = None, is_equipped = False\<rparr>"]
  by (simp add: cell_inv_def)

text \<open>
  C26 (round trip of an inventory). Reading back the record written for a well-formed
  inventory gives an inventory with the same cells in the same order, each with one item
  at most: of every kind it holds as many items as the original has cells of that kind,
  which is never more than the original holds.
\<close>

theorem inventory_roundtrip:
  assumes "inventory_inv iv"
  shows "\<exists>iv'. InventoryComponent_load (InventoryComponent_dump iv) = Inr iv' \<and>
    cells iv' = map (\<lambda>c. c\<lparr>quantity := min (quantity c) 1\<rparr>) (cells iv) \<and>
    max_cells iv' = max_cells iv \<and> default_max_stack_size iv' = default_max_stack_size iv \<and>
    get_item_count iid iv' = int (length (filter (holds iid) (cells iv))) \<and>
    get_item_count iid iv' \<le> get_item_count iid iv \<and> inventory_inv iv'"
proof -
  from assms have c: "list_all cell_inv (cells iv)" by (simp add: inventory_inv_def)
  from assms have "inventory_inv (iv\<lparr>cells := map reloaded (cells iv)\<rparr>)"
    by (simp add: inventory_inv_def list_all_iff cell_inv_reloaded)
  with InventoryComponent_load_dump [OF assms] item_count_reloaded [OF c, of iid]
    holds_le_item_count [OF c, of iid]
  show ?thesis by (simp add: get_item_count_def reloaded_def [abs_def])
qed

theorem inventory_roundtrip_witness:
  "\<exists>iv'. InventoryComponent_load (InventoryComponent_dump
       \<lparr>component_type = INVENTORY,
        cells = [\<lparr>component_type = INVENTORY, item_id = Some ''potion'', quantity = 3,
                  max_stack_size = 5, slot_type = None, is_equipped = False\<rparr>],
        max_cells = 2, default_max_stack_size = 5\<rparr>) = Inr iv' \<and>
     get_item_count ''potion'' iv' = 1"
proof -
  let ?iv = "\<lparr>component_type = INVENTORY,
    cells = [\<lparr>component_type = INVENTORY, item_id = Some ''potion'', quantity = 3,
              max_stack_size = 5, slot_type = None, is_equipped = False\<rparr>],
    max_cells = 2, default_max_stack_size = 5\<rparr>"
  have "inventory_inv ?iv" by (simp add: inventory_inv_def cell_inv_def)
  from inventory_roundtrip [OF this, of "''potion''"] show ?thesis
    by (auto simp: holds_def is_empty_def)
qed


text \<open>
  A record is read as a stat if
  and only if it gives every declared field that it has a value of the declared type and
  has the required field \<^verbatim>\<open>name\<close>; no value of the right type is rejected, since a stat has
  no constraint that construction checks.
\<close>

theorem StatComponent_load_iff_typed:
  "(\<exists>s. StatComponent_load d = Inr s) \<longleftrightarrow> record_has_type enum_type StatComponent_fields d"
  unfolding StatComponent_load_ok StatComponent_typed_iff ..

text \<open>
  The case \<^verbatim>\<open>test_component_model_deserialization\<close> of the test suite, and a record
  without a name.
\<close>

lemma StatComponent_load_example:
  "StatComponent_load
     [(''name'', VStr ''mana''), (''base_value'', VFloat 50), (''current_value'', VFloat 30),
      (''component_type'', VStr ''stat'')] =
   Inr \<lparr>component_type = STAT, name = ''mana'', base_value = 50, current_value = 30,
        min_value = None, max_value = None, description = []\<rparr>"
  by (simp add: StatComponent_load_def load_defs StatComponent_init_def
      validate_base_value_def validate_current_value_def)

lemma StatComponent_load_no_name:
  "StatComponent_load [(''base_value'', VFloat 10)] = Inl (MissingField ''name'')"
  by (simp add: StatComponent_load_def load_defs)

end
