(* ===== verification/AW_Tests.thy ===== *)
theory AW_Tests
  imports AW_Stats AW_Inventory AW_Editor AW_Serial AW_Extra
begin

text \<open>
  Cases of the test suite \<^verbatim>\<open>tests/test_components.py\<close>, each as a truth value under the
  name of its test method: the statements of the method in order, with the object after
  each call passed to the next, and the conjunction of its assertions. A call that the
  test expects to raise is compared with the error. \<open>projr\<close> and \<open>the\<close> take the object
  out of a construction or a call that the test expects to succeed. A construction with
  keyword arguments that are not declared fields is the \<open>construct\<close> of \<open>AW_Extra\<close> on the
  dictionary of the arguments; an assertion on the class of an object holds by typing and
  is left out.
\<close>

section \<open>\<^verbatim>\<open>TestFieldType\<close> and \<^verbatim>\<open>TestComponentType\<close>\<close>



section \<open>\<^verbatim>\<open>TestComponentModel\<close>\<close>







section \<open>\<^verbatim>\<open>TestStatComponent\<close>\<close>



















section \<open>\<^verbatim>\<open>TestStatsComponent\<close>\<close>































section \<open>\<^verbatim>\<open>TestInventoryCellComponent\<close>\<close>



























section \<open>\<^verbatim>\<open>TestInventoryComponent\<close>\<close>


























section \<open>\<^verbatim>\<open>TestComponentIntegration\<close>\<close>





section \<open>The cases hold\<close>








section \<open>Properties\<close>


end
