(* ===== verification/Spec2Isabelle.thy ===== *)
theory Spec2Isabelle
  imports AW_Stats AW_StatsMap AW_Float AW_Inventory AW_FirstFit AW_Bag AW_Heap AW_StatsHeap
    AW_FloatStats AW_InventoryHeap AW_Editor AW_Serial AW_Extra AW_Tests
begin

text \<open>
  \<^bold>\<open>The program.\<close> ArcaneWeaver's entity-system core,
  \<^verbatim>\<open>src/arcaneweaver/core/entity_system/components.py\<close>, is a library of four data
  components on a common base class, written with pydantic models. \<^verbatim>\<open>StatComponent\<close> is a
  number with a base and a current value and two optional bounds; \<^verbatim>\<open>StatsComponent\<close> is a
  list of stats with unique names and an optional capacity that delegates to the stat it
  finds by name; \<^verbatim>\<open>InventoryCellComponent\<close> is a slot that stacks items of one kind up to a
  limit; \<^verbatim>\<open>InventoryComponent\<close> is a list of cells with a capacity that allocates items to
  cells in two passes. \<^verbatim>\<open>ComponentModel\<close>, the base class, adds the category of the
  component and \<^verbatim>\<open>get_editor_config\<close>, a description of the fields of a component for
  an editor. Nothing is concurrent and
  nothing does I/O; the only control flow that can fail to end is the \<^verbatim>\<open>while\<close> loop of
  \<^verbatim>\<open>InventoryComponent.add_item\<close>.

  \<^bold>\<open>How the code is read.\<close> A class is a record that extends the record of its base class,
  a method is a function from its arguments and the object to its result and the object
  after the call, an exception is the left summand of \<open>error + 'a\<close>, and Python's
  integers are \<open>int\<close>. Three conventions of pydantic decide what the definitions say:

    \<^item> a field validator sees, in \<^verbatim>\<open>validation_info.data\<close>, only the fields declared before
    its own during construction, and all other fields on an assignment. So the validators
    are functions of the value and of the entries they read, the constructors pass \<open>None\<close>
    for entries that are not there yet, and the assignments (\<open>assign_\<dots>\<close>) pass the fields
    of the object;

    \<^item> \<^verbatim>\<open>validate_assignment\<close> runs the field's constraint, its validator and the model
    validator on every assignment to a field, while \<^verbatim>\<open>model_copy(update=\<dots>)\<close> and a
    change of a list in place (\<^verbatim>\<open>append\<close>, \<^verbatim>\<open>del\<close>, item assignment) run nothing. An
    assignment that is rejected is its exception and nothing else: the model does not say
    what the object holds afterwards, and no method of the four classes makes an
    assignment that can be rejected (those of \<^verbatim>\<open>clear_slot\<close> never are, \<open>clear_slot_eq\<close>);

    \<^item> a method called on an object that a lookup returned changes the entry of the list
    in its place (\<open>update_first\<close>). That reading takes the entries of a list for values.
    They are references to objects, and \<open>AW_Heap\<close>, \<open>AW_StatsHeap\<close> and
    \<open>AW_InventoryHeap\<close> read the two collections a second time, over a store of objects,
    and prove that the reading with values is right for a collection that owns its
    entries: whose references are pairwise different and used by nobody else.

  \<^bold>\<open>The theories.\<close>

    \<^item> \<open>AW_Prelude\<close>: the list idioms the two collections share, Python's slice
    \<^verbatim>\<open>xs[:n]\<close> (\<open>py_slice_to\<close>), the capacity cut (\<open>truncate_to\<close>), the scan for the first
    match (\<open>first_index\<close>), the call on the object found (\<open>update_first\<close>) and the
    deletion of the first match (\<open>delete_first\<close>), with their lemmas, and the two
    collections of facts \<open>aw_defs\<close> (unfolding of the operations) and \<open>aw_frame\<close> (fields
    an operation leaves alone).

    \<^item> \<open>AW_Component\<close>: \<^verbatim>\<open>FieldType\<close> and \<^verbatim>\<open>ComponentType\<close> with the values of their
    members (\<open>FieldType_value\<close>, \<open>ComponentType_value\<close>), the base record \<open>ComponentModel\<close>
    with \<^verbatim>\<open>component_type\<close>, the datatype \<open>error\<close> of the exceptions, the declared lower
    bounds \<^verbatim>\<open>Field(ge=\<dots>)\<close> (\<open>check_ge\<close>) and the sequencing of statements that can raise
    (\<open>bind_result\<close>).

    \<^item> \<open>AW_Stat\<close>: \<^verbatim>\<open>StatComponent\<close> over any ordered type of values. The validators
    \<open>validate_current_value\<close> and \<open>validate_base_value\<close>, the constructor
    \<open>StatComponent_init\<close> (\<^verbatim>\<open>__init__\<close>), the assignments, \<open>modify_value\<close>,
    \<open>reset_to_base\<close>, \<open>set_base_value\<close>, and the run of a list of calls (\<open>stat_run\<close>).
    The lemmas show that the two-step clamp of the code is the clamp of the
    specification (\<open>clamp_to\<close>) when the bounds are in order, and that the bound invariant
    \<open>stat_inv\<close> is kept by every call; three theorems show where it is not established:
    by the constructor, under inverted bounds, and by an assignment to a bound.

    \<^item> \<open>AW_Float\<close>: the type \<open>pyfloat\<close> of Python's floats, finite values, the two
    infinities and the value that is not a number, with the addition of IEEE 754 binary64
    (\<open>float_add\<close>: the sum rounded to the nearest double, ties to even, by \<open>float_round\<close>,
    \<open>round_half_even\<close> and \<open>ulp_exponent\<close>) and the comparisons (\<open>float_less\<close>,
    \<open>float_le\<close>), as an instance of the classes \<open>ord\<close>, \<open>plus\<close> and \<open>zero\<close> that the
    operations of \<open>AW_Stat\<close> need. The lemmas on rounding characterise the doubles
    (\<open>float_round_exact\<close>), the overflow (\<open>float_round_overflow\<close>) and known values
    (\<^verbatim>\<open>0.1 + 0.2\<close>, the largest double). A function that keeps the order and the sums of
    a run commutes with the run (\<open>map_stat\<close>, \<open>stat_run_map\<close>); this is used twice: with
    the embedding of the reals (\<open>stat_of_real\<close>, \<open>op_of_real\<close>, runs whose sums are exact,
    \<open>exact_run\<close>), and with the embedding of \<open>nfloat\<close>, the floats that are numbers,
    which are a linear order, so that the invariant of \<open>AW_Stat\<close> holds of stats over
    floats (\<open>no_nan\<close>, \<open>number_op\<close>) whatever the sums round to; on numbers the
    guards of the code say the same as the bounds with \<^verbatim>\<open><=\<close> (\<open>within_bounds\<close>,
    \<open>stat_inv_within\<close>). The last lemmas say
    what the operations do with the value that is not a number and how it arises from
    an overflow.

    \<^item> \<open>AW_Stats\<close>: \<^verbatim>\<open>StatsComponent\<close>. The model validator \<open>validate_stats_count\<close>, the
    constructor, the lookups, \<open>add_stat\<close> (with \<open>append_stat\<close> for its second half),
    \<open>remove_stat\<close>, the four delegating methods, \<open>reset_all_to_base\<close>,
    \<open>clear_all_stats\<close>, and the run of a list of calls (\<open>stats_run\<close>). The lemmas show
    that unique names and the capacity (\<open>stats_inv\<close>) and the bounds of every stat
    (\<open>stats_bounded\<close>) are kept, characterise both errors of \<open>add_stat\<close>, relate every
    method to \<open>get_stat\<close> before and after the call, and say what the assignments to
    \<^verbatim>\<open>stats\<close> and \<^verbatim>\<open>max_stats\<close> keep of a collection. What a call does to single
    stats is named by \<open>delegated\<close> (the call it makes on a stat) and \<open>added\<close> (the
    stat it constructs); \<open>stats_step_list_all\<close> and \<open>stats_run_list_all\<close> carry every
    property of single stats that these two keep to the stats of the collection, which
    is how the bounds are proved here and for floats in \<open>AW_FloatStats\<close>.

    \<^item> \<open>AW_Cell\<close>: \<^verbatim>\<open>InventoryCellComponent\<close>. The validators \<open>validate_quantity\<close> and
    \<open>validate_item_id_and_quantity\<close>, the constructor, the assignments, \<open>is_empty\<close>,
    \<open>is_full\<close>, \<open>add_items\<close>, \<open>remove_items\<close>, \<open>clear_slot\<close>, and the run of a list of
    calls (\<open>cell_run\<close>). The lemmas give the contract of each operation in terms of the
    space a cell has for a kind (\<open>space_for\<close>) and the number it contributes to a count
    (\<open>count_of\<close>), and show that the invariant \<open>cell_inv\<close> is kept by the methods and by
    the assignments to \<^verbatim>\<open>quantity\<close> and \<^verbatim>\<open>item_id\<close>, that these two assignments cannot fill
    an empty cell, and that the assignment of a stack limit below the stored quantity
    breaks the invariant.

    \<^item> \<open>AW_Inventory\<close>: \<^verbatim>\<open>InventoryComponent\<close>. The model validator
    \<open>validate_cells_count\<close>, the constructor, \<open>add_item\<close> with its first pass
    \<open>add_to_matching\<close> (the \<^verbatim>\<open>for\<close> loop) and its second pass \<open>add_to_empty\<close> (the
    \<^verbatim>\<open>while\<close> loop, one round of which is \<open>add_to_empty_step\<close>), \<open>remove_item\<close> with
    \<open>remove_from_matching\<close>, \<open>has_item\<close> with \<open>has_from\<close>, \<open>get_item_count\<close> with
    \<open>item_count\<close>, \<open>get_empty_cells_count\<close>, \<open>is_full_inventory\<close> (\<^verbatim>\<open>is_full\<close>),
    \<open>clear_all\<close>, the transition relation \<open>inventory_step\<close> and the reachable
    inventories. The lemmas are layered: the first pass by a derived induction rule
    (\<open>atm_induct\<close>); one round of the second pass by case rules (\<open>step_cases\<close>,
    \<open>step_continue_cases\<close>); the loop by a rule for invariants (\<open>add_to_empty_rule\<close>)
    with the invariant \<open>pass_inv\<close> and the condition \<open>pass_exit\<close> under which it
    ends; the two passes, each (\<open>first_pass\<close>, \<open>second_pass\<close>) and together
    (\<open>add_item_passes\<close>); and from these the contract of \<open>add_item\<close> against
    the abstract capacity \<open>capacity_for\<close>. The last two sections show that the loop does
    not end on a cell with quantity and stack limit zero, and what the assignments to
    \<^verbatim>\<open>cells\<close> and \<^verbatim>\<open>max_cells\<close> keep and drop.

    \<^item> \<open>AW_StatsMap\<close>: the abstract specification of the collection of stats.
    \<open>stats_mapping\<close> maps a collection to the finite mapping from names to stats
    (\<open>Mapping.of_alist\<close>) and \<open>mapping_step\<close> says what each of the eight mutating calls
    does to that mapping: \<^verbatim>\<open>add_stat\<close> is an update guarded by the name and the capacity
    (\<open>at_capacity\<close>), \<^verbatim>\<open>remove_stat\<close> a deletion, the four delegating calls an update
    of the entry of the name (\<open>on_entry\<close>), \<^verbatim>\<open>reset_all_to_base\<close> a map over the values
    and \<^verbatim>\<open>clear_all_stats\<close> the empty mapping. The lemmas show that \<^verbatim>\<open>get_stat\<close> is the
    lookup, that the names are the keys, and, one lemma for each call, the functional
    refinement \<open>stats_mapping (stats_step sc x) = mapping_step (max_stats sc)
    (stats_mapping sc) x\<close> for collections with unique names, and from it the refinement
    of every run of calls.

    \<^item> \<open>AW_FirstFit\<close>: the reference for \<^verbatim>\<open>add_item\<close>, the two-pass first-fit allocation
    of spec section 4.4. \<open>pour P\<close> is one pass over the cells that satisfy \<open>P\<close>, each
    taking by its own \<^verbatim>\<open>add_items\<close> what it accepts; \<open>stacks\<close> is the list of new cells;
    \<open>overflow\<close> is the second pass (the empty cells, then the new cells) and \<open>first_fit\<close>
    the whole allocation. The lemmas show that the first pass of the code is \<open>pour\<close> on the
    cells that hold the kind (\<open>add_to_matching_pour\<close>), that a round of the loop leaves the
    result of \<open>overflow\<close> unchanged (\<open>overflow_step\<close>), and so, by the rule of the loop,
    that \<open>add_item\<close> returns and leaves what \<open>first_fit\<close> does. \<open>rank\<close>, \<open>served_before\<close>
    and \<open>received\<close> state the order in which the cells are served; the lemmas on one pass
    (\<open>pour_left_full\<close>, \<open>pour_first_fit\<close>) and on the two passes (\<open>pass_one\<close>, \<open>pass_two\<close>,
    \<open>two_passes\<close>) show that a cell receives items only when every cell served before it
    is full.

    \<^item> \<open>AW_Bag\<close>: the abstract specification of the inventory. \<open>bag_of\<close> maps an
    inventory to the multiset of its items and \<open>bag_step\<close> says what a call does to that
    multiset; \<open>inventory_steps\<close> and \<open>bag_steps\<close> are the runs of a list of calls. The
    lemmas show the forward simulation (every call of the code is a call of the
    specification on the multisets), that \<^verbatim>\<open>remove_item\<close> is the difference of multisets,
    that a run is determined by its calls, that the number of items is bounded by
    \<^verbatim>\<open>max_cells\<close> times the largest stack size (\<open>stack_le\<close>), and that requests for one
    kind fill the inventory up to its capacity.

    \<^item> \<open>AW_Editor\<close>: \<^verbatim>\<open>ComponentModel.get_editor_config\<close> with \<^verbatim>\<open>_infer_field_type\<close>
    (\<open>infer_field_type\<close>), \<^verbatim>\<open>_infer_value_type\<close> (\<open>infer_value_type\<close>) and
    \<^verbatim>\<open>_get_field_constraints\<close> (\<open>get_field_constraints\<close>), over a datatype of type
    annotations, a datatype of Python values and a record of what the methods read of a
    \<^verbatim>\<open>FieldInfo\<close>; dictionaries are association lists in the order of insertion
    (\<open>AList.update\<close>). The declared fields of the five classes are the tables
    \<open>StatComponent_fields\<close> and so on. The lemmas show which entries the configuration has and
    in which order, what is reported of a dictionary of constraints, and that the bounds
    of a declaration, which the library stores as objects in \<^verbatim>\<open>metadata\<close>, are not reported.

    \<^item> \<open>AW_Serial\<close>: the structured record of a component (spec sections 6 and 8).
    \<open>StatComponent_dump\<close> and the three other \<open>_dump\<close> functions write a component as a
    dictionary as \<^verbatim>\<open>model_dump\<close> does; \<open>StatComponent_load\<close> and the three other \<open>_load\<close>
    functions read a dictionary as the constructor does: they check the type of every
    value (\<open>load_float\<close>, \<open>load_int\<close>, \<open>load_str\<close>, \<open>load_bool\<close>, \<open>load_list\<close>) and call
    the constructor of the component. \<open>has_type\<close> and \<open>record_has_type\<close> are the typing of
    values and of dictionaries by the annotations of the field tables of \<open>AW_Editor\<close>. The
    lemmas show what a round trip returns (a stat and a collection unchanged; a cell and
    an inventory with one item to a cell at most), that what is written is well typed, and
    that a stat is read from exactly the well-typed dictionaries.

    \<^item> \<open>AW_Extra\<close>: the extra attributes that \<^verbatim>\<open>extra="allow"\<close> gives every component. A
    \<open>model\<close> is the record of the declared fields with the dictionary of the extra
    attributes; \<open>construct\<close> is a construction from keyword arguments (the declared ones
    are read by the \<open>_load\<close> function of the class, the others are kept in order),
    \<open>getattr_extra\<close> and \<open>setattr_extra\<close> read and assign an extra attribute, \<open>model_dump\<close>
    writes the declared fields and then the extra attributes, \<open>editor_config_of\<close> is
    \<^verbatim>\<open>get_editor_config\<close> on an object, and \<open>ComponentModel_init\<close> is the base class. The
    classes meet the theory through an interface, \<open>reads_only\<close> and \<open>writes_only\<close>: the
    lemmas on constructing and on writing and reading back are proved once for every
    reader and writer that look at the declared names only, and \<open>reads_only_classes\<close> and
    \<open>writes_only_classes\<close> show that those of the five classes do.

    \<^item> \<open>AW_Heap\<close>: the store of objects. The store is the list of the objects in the
    order of their creation and a reference is a position (\<open>alloc\<close>, \<open>deref\<close>, \<open>put\<close>);
    \<open>call\<close> and \<open>exec\<close> are a method call through a reference and \<open>exec_all\<close> a loop
    of calls over a list of references. \<open>derefs\<close> reads the values of a list of
    references, \<open>owned\<close> says that they are pairwise different references to objects of
    the store, and \<open>frame\<close> that a store differs from another only behind given
    references and in new objects. The lemmas reduce a write through a reference of an
    owned list to the update of one element of the values.

    \<^item> \<open>AW_StatsHeap\<close>: \<^verbatim>\<open>StatsComponent\<close> with a list of references (\<open>StatsComponent_h\<close>,
    every method with the suffix \<open>_h\<close>, the delegation to the stat found in \<open>on_stat\<close>,
    the run \<open>stats_run_h\<close>). \<open>abs_stats\<close> reads the collection of \<open>AW_Stats\<close> off the
    store. The lemmas show, one for each method, that the call over the store is the call
    over the values when the list is owned, that results agree even when it is not, that
    every method keeps the list owned and writes to no object outside the list; and what
    happens otherwise: a stat held twice, and the renaming of a stat through the
    reference that \<^verbatim>\<open>get_stat\<close> returned.

    \<^item> \<open>AW_FloatStats\<close>: \<^verbatim>\<open>StatsComponent\<close> with floats as values, the composition of
    \<open>AW_Float\<close> with \<open>AW_Stats\<close> and \<open>AW_StatsHeap\<close>. \<open>number_call\<close> is a call of
    the collection with numbers as arguments and \<open>number_stats\<close> a collection whose
    stats are in the state \<open>number_stat\<close> of \<open>AW_Float\<close>. The theorem shows that
    such a collection stays so under every run of such calls, as a value and as a list
    of references into a store that owns its stats, so that no call stores the value
    that is not a number and every stat stays within its bounds.

    \<^item> \<open>AW_InventoryHeap\<close>: the cell methods on a reference (\<open>add_items_h\<close> and
    \<open>remove_items_h\<close> with the copy that \<open>model_copy\<close> makes and \<open>dict_update\<close> writes
    back, \<open>clear_slot_h\<close>) and \<^verbatim>\<open>InventoryComponent\<close> with a list of references
    (\<open>InventoryComponent_h\<close>, the passes \<open>add_to_matching_h\<close> and \<open>add_to_empty_h\<close>, the
    latter a partial function again, \<open>add_item_h\<close>, \<open>remove_item_h\<close>, \<open>clear_all_h\<close>, the
    transition relation \<open>inventory_step_h\<close> and its runs). \<open>abs_inventory\<close> reads the
    inventory of \<open>AW_Inventory\<close> off the store. The lemmas show that each pass and each
    round is the one over the values for an owned list, that the two \<^verbatim>\<open>while\<close> loops
    return together (\<open>add_to_empty_h_sound\<close>, \<open>add_to_empty_h_complete\<close>, by the induction
    rules of the two partial functions), and that the transition relations simulate each
    other; and what happens with a cell held twice.

    \<^item> \<open>AW_Tests\<close>: the 111 cases of \<^verbatim>\<open>tests/test_components.py\<close>, each the statements
    and assertions of one test method over the definitions above, and the lemmas that
    they hold, one for each class of the suite.

    \<^item> this theory: the scenarios of the specification that run several operations,
    what holds of all four components (the category of a component is constant, and every
    validated assignment keeps the invariant of its component), and the chain from the
    classes over the store through the classes over values to the abstract specifications.

  \<^bold>\<open>The loop and its termination.\<close> The \<^verbatim>\<open>while\<close> loop of \<^verbatim>\<open>add_item\<close> has no bound in its
  text, so \<open>add_to_empty\<close> is a partial function in the option monad and \<open>None\<close> stands for
  a loop that does not end; no fuel is used anywhere. That the loop ends is proved, for
  every well-formed inventory, by induction on \<open>free_slots\<close>, the number of empty cells
  plus the number of cells that may still be created: every round that goes on fills an
  empty cell or creates a cell and fills it, and stores at least one item because the
  stack limit of a well-formed cell is at least one. The invariant is needed: on an
  inventory whose first empty cell has quantity and stack limit zero (such a cell can be
  reached only by building the record directly) the loop does not end, and
  \<open>add_item_diverges\<close> proves that the result is \<open>None\<close>, by the induction rule of the
  partial function, which also gives what holds whenever the loop ends
  (\<open>add_to_empty_frame\<close>). The rule of the loop (\<open>add_to_empty_rule\<close>) takes any
  invariant of a round; it is used with the counts of items for the contract of
  \<^verbatim>\<open>add_item\<close> and with the result of the one-pass reference for the layout of the cells
  (\<open>AW_FirstFit\<close>). The equation of \<open>add_to_empty\<close> is declared as its code equation,
  so that every call on a concrete inventory is evaluated by \<open>code_simp\<close>. The runs of
  calls (\<open>stat_run\<close>, \<open>cell_run\<close>, \<open>stats_run\<close>, \<open>inventory_steps\<close>) take a list of calls
  of any length; no bound on their number is assumed.

  \<^bold>\<open>Numbers.\<close> Quantities, stack limits and capacities are Python integers and are
  \<open>int\<close>; there is no overflow to model. The values of a stat are \<^verbatim>\<open>float\<close> in the code.
  The definitions are stated over any type with an order and an addition, and the
  theorems over any linear order, where they show what the comparisons of the code
  compute; the witnesses are evaluated at \<open>real\<close>. \<open>AW_Float\<close> is the instance for the
  code: a finite float is a real that rounding leaves as it is, a sum is rounded to the
  nearest of the numbers \<open>k * 2 ^ j\<close> with \<open>k\<close> of 53 bits and \<open>j\<close> from \<open>- 1074\<close>, and a
  result of magnitude \<open>2 ^ 1024\<close> or more is an infinity. The theorems over a linear order
  hold of the floats that are numbers with this addition, because they assume nothing of
  the addition; the operations on floats are those on the reals exactly on the runs whose
  sums are doubles. The two zeros of the format are one value of the model: no operation
  of the component divides or reads a sign. The logarithm in \<open>ulp_exponent\<close> is not
  evaluated by the code generator; the values of \<open>float_round\<close> that the witnesses need
  are lemmas.

  \<^bold>\<open>What is taken from the library.\<close> The editor configuration reads objects that
  pydantic and \<^verbatim>\<open>typing\<close> build. Their model is written from the behaviour of pydantic 2:
  \<open>get_origin\<close> and \<open>get_args\<close> for the annotations that occur, \<open>Field\<close> for the
  \<^verbatim>\<open>FieldInfo\<close> of a declaration (no attribute \<^verbatim>\<open>constraints\<close>, the bounds as objects of
  \<^verbatim>\<open>annotated_types\<close> in \<^verbatim>\<open>metadata\<close>), and \<open>title_from\<close> for \<^verbatim>\<open>str.title\<close> on ASCII names.
  The theorems about \<open>get_field_constraints\<close> state which of the two shapes of a
  \<^verbatim>\<open>FieldInfo\<close> they are about. Writing and reading a component are inherited from
  \<^verbatim>\<open>BaseModel\<close>; \<open>AW_Serial\<close> models them from the contract of spec section 6 and from
  the declared fields: the dictionary of \<^verbatim>\<open>model_dump\<close> in Python mode, and a reading that
  validates the type of each value and then runs the constructor that is modelled from
  the code.

  \<^bold>\<open>Not modelled.\<close> Extra attributes of a component that is an element of a collection
  (a stat of a \<^verbatim>\<open>StatsComponent\<close>, a cell of an \<^verbatim>\<open>InventoryComponent\<close>): the lists hold the
  records of the declared fields. The state of an object after an assignment that
  raised: an assignment returns the error alone. The conversions of the library between
  types (a numeric string read as a number) and the JSON mode of \<^verbatim>\<open>model_dump\<close>: the
  program calls \<^verbatim>\<open>model_dump()\<close> only, and constructs its components from values of the
  declared types. The identity of the list that a field holds: the store has the objects
  of the classes, and a list is a value, so a caller who keeps the list of \<^verbatim>\<open>stats\<close> and
  appends to it is not modelled. The fields \<^verbatim>\<open>slot_type\<close> and \<^verbatim>\<open>is_equipped\<close> are
  carried by the record of a cell and read by no operation. A \<^verbatim>\<open>ValidationError\<close> of
  pydantic carries every violation of a call; the model returns the first in the order of
  the fields, and the text of a message is represented by the constructor of the error.
\<close>

section \<open>Properties that span the components\<close>

text \<open>
  An inventory constructed with two cells at most and
  a default stack limit of five takes five potions twice, each time in a cell of its own that
  it creates; then it has two cells, both full, \<^verbatim>\<open>is_full\<close> is true, and adding three more
  returns 0, creates no cell and changes nothing.
\<close>

theorem scenario_full_inventory:
  "\<exists>iv0 iv1 iv2.
     InventoryComponent_init [] (Some 2) (Some 5) = Inr iv0 \<and>
     add_item ''potion'' 5 None iv0 = Some (Inr 5, iv1) \<and>
     add_item ''potion'' 5 None iv1 = Some (Inr 5, iv2) \<and>
     length (cells iv2) = 2 \<and> list_all is_full (cells iv2) \<and> is_full_inventory iv2 \<and>
     add_item ''potion'' 3 None iv2 = Some (Inr 0, iv2)"
proof -
  let ?full = "\<lparr>component_type = INVENTORY, item_id = Some ''potion'', quantity = 5,
    max_stack_size = 5, slot_type = None, is_equipped = False\<rparr>"
  let ?iv0 = "\<lparr>component_type = INVENTORY, cells = [], max_cells = 2, default_max_stack_size = 5\<rparr>"
  let ?iv1 = "\<lparr>component_type = INVENTORY, cells = [?full], max_cells = 2, default_max_stack_size = 5\<rparr>"
  let ?iv2 = "\<lparr>component_type = INVENTORY, cells = [?full, ?full], max_cells = 2,
    default_max_stack_size = 5\<rparr>"
  have 0: "InventoryComponent_init [] (Some 2) (Some 5) = Inr ?iv0"
    by (simp add: InventoryComponent_init_def validate_cells_count_def)
  have s1: "add_to_empty_step ''potion'' None 5 ?iv0 = Continue 0 ?iv1"
    by (simp add: add_to_empty_step_def InventoryCellComponent_init_default add_items_def
        is_empty_def Let_def)
  have 1: "add_item ''potion'' 5 None ?iv0 = Some (Inr 5, ?iv1)"
    by (simp add: add_item_unfold add_to_empty_unfold s1 add_to_empty_done)
  have m: "add_to_matching ''potion'' 5 [?full] = (5, [?full])"
    by (simp add: add_to_matching_Cons holds_def is_empty_def add_items_def Let_def)
  have s2: "add_to_empty_step ''potion'' None 5 ?iv1 = Continue 0 ?iv2"
    by (simp add: add_to_empty_step_def InventoryCellComponent_init_default add_items_def
        is_empty_def Let_def)
  have 2: "add_item ''potion'' 5 None ?iv1 = Some (Inr 5, ?iv2)"
    by (simp add: add_item_unfold m add_to_empty_unfold s2 add_to_empty_done)
  have i: "inventory_inv ?iv2" by (simp add: inventory_inv_def cell_inv_def)
  have f: "is_full_inventory ?iv2" by (simp add: is_full_inventory_def is_full_def)
  from i f have 3: "add_item ''potion'' 3 None ?iv2 = Some (Inr 0, ?iv2)" by (rule add_item_full)
  have "length (cells ?iv2) = 2 \<and> list_all is_full (cells ?iv2)" by (simp add: is_full_def)
  with 0 1 2 3 f show ?thesis by blast
qed

text \<open>
  Scenario: a collection at its capacity. A collection constructed with a capacity of
  two takes the stats \<^verbatim>\<open>str\<close> and \<^verbatim>\<open>dex\<close>; adding \<^verbatim>\<open>int\<close> then raises the error of the
  capacity, and the collection still has the two stats.
\<close>

theorem scenario_stats_capacity:
  "\<exists>sc0 s1 sc1 s2 sc2.
     StatsComponent_init [] (Some 2) = Inr sc0 \<and>
     add_stat ''str'' (10 :: real) None None None '''' False sc0 = (Inr s1, sc1) \<and>
     add_stat ''dex'' 8 None None None '''' False sc1 = (Inr s2, sc2) \<and>
     add_stat ''int'' 5 None None None '''' False sc2 = (Inl (MaxStatsReached 2), sc2) \<and>
     get_stat_names sc2 = [''str'', ''dex'']"
  by (simp add: StatsComponent_init_def validate_stats_count_def add_stat_def append_stat_def
      get_stat_def get_stat_names_def named_def Let_def)

text \<open>
  Every constructor sets \<^verbatim>\<open>component_type\<close> to the category
  of its class, \<^verbatim>\<open>STAT\<close> for a stat and a collection of stats and \<^verbatim>\<open>INVENTORY\<close> for a cell
  and an inventory, and no sequence of operations of a stat or a cell, and no operation of
  an inventory or a collection, changes it.
\<close>

theorem component_type_constant:
  fixes s :: "('a::{ord,plus,zero}) StatComponent" and sc :: "'a StatsComponent"
  shows "component_type (StatComponent_init n b c lo hi d :: 'a StatComponent) = STAT \<and>
    component_type (stat_run s xs) = component_type s \<and>
    (StatsComponent_init ss ms = Inr sc \<longrightarrow> component_type sc = STAT) \<and>
    component_type (stats_run sc ys) = component_type sc \<and>
    (InventoryCellComponent_init iid q mss st eq = Inr cl \<longrightarrow> component_type cl = INVENTORY) \<and>
    component_type (cell_run cl zs) = component_type cl \<and>
    (InventoryComponent_init cs mc dmss = Inr iv \<longrightarrow> component_type iv = INVENTORY) \<and>
    (inventory_step iv x iv' \<longrightarrow> component_type iv' = component_type iv)"
proof -
  have "component_type sc = STAT" if "StatsComponent_init ss ms = Inr sc"
    using that
    by (auto simp: StatsComponent_init_def validate_stats_count_def bind_result_Inr_iff
        split: option.splits if_splits)
  moreover have "component_type cl = INVENTORY"
    if "InventoryCellComponent_init iid q mss st eq = Inr cl"
    using that by (auto simp: InventoryCellComponent_init_eq Let_def split: if_splits)
  moreover have "component_type (StatComponent_init n b c lo hi d :: 'a StatComponent) = STAT"
    by (simp add: StatComponent_init_def Let_def)
  ultimately show ?thesis
    by (auto simp: InventoryComponent_init_Inr(6) inventory_step_frame(3))
qed

theorem component_type_constant_witness:
  "component_type (stats_run \<lparr>component_type = STAT, stats = [], max_stats = None\<rparr>
      [ResetAll :: real stats_op]) = STAT \<and>
   component_type (cell_run (empty_cell 1) [ClearSlot]) = INVENTORY"
  using component_type_constant [where ss = "[]" and ms = None
      and sc = "\<lparr>component_type = STAT, stats = [], max_stats = None\<rparr> :: real StatsComponent"
      and ys = "[ResetAll]" and iid = None and q = None and mss = None and st = None
      and eq = None and cl = "empty_cell 1" and zs = "[ClearSlot]"]
  by (simp add: StatsComponent_init_def validate_stats_count_def InventoryCellComponent_init_eq
      empty_cell_def)

text \<open>
  C30 (validated assignments keep the invariants). An assignment to a field that has a
  validator leaves a well-formed component well formed whenever it succeeds: the quantity
  and the item of a cell, the cells and the capacity of an inventory, the capacity of a
  collection of stats and, when the names of the new stats are distinct, its stats, and
  the two values of a stat. The fields that are assigned without a validator that looks
  at the others are the subject of \<open>assign_max_stack_size_breaks_inv\<close> and
  \<open>assign_min_value_breaks_inv\<close>.
\<close>

theorem validated_assignments_keep_invariants:
  fixes s :: "('a::linorder) StatComponent" and sc :: "'a StatsComponent"
  shows "(cell_inv c \<and> assign_quantity q c = Inr c' \<longrightarrow> cell_inv c') \<and>
    (cell_inv c \<and> assign_item_id i c = Inr c' \<longrightarrow> cell_inv c') \<and>
    (inventory_inv iv \<and> list_all cell_inv cs \<longrightarrow> inventory_inv (assign_cells cs iv)) \<and>
    (inventory_inv iv \<and> assign_max_cells m iv = Inr iv' \<longrightarrow> inventory_inv iv') \<and>
    (within_capacity sc \<and> distinct (map name ss) \<longrightarrow> stats_inv (assign_stats ss sc)) \<and>
    (stats_inv sc \<and> assign_max_stats ms sc = Inr sc' \<longrightarrow> stats_inv sc') \<and>
    (stat_inv s \<longrightarrow> stat_inv (assign_current_value x s) \<and> stat_inv (assign_base_value x s))"
  using cell_inv_assign_quantity [of c q c'] cell_inv_assign_item_id [of c i c']
    inventory_inv_assign_cells [of iv cs] inventory_inv_assign_max_cells [of iv m iv']
    stats_inv_assign_stats [of sc ss] stats_inv_assign_max_stats [of sc ms sc']
    stat_inv_assign_current [of s x] stat_inv_assign_base [of s x] stat_inv_bounds_ok [of s]
  by (auto simp: stat_inv_def)

theorem validated_assignments_keep_invariants_witness:
  "inventory_inv (assign_cells
      [\<lparr>component_type = INVENTORY, item_id = Some ''potion'', quantity = 2, max_stack_size = 5,
        slot_type = None, is_equipped = False\<rparr>,
       \<lparr>component_type = INVENTORY, item_id = None, quantity = 0, max_stack_size = 1,
        slot_type = None, is_equipped = False\<rparr>]
      \<lparr>component_type = INVENTORY, cells = [], max_cells = 1, default_max_stack_size = 1\<rparr>) \<and>
   cells (assign_cells
      [\<lparr>component_type = INVENTORY, item_id = Some ''potion'', quantity = 2, max_stack_size = 5,
        slot_type = None, is_equipped = False\<rparr>,
       \<lparr>component_type = INVENTORY, item_id = None, quantity = 0, max_stack_size = 1,
        slot_type = None, is_equipped = False\<rparr>]
      \<lparr>component_type = INVENTORY, cells = [], max_cells = 1, default_max_stack_size = 1\<rparr>) =
     [\<lparr>component_type = INVENTORY, item_id = Some ''potion'', quantity = 2, max_stack_size = 5,
       slot_type = None, is_equipped = False\<rparr>]"
  using validated_assignments_keep_invariants [where iv =
      "\<lparr>component_type = INVENTORY, cells = [], max_cells = 1, default_max_stack_size = 1\<rparr>"
    and cs = "[\<lparr>component_type = INVENTORY, item_id = Some ''potion'', quantity = 2,
        max_stack_size = 5, slot_type = None, is_equipped = False\<rparr>,
       \<lparr>component_type = INVENTORY, item_id = None, quantity = 0, max_stack_size = 1,
        slot_type = None, is_equipped = False\<rparr>]"]
  by (simp add: inventory_inv_def cell_inv_def assign_cells_eq truncate_to_take)

text \<open>
  C17 (refinement). From the classes over the store to the abstract specifications. A
  collection of stats that owns its stats and has unique names within its capacity is,
  after every run of calls over the store, the finite mapping that the same calls give on
  the mapping of names to stats. An inventory that owns its cells and is well formed
  takes, along every run of calls over the store, its bag of items through a run of the
  abstract operations on bags. Both stay owned and well formed.
\<close>

theorem store_refines_specifications:
  fixes w :: "('a::{ord,plus,zero}) stats_state"
  shows "(stats_owned w \<and> stats_inv (abs_stats w) \<longrightarrow>
      stats_mapping (abs_stats (stats_run_h w xs)) =
        foldl (mapping_step (max_stats_h (fst w))) (stats_mapping (abs_stats w)) xs \<and>
      stats_inv (abs_stats (stats_run_h w xs)) \<and> stats_owned (stats_run_h w xs)) \<and>
    (inventory_owned v \<and> inventory_inv (abs_inventory v) \<and> inventory_steps_h v ys v' \<longrightarrow>
      bag_steps (bag_of (abs_inventory v)) ys (bag_of (abs_inventory v')) \<and>
      inventory_inv (abs_inventory v') \<and> inventory_owned v')"
proof (intro conjI impI; elim conjE)
  assume own: "stats_owned w" and inv: "stats_inv (abs_stats w)"
  note run = stats_run_h_abs [OF own, of xs]
  from stats_run_refines [OF inv, of xs] run
  show "stats_mapping (abs_stats (stats_run_h w xs)) =
      foldl (mapping_step (max_stats_h (fst w))) (stats_mapping (abs_stats w)) xs"
    by (simp add: abs_stats_def)
  from stats_inv_run [OF inv, of xs] run show "stats_inv (abs_stats (stats_run_h w xs))"
    by simp
  from run show "stats_owned (stats_run_h w xs)"
    by simp
next
  assume own: "inventory_owned v" and inv: "inventory_inv (abs_inventory v)"
    and run: "inventory_steps_h v ys v'"
  note steps = inventory_steps_h_sound [OF run own]
  from steps inv show "bag_steps (bag_of (abs_inventory v)) ys (bag_of (abs_inventory v'))"
    by (simp add: inventory_steps_bag_steps)
  from steps inv show "inventory_inv (abs_inventory v')"
    by (auto dest: inventory_steps_inv)
  from steps show "inventory_owned v'"
    by simp
qed

theorem store_refines_specifications_witness:
  "stats_mapping (abs_stats (stats_run_h
     (\<lparr>component_type = STAT, stats_h = [0], max_stats_h = Some 2\<rparr>,
      [\<lparr>component_type = STAT, name = ''hp'', base_value = 10 :: real, current_value = 10,
         min_value = Some 0, max_value = Some 20, description = ''''\<rparr>])
     [ModifyStat ''hp'' 50, AddStat ''xp'' 1 None None None '''' False])) =
   foldl (mapping_step (Some 2))
     (stats_mapping (abs_stats
       (\<lparr>component_type = STAT, stats_h = [0], max_stats_h = Some 2\<rparr>,
        [\<lparr>component_type = STAT, name = ''hp'', base_value = 10 :: real, current_value = 10,
           min_value = Some 0, max_value = Some 20, description = ''''\<rparr>])))
     [ModifyStat ''hp'' 50, AddStat ''xp'' 1 None None None '''' False] \<and>
   bag_steps
     (bag_of (abs_inventory
       (\<lparr>component_type = INVENTORY, cells_h = [0], max_cells_h = 1, default_max_stack_size_h = 5\<rparr>,
        [empty_cell 5\<lparr>item_id := Some ''potion'', quantity := 3\<rparr>])))
     [RemoveItem ''potion'' 1]
     (bag_of (abs_inventory
       (\<lparr>component_type = INVENTORY, cells_h = [0], max_cells_h = 1, default_max_stack_size_h = 5\<rparr>,
        [empty_cell 5\<lparr>item_id := Some ''potion'', quantity := 2\<rparr>,
         empty_cell 5\<lparr>item_id := Some ''potion'', quantity := 2\<rparr>])))"
proof -
  let ?w = "(\<lparr>component_type = STAT, stats_h = [0], max_stats_h = Some 2\<rparr>,
    [\<lparr>component_type = STAT, name = ''hp'', base_value = 10 :: real, current_value = 10,
       min_value = Some 0, max_value = Some 20, description = ''''\<rparr>])"
  let ?iv = "\<lparr>component_type = INVENTORY, cells_h = [0], max_cells_h = 1,
    default_max_stack_size_h = 5\<rparr>"
  let ?h = "[empty_cell 5\<lparr>item_id := Some ''potion'', quantity := 3\<rparr>]"
  let ?h' = "[empty_cell 5\<lparr>item_id := Some ''potion'', quantity := 2\<rparr>,
    empty_cell 5\<lparr>item_id := Some ''potion'', quantity := 2\<rparr>]"
  have w: "stats_owned ?w" "stats_inv (abs_stats ?w)"
    by (simp_all add: stats_inv_def within_capacity_def abs_stats_def)
  have "remove_item_h ''potion'' 1 ?iv ?h = (1, ?h')"
    by (simp add: remove_item_h_def remove_items_h_def model_copy_def dict_update_def
        alloc_def put_def deref_def is_empty_def empty_cell_def Let_def)
  then have "inventory_step_h (?iv, ?h) (RemoveItem ''potion'' 1) (?iv, ?h')"
    by (rule inventory_step_h.remove_h)
  then have s: "inventory_steps_h (?iv, ?h) [RemoveItem ''potion'' 1] (?iv, ?h')"
    by (intro inventory_steps_h.more_h [OF _ inventory_steps_h.done_h])
  have v: "inventory_owned (?iv, ?h)" "inventory_inv (abs_inventory (?iv, ?h))"
    by (simp_all add: inventory_inv_def cell_inv_def empty_cell_def abs_inventory_def deref_def)
  from store_refines_specifications [of ?w "[ModifyStat ''hp'' 50, AddStat ''xp'' 1 None None None '''' False]"
      "(?iv, ?h)" "[RemoveItem ''potion'' 1]" "(?iv, ?h')"] w v s
  show ?thesis
    by simp
qed

end
